theory Spec2Isabelle
  imports Main "HOL-Library.Word"
begin

section \<open>Go strings\<close>

text \<open>
  A Go string is a sequence of bytes, here a \<^typ>\<open>string\<close> (a list of 8-bit characters).
  Text is UTF-8: a rune is a code point, an \<^typ>\<open>int\<close> as Go's \<^verbatim>\<open>int32\<close>.
  The functions of this section are the ones of the packages \<^verbatim>\<open>strings\<close>,
  \<^verbatim>\<open>unicode/utf8\<close> and \<^verbatim>\<open>unicode\<close> that \<^verbatim>\<open>main.go\<close> calls. They belong to the
  Go standard library, not to the repository, and are written after its documentation.
\<close>

type_synonym rune = int

definition byte :: "char \<Rightarrow> int" where
  "byte c = of_char c"

definition RuneError :: rune where
  "RuneError = 0xFFFD"

definition cont :: "char \<Rightarrow> bool" where
  "cont c = (0x80 \<le> byte c \<and> byte c \<le> 0xBF)"

text \<open>
  \<^verbatim>\<open>utf8.DecodeRuneInString\<close>: the first rune of the string and its width in bytes. A byte
  that starts no well-formed encoding (overlong forms and surrogates included) decodes
  to \<^const>\<open>RuneError\<close> with width 1.
\<close>

definition second_lo :: "int \<Rightarrow> int" where
  "second_lo b0 = (if b0 = 0xE0 then 0xA0 else if b0 = 0xF0 then 0x90 else 0x80)"

definition second_hi :: "int \<Rightarrow> int" where
  "second_hi b0 = (if b0 = 0xED then 0x9F else if b0 = 0xF4 then 0x8F else 0xBF)"

fun DecodeRune :: "string \<Rightarrow> rune \<times> nat" where
  "DecodeRune [] = (RuneError, 0)"
| "DecodeRune (c # cs) =
    (let b0 = byte c in
     if b0 < 0x80 then (b0, 1)
     else if 0xC2 \<le> b0 \<and> b0 \<le> 0xDF then
       (case cs of
          c1 # _ \<Rightarrow>
            if cont c1 then ((b0 - 0xC0) * 64 + (byte c1 - 0x80), 2) else (RuneError, 1)
        | _ \<Rightarrow> (RuneError, 1))
     else if 0xE0 \<le> b0 \<and> b0 \<le> 0xEF then
       (case cs of
          c1 # c2 # _ \<Rightarrow>
            if second_lo b0 \<le> byte c1 \<and> byte c1 \<le> second_hi b0 \<and> cont c2
            then ((b0 - 0xE0) * 4096 + (byte c1 - 0x80) * 64 + (byte c2 - 0x80), 3)
            else (RuneError, 1)
        | _ \<Rightarrow> (RuneError, 1))
     else if 0xF0 \<le> b0 \<and> b0 \<le> 0xF4 then
       (case cs of
          c1 # c2 # c3 # _ \<Rightarrow>
            if second_lo b0 \<le> byte c1 \<and> byte c1 \<le> second_hi b0 \<and> cont c2 \<and> cont c3
            then ((b0 - 0xF0) * 262144 + (byte c1 - 0x80) * 4096
                    + (byte c2 - 0x80) * 64 + (byte c3 - 0x80), 4)
            else (RuneError, 1)
        | _ \<Rightarrow> (RuneError, 1))
     else (RuneError, 1))"

text \<open>
  The conversion \<^verbatim>\<open>[]rune(s)\<close>. The width of a rune decoded from a non-empty string is
  at least 1, so dropping \<open>w - 1\<close> bytes of the tail drops \<open>w\<close> bytes of the string.
\<close>

fun runes :: "string \<Rightarrow> rune list" where
  "runes [] = []"
| "runes (c # cs) = (case DecodeRune (c # cs) of (r, w) \<Rightarrow> r # runes (drop (w - 1) cs))"

definition RuneCount :: "string \<Rightarrow> nat" where
  "RuneCount s = length (runes s)"

text \<open>\<^verbatim>\<open>utf8.EncodeRune\<close>: an invalid rune is written as \<^const>\<open>RuneError\<close>.\<close>

definition EncodeRune :: "rune \<Rightarrow> string" where
  "EncodeRune r0 =
    (let r = (if r0 < 0 \<or> 0x10FFFF < r0 \<or> (0xD800 \<le> r0 \<and> r0 \<le> 0xDFFF)
              then RuneError else r0) in
     if r < 0x80 then [char_of r]
     else if r < 0x800 then [char_of (0xC0 + r div 64), char_of (0x80 + r mod 64)]
     else if r < 0x10000 then
       [char_of (0xE0 + r div 4096), char_of (0x80 + (r div 64) mod 64),
        char_of (0x80 + r mod 64)]
     else
       [char_of (0xF0 + r div 262144), char_of (0x80 + (r div 4096) mod 64),
        char_of (0x80 + (r div 64) mod 64), char_of (0x80 + r mod 64)])"

text \<open>
  \<^verbatim>\<open>unicode.ToLower\<close> searches the table \<^verbatim>\<open>unicode.CaseRanges\<close>, which Go generates from
  the simple lower-case mappings of the Unicode Character Database (version 15.0.0 in the
  releases from Go 1.21 on). The lists below hold all of these mappings, 1433 code points
  in 182 runs \<open>(lo, hi, stride, delta)\<close>: a rune \<open>r\<close> with \<open>lo \<le> r \<le> hi\<close> and \<open>r - lo\<close> a
  multiple of \<open>stride\<close> has the lower-case form \<open>r + delta\<close>, and a rune that is in no run
  is its own lower-case form. A run of stride 2 holds the capitals of what Go writes as
  an \<^verbatim>\<open>UpperLower\<close> range, where capitals and small letters alternate. The runs are in
  ascending order of \<open>lo\<close>, so the search ends at the first run that starts above the
  rune. For 25 capitals the lower-case form has a UTF-8 encoding of another length:
  it is shorter for U+0130, U+1E9E, U+2126, U+212A, U+212B, eight capitals of the block
  Latin Extended-C and ten of Latin Extended-D, and longer for U+023A and U+023E.
\<close>

fun to_lower :: "(rune \<times> rune \<times> int \<times> int) list \<Rightarrow> rune \<Rightarrow> rune" where
  "to_lower [] r = r"
| "to_lower ((lo, hi, stride, delta) # ranges) r =
     (if r < lo then r
      else if r \<le> hi \<and> (r - lo) mod stride = 0 then r + delta
      else to_lower ranges r)"

text \<open>Basic Latin and Latin-1 Supplement: 3 runs.\<close>

definition lowerLatin1 :: "(rune \<times> rune \<times> int \<times> int) list" where
  "lowerLatin1 =
    [(0x0041, 0x005A, 1, 32), (0x00C0, 0x00D6, 1, 32), (0x00D8, 0x00DE, 1, 32)]"

text \<open>Latin Extended-A and Latin Extended-B: 60 runs.\<close>

definition lowerLatinExtended :: "(rune \<times> rune \<times> int \<times> int) list" where
  "lowerLatinExtended =
    [(0x0100, 0x012E, 2, 1), (0x0130, 0x0130, 1, - 199), (0x0132, 0x0136, 2, 1),
     (0x0139, 0x0147, 2, 1), (0x014A, 0x0176, 2, 1), (0x0178, 0x0178, 1, - 121),
     (0x0179, 0x017D, 2, 1), (0x0181, 0x0181, 1, 210), (0x0182, 0x0184, 2, 1),
     (0x0186, 0x0186, 1, 206), (0x0187, 0x0187, 1, 1), (0x0189, 0x018A, 1, 205),
     (0x018B, 0x018B, 1, 1), (0x018E, 0x018E, 1, 79), (0x018F, 0x018F, 1, 202),
     (0x0190, 0x0190, 1, 203), (0x0191, 0x0191, 1, 1), (0x0193, 0x0193, 1, 205),
     (0x0194, 0x0194, 1, 207), (0x0196, 0x0196, 1, 211), (0x0197, 0x0197, 1, 209),
     (0x0198, 0x0198, 1, 1), (0x019C, 0x019C, 1, 211), (0x019D, 0x019D, 1, 213),
     (0x019F, 0x019F, 1, 214), (0x01A0, 0x01A4, 2, 1), (0x01A6, 0x01A6, 1, 218),
     (0x01A7, 0x01A7, 1, 1), (0x01A9, 0x01A9, 1, 218), (0x01AC, 0x01AC, 1, 1),
     (0x01AE, 0x01AE, 1, 218), (0x01AF, 0x01AF, 1, 1), (0x01B1, 0x01B2, 1, 217),
     (0x01B3, 0x01B5, 2, 1), (0x01B7, 0x01B7, 1, 219), (0x01B8, 0x01B8, 1, 1),
     (0x01BC, 0x01BC, 1, 1), (0x01C4, 0x01C4, 1, 2), (0x01C5, 0x01C5, 1, 1),
     (0x01C7, 0x01C7, 1, 2), (0x01C8, 0x01C8, 1, 1), (0x01CA, 0x01CA, 1, 2),
     (0x01CB, 0x01DB, 2, 1), (0x01DE, 0x01EE, 2, 1), (0x01F1, 0x01F1, 1, 2),
     (0x01F2, 0x01F4, 2, 1), (0x01F6, 0x01F6, 1, - 97), (0x01F7, 0x01F7, 1, - 56),
     (0x01F8, 0x021E, 2, 1), (0x0220, 0x0220, 1, - 130), (0x0222, 0x0232, 2, 1),
     (0x023A, 0x023A, 1, 10795), (0x023B, 0x023B, 1, 1), (0x023D, 0x023D, 1, - 163),
     (0x023E, 0x023E, 1, 10792), (0x0241, 0x0241, 1, 1), (0x0243, 0x0243, 1, - 195),
     (0x0244, 0x0244, 1, 69), (0x0245, 0x0245, 1, 71), (0x0246, 0x024E, 2, 1)]"

text \<open>Greek and Coptic: 16 runs.\<close>

definition lowerGreek :: "(rune \<times> rune \<times> int \<times> int) list" where
  "lowerGreek =
    [(0x0370, 0x0372, 2, 1), (0x0376, 0x0376, 1, 1), (0x037F, 0x037F, 1, 116),
     (0x0386, 0x0386, 1, 38), (0x0388, 0x038A, 1, 37), (0x038C, 0x038C, 1, 64),
     (0x038E, 0x038F, 1, 63), (0x0391, 0x03A1, 1, 32), (0x03A3, 0x03AB, 1, 32),
     (0x03CF, 0x03CF, 1, 8), (0x03D8, 0x03EE, 2, 1), (0x03F4, 0x03F4, 1, - 60),
     (0x03F7, 0x03F7, 1, 1), (0x03F9, 0x03F9, 1, - 7), (0x03FA, 0x03FA, 1, 1),
     (0x03FD, 0x03FF, 1, - 130)]"

text \<open>Cyrillic and Cyrillic Supplement: 7 runs.\<close>

definition lowerCyrillic :: "(rune \<times> rune \<times> int \<times> int) list" where
  "lowerCyrillic =
    [(0x0400, 0x040F, 1, 80), (0x0410, 0x042F, 1, 32), (0x0460, 0x0480, 2, 1),
     (0x048A, 0x04BE, 2, 1), (0x04C0, 0x04C0, 1, 15), (0x04C1, 0x04CD, 2, 1),
     (0x04D0, 0x052E, 2, 1)]"

text \<open>Armenian, Georgian, Cherokee and Georgian Extended: 8 runs.\<close>

definition lowerArmenianGeorgian :: "(rune \<times> rune \<times> int \<times> int) list" where
  "lowerArmenianGeorgian =
    [(0x0531, 0x0556, 1, 48), (0x10A0, 0x10C5, 1, 7264), (0x10C7, 0x10C7, 1, 7264),
     (0x10CD, 0x10CD, 1, 7264), (0x13A0, 0x13EF, 1, 38864), (0x13F0, 0x13F5, 1, 8),
     (0x1C90, 0x1CBA, 1, - 3008), (0x1CBD, 0x1CBF, 1, - 3008)]"

text \<open>Latin Extended Additional and Greek Extended: 26 runs.\<close>

definition lowerLatinGreekAdditional :: "(rune \<times> rune \<times> int \<times> int) list" where
  "lowerLatinGreekAdditional =
    [(0x1E00, 0x1E94, 2, 1), (0x1E9E, 0x1E9E, 1, - 7615), (0x1EA0, 0x1EFE, 2, 1),
     (0x1F08, 0x1F0F, 1, - 8), (0x1F18, 0x1F1D, 1, - 8), (0x1F28, 0x1F2F, 1, - 8),
     (0x1F38, 0x1F3F, 1, - 8), (0x1F48, 0x1F4D, 1, - 8), (0x1F59, 0x1F5F, 2, - 8),
     (0x1F68, 0x1F6F, 1, - 8), (0x1F88, 0x1F8F, 1, - 8), (0x1F98, 0x1F9F, 1, - 8),
     (0x1FA8, 0x1FAF, 1, - 8), (0x1FB8, 0x1FB9, 1, - 8), (0x1FBA, 0x1FBB, 1, - 74),
     (0x1FBC, 0x1FBC, 1, - 9), (0x1FC8, 0x1FCB, 1, - 86), (0x1FCC, 0x1FCC, 1, - 9),
     (0x1FD8, 0x1FD9, 1, - 8), (0x1FDA, 0x1FDB, 1, - 100), (0x1FE8, 0x1FE9, 1, - 8),
     (0x1FEA, 0x1FEB, 1, - 112), (0x1FEC, 0x1FEC, 1, - 7), (0x1FF8, 0x1FF9, 1, - 128),
     (0x1FFA, 0x1FFB, 1, - 126), (0x1FFC, 0x1FFC, 1, - 9)]"

text \<open>Letterlike Symbols, Number Forms and Enclosed Alphanumerics: 7 runs.\<close>

definition lowerLetterlike :: "(rune \<times> rune \<times> int \<times> int) list" where
  "lowerLetterlike =
    [(0x2126, 0x2126, 1, - 7517), (0x212A, 0x212A, 1, - 8383), (0x212B, 0x212B, 1, - 8262),
     (0x2132, 0x2132, 1, 28), (0x2160, 0x216F, 1, 16), (0x2183, 0x2183, 1, 1),
     (0x24B6, 0x24CF, 1, 26)]"

text \<open>Glagolitic, Latin Extended-C and Coptic: 16 runs.\<close>

definition lowerGlagolitic :: "(rune \<times> rune \<times> int \<times> int) list" where
  "lowerGlagolitic =
    [(0x2C00, 0x2C2F, 1, 48), (0x2C60, 0x2C60, 1, 1), (0x2C62, 0x2C62, 1, - 10743),
     (0x2C63, 0x2C63, 1, - 3814), (0x2C64, 0x2C64, 1, - 10727), (0x2C67, 0x2C6B, 2, 1),
     (0x2C6D, 0x2C6D, 1, - 10780), (0x2C6E, 0x2C6E, 1, - 10749),
     (0x2C6F, 0x2C6F, 1, - 10783), (0x2C70, 0x2C70, 1, - 10782), (0x2C72, 0x2C72, 1, 1),
     (0x2C75, 0x2C75, 1, 1), (0x2C7E, 0x2C7F, 1, - 10815), (0x2C80, 0x2CE2, 2, 1),
     (0x2CEB, 0x2CED, 2, 1), (0x2CF2, 0x2CF2, 1, 1)]"

text \<open>Cyrillic Extended-B and Latin Extended-D: 28 runs.\<close>

definition lowerLatinExtendedD :: "(rune \<times> rune \<times> int \<times> int) list" where
  "lowerLatinExtendedD =
    [(0xA640, 0xA66C, 2, 1), (0xA680, 0xA69A, 2, 1), (0xA722, 0xA72E, 2, 1),
     (0xA732, 0xA76E, 2, 1), (0xA779, 0xA77B, 2, 1), (0xA77D, 0xA77D, 1, - 35332),
     (0xA77E, 0xA786, 2, 1), (0xA78B, 0xA78B, 1, 1), (0xA78D, 0xA78D, 1, - 42280),
     (0xA790, 0xA792, 2, 1), (0xA796, 0xA7A8, 2, 1), (0xA7AA, 0xA7AA, 1, - 42308),
     (0xA7AB, 0xA7AB, 1, - 42319), (0xA7AC, 0xA7AC, 1, - 42315),
     (0xA7AD, 0xA7AD, 1, - 42305), (0xA7AE, 0xA7AE, 1, - 42308),
     (0xA7B0, 0xA7B0, 1, - 42258), (0xA7B1, 0xA7B1, 1, - 42282),
     (0xA7B2, 0xA7B2, 1, - 42261), (0xA7B3, 0xA7B3, 1, 928), (0xA7B4, 0xA7C2, 2, 1),
     (0xA7C4, 0xA7C4, 1, - 48), (0xA7C5, 0xA7C5, 1, - 42307), (0xA7C6, 0xA7C6, 1, - 35384),
     (0xA7C7, 0xA7C9, 2, 1), (0xA7D0, 0xA7D0, 1, 1), (0xA7D6, 0xA7D8, 2, 1),
     (0xA7F5, 0xA7F5, 1, 1)]"

text \<open>Fullwidth Forms and the supplementary planes: 11 runs.\<close>

definition lowerSupplementary :: "(rune \<times> rune \<times> int \<times> int) list" where
  "lowerSupplementary =
    [(0xFF21, 0xFF3A, 1, 32), (0x10400, 0x10427, 1, 40), (0x104B0, 0x104D3, 1, 40),
     (0x10570, 0x1057A, 1, 39), (0x1057C, 0x1058A, 1, 39), (0x1058C, 0x10592, 1, 39),
     (0x10594, 0x10595, 1, 39), (0x10C80, 0x10CB2, 1, 64), (0x118A0, 0x118BF, 1, 32),
     (0x16E40, 0x16E5F, 1, 32), (0x1E900, 0x1E921, 1, 34)]"

text \<open>The whole table.\<close>

definition lowerRanges :: "(rune \<times> rune \<times> int \<times> int) list" where
  "lowerRanges =
     lowerLatin1 @ lowerLatinExtended @ lowerGreek @ lowerCyrillic @ lowerArmenianGeorgian
     @ lowerLatinGreekAdditional @ lowerLetterlike @ lowerGlagolitic @ lowerLatinExtendedD
     @ lowerSupplementary"

text \<open>
  The function starts, as in Go, with the shortcut for ASCII. Where Go finds the run by
  bisection of the table, the search here goes to the part of the table for the blocks
  of the rune, which gives the same result (lemma \<open>ToLowerRune_lowerRanges\<close> below).
\<close>

definition ToLowerRune :: "rune \<Rightarrow> rune" where
  "ToLowerRune r =
    (if r \<le> 0x7F then (if 0x41 \<le> r \<and> r \<le> 0x5A then r + 32 else r)
     else if r < 0x100 then to_lower lowerLatin1 r
     else if r < 0x370 then to_lower lowerLatinExtended r
     else if r < 0x400 then to_lower lowerGreek r
     else if r < 0x530 then to_lower lowerCyrillic r
     else if r < 0x1E00 then to_lower lowerArmenianGeorgian r
     else if r < 0x2100 then to_lower lowerLatinGreekAdditional r
     else if r < 0x2C00 then to_lower lowerLetterlike r
     else if r < 0xA640 then to_lower lowerGlagolitic r
     else if r < 0xFF00 then to_lower lowerLatinExtendedD r
     else to_lower lowerSupplementary r)"

text \<open>
  \<^verbatim>\<open>strings.ToLower\<close>: every rune is decoded, mapped and encoded again; an invalid byte
  comes out as the three bytes of U+FFFD. (Go's shortcut for all-ASCII strings gives the
  same bytes.)
\<close>

definition ToLower :: "string \<Rightarrow> string" where
  "ToLower s = concat (map (\<lambda>r. EncodeRune (ToLowerRune r)) (runes s))"

fun HasPrefix :: "string \<Rightarrow> string \<Rightarrow> bool" where
  "HasPrefix s [] = True"
| "HasPrefix [] (p # ps) = False"
| "HasPrefix (c # cs) (p # ps) = (c = p \<and> HasPrefix cs ps)"

text \<open>\<^verbatim>\<open>strings.Index\<close>: the byte index of the first occurrence, or \<open>-1\<close>.\<close>

fun Index :: "string \<Rightarrow> string \<Rightarrow> int" where
  "Index [] sub = (if sub = [] then 0 else - 1)"
| "Index (c # cs) sub =
    (if HasPrefix (c # cs) sub then 0
     else (let r = Index cs sub in if r < 0 then - 1 else r + 1))"

definition Contains :: "string \<Rightarrow> string \<Rightarrow> bool" where
  "Contains s sub = (0 \<le> Index s sub)"

text \<open>
  \<^verbatim>\<open>strings.ReplaceAll\<close> for a non-empty \<open>old\<close>, the only use in the source: the
  non-overlapping occurrences are replaced from the left. (With an empty \<open>old\<close> Go
  inserts \<open>new\<close> around every rune; the definition then returns the string unchanged.)
\<close>

fun ReplaceAll :: "string \<Rightarrow> string \<Rightarrow> string \<Rightarrow> string" where
  "ReplaceAll [] old new = []"
| "ReplaceAll (c # cs) old new =
    (if old \<noteq> [] \<and> HasPrefix (c # cs) old
     then new @ ReplaceAll (drop (length old - 1) cs) old new
     else c # ReplaceAll cs old new)"

text \<open>\<^verbatim>\<open>strings.Split\<close> with a separator of one byte.\<close>

fun Split :: "string \<Rightarrow> char \<Rightarrow> string list" where
  "Split [] sep = [[]]"
| "Split (c # cs) sep =
    (if c = sep then [] # Split cs sep
     else (let r = Split cs sep in (c # hd r) # tl r))"

text \<open>
  \<^verbatim>\<open>strings.TrimSpace\<close> removes the leading and trailing runes for which
  \<^verbatim>\<open>unicode.IsSpace\<close> holds. Their UTF-8 encodings are listed here: U+0009 to U+000D,
  U+0020, U+0085, U+00A0, U+1680, U+2000 to U+200A, U+2028, U+2029, U+202F, U+205F, U+3000.
  A well-formed encoding at the start (the end) of a string is what Go decodes there, so
  trimming removes these byte sequences from both ends.
\<close>

definition space_runes :: "string list" where
  "space_runes =
    [[CHR 0x09], [CHR 0x0A], [CHR 0x0B], [CHR 0x0C], [CHR 0x0D], [CHR 0x20],
     [CHR 0xC2, CHR 0x85], [CHR 0xC2, CHR 0xA0], [CHR 0xE1, CHR 0x9A, CHR 0x80],
     [CHR 0xE2, CHR 0x80, CHR 0x80], [CHR 0xE2, CHR 0x80, CHR 0x81],
     [CHR 0xE2, CHR 0x80, CHR 0x82], [CHR 0xE2, CHR 0x80, CHR 0x83],
     [CHR 0xE2, CHR 0x80, CHR 0x84], [CHR 0xE2, CHR 0x80, CHR 0x85],
     [CHR 0xE2, CHR 0x80, CHR 0x86], [CHR 0xE2, CHR 0x80, CHR 0x87],
     [CHR 0xE2, CHR 0x80, CHR 0x88], [CHR 0xE2, CHR 0x80, CHR 0x89],
     [CHR 0xE2, CHR 0x80, CHR 0x8A], [CHR 0xE2, CHR 0x80, CHR 0xA8],
     [CHR 0xE2, CHR 0x80, CHR 0xA9], [CHR 0xE2, CHR 0x80, CHR 0xAF],
     [CHR 0xE2, CHR 0x81, CHR 0x9F], [CHR 0xE3, CHR 0x80, CHR 0x80]]"

fun leading :: "string list \<Rightarrow> string \<Rightarrow> nat" where
  "leading [] s = 0"
| "leading (w # ws) s = (if w \<noteq> [] \<and> HasPrefix s w then length w else leading ws s)"

fun trim_left :: "string list \<Rightarrow> string \<Rightarrow> string" where
  "trim_left ws [] = []"
| "trim_left ws (c # cs) =
    (let n = leading ws (c # cs) in
     if n = 0 then c # cs else trim_left ws (drop (n - 1) cs))"

definition TrimSpace :: "string \<Rightarrow> string" where
  "TrimSpace s = rev (trim_left (map rev space_runes) (rev (trim_left space_runes s)))"

section \<open>The listing extractor\<close>

record Listing =
  Title :: string
  Company :: string

text \<open>
  \<^verbatim>\<open>normalizeSpaces\<close>: no-break spaces become spaces, the ends are trimmed, and runs of
  spaces are collapsed by repeating the replacement while two adjacent spaces remain.
  Each replacement shortens the string; the termination proof comes with the lemmas,
  after the definitions.
\<close>

function collapse :: "string \<Rightarrow> string" where
  "collapse s = (if Contains s ''  '' then collapse (ReplaceAll s ''  '' '' '') else s)"
  by pat_completeness auto

definition normalizeSpaces :: "string \<Rightarrow> string" where
  "normalizeSpaces s = collapse (TrimSpace (ReplaceAll s [CHR 0xC2, CHR 0xA0] '' ''))"

text \<open>
  The vocabularies. The words are Russian and English, lower-case, in the order of the
  source and with its repetitions; a word with a letter outside ASCII is given by its
  UTF-8 bytes. In \<^verbatim>\<open>isLikelyCompany\<close>: \<^verbatim>\<open>badTitle\<close> (5 phrases) and \<^verbatim>\<open>bad\<close> (57 words
  and phrases).
\<close>

definition company_badTitle :: "string list" where
  "company_badTitle =
    [[CHR 0xD0, CHR 0xB0, CHR 0xD0, CHR 0xBA, CHR 0xD1, CHR 0x82, CHR 0xD0, CHR 0xB8,
      CHR 0xD0, CHR 0xB2, CHR 0xD0, CHR 0xBD, CHR 0xD1, CHR 0x8B, CHR 0xD1, CHR 0x85,
      CHR 0x20, CHR 0xD0, CHR 0xB2, CHR 0xD0, CHR 0xB0, CHR 0xD0, CHR 0xBA, CHR 0xD0,
      CHR 0xB0, CHR 0xD0, CHR 0xBD, CHR 0xD1, CHR 0x81, CHR 0xD0, CHR 0xB8, CHR 0xD0,
      CHR 0xB9],
     [CHR 0xD1, CHR 0x81, CHR 0xD0, CHR 0xB5, CHR 0xD0, CHR 0xB9, CHR 0xD1, CHR 0x87,
      CHR 0xD0, CHR 0xB0, CHR 0xD1, CHR 0x81, CHR 0x20, CHR 0xD1, CHR 0x81, CHR 0xD0,
      CHR 0xBC, CHR 0xD0, CHR 0xBE, CHR 0xD1, CHR 0x82, CHR 0xD1, CHR 0x80, CHR 0xD1,
      CHR 0x8F, CHR 0xD1, CHR 0x82],
     [CHR 0xD0, CHR 0xB0, CHR 0xD0, CHR 0xBA, CHR 0xD1, CHR 0x82, CHR 0xD1, CHR 0x83,
      CHR 0xD0, CHR 0xB0, CHR 0xD0, CHR 0xBB, CHR 0xD1, CHR 0x8C, CHR 0xD0, CHR 0xBD,
      CHR 0xD1, CHR 0x8B, CHR 0xD0, CHR 0xB5, CHR 0x20, CHR 0xD0, CHR 0xB2, CHR 0xD0,
      CHR 0xB0, CHR 0xD0, CHR 0xBA, CHR 0xD0, CHR 0xB0, CHR 0xD0, CHR 0xBD, CHR 0xD1,
      CHR 0x81, CHR 0xD0, CHR 0xB8, CHR 0xD0, CHR 0xB8],
     [CHR 0xD0, CHR 0xB2, CHR 0xD1, CHR 0x81, CHR 0xD0, CHR 0xB5, CHR 0x20, CHR 0xD0,
      CHR 0xB2, CHR 0xD0, CHR 0xB0, CHR 0xD0, CHR 0xBA, CHR 0xD0, CHR 0xB0, CHR 0xD0,
      CHR 0xBD, CHR 0xD1, CHR 0x81, CHR 0xD0, CHR 0xB8, CHR 0xD0, CHR 0xB8],
     [CHR 0xD0, CHR 0xB2, CHR 0xD0, CHR 0xB0, CHR 0xD0, CHR 0xBA, CHR 0xD0, CHR 0xB0,
      CHR 0xD0, CHR 0xBD, CHR 0xD1, CHR 0x81, CHR 0xD0, CHR 0xB8, CHR 0xD0, CHR 0xB8,
      CHR 0x20, CHR 0xD0, CHR 0xBA, CHR 0xD0, CHR 0xBE, CHR 0xD0, CHR 0xBC, CHR 0xD0,
      CHR 0xBF, CHR 0xD0, CHR 0xB0, CHR 0xD0, CHR 0xBD, CHR 0xD0, CHR 0xB8, CHR 0xD0,
      CHR 0xB8]]"

definition company_bad :: "string list" where
  "company_bad =
    [[CHR 0xD1, CHR 0x80, CHR 0xD1, CHR 0x83, CHR 0xD0, CHR 0xB1],
     [CHR 0xE2, CHR 0x82, CHR 0xBD],
     ''kzt'',
     [CHR 0xD1, CHR 0x82, CHR 0xD0, CHR 0xB5, CHR 0xD0, CHR 0xBD, CHR 0xD0, CHR 0xB3,
      CHR 0xD0, CHR 0xB5],
     [CHR 0xE2, CHR 0x82, CHR 0xB8],
     [CHR 0xD1, CHR 0x81, CHR 0xD0, CHR 0xB5, CHR 0xD0, CHR 0xB3, CHR 0xD0, CHR 0xBE,
      CHR 0xD0, CHR 0xB4, CHR 0xD0, CHR 0xBD, CHR 0xD1, CHR 0x8F],
     [CHR 0xD0, CHR 0xB2, CHR 0xD1, CHR 0x87, CHR 0xD0, CHR 0xB5, CHR 0xD1, CHR 0x80,
      CHR 0xD0, CHR 0xB0],
     [CHR 0xD0, CHR 0xBE, CHR 0xD1, CHR 0x82, CHR 0xD0, CHR 0xBA, CHR 0xD0, CHR 0xBB,
      CHR 0xD0, CHR 0xB8, CHR 0xD0, CHR 0xBA],
     [CHR 0xD0, CHR 0xBF, CHR 0xD0, CHR 0xBE, CHR 0xD0, CHR 0xBA, CHR 0xD0, CHR 0xB0,
      CHR 0xD0, CHR 0xB7, CHR 0xD0, CHR 0xB0, CHR 0xD1, CHR 0x82, CHR 0xD1, CHR 0x8C],
     [CHR 0xD1, CHR 0x81, CHR 0xD0, CHR 0xBE, CHR 0xD1, CHR 0x80, CHR 0xD1, CHR 0x82,
      CHR 0xD0, CHR 0xB8, CHR 0xD1, CHR 0x80, CHR 0xD0, CHR 0xBE, CHR 0xD0, CHR 0xB2,
      CHR 0xD0, CHR 0xBA, CHR 0xD0, CHR 0xB0],
     [CHR 0xD0, CHR 0xB2, CHR 0xD0, CHR 0xB0, CHR 0xD0, CHR 0xBA, CHR 0xD0, CHR 0xB0,
      CHR 0xD0, CHR 0xBD, CHR 0xD1, CHR 0x81, CHR 0xD0, CHR 0xB8, CHR 0xD0, CHR 0xB8],
     [CHR 0xD0, CHR 0xB2, CHR 0xD0, CHR 0xB0, CHR 0xD0, CHR 0xBA, CHR 0xD0, CHR 0xB0,
      CHR 0xD0, CHR 0xBD, CHR 0xD1, CHR 0x81, CHR 0xD0, CHR 0xB8, CHR 0xD1, CHR 0x8F],
     [CHR 0xD0, CHR 0xBF, CHR 0xD0, CHR 0xBE, CHR 0xD1, CHR 0x85, CHR 0xD0, CHR 0xBE,
      CHR 0xD0, CHR 0xB6, CHR 0xD0, CHR 0xB8, CHR 0xD0, CHR 0xB5],
     [CHR 0xD1, CHR 0x80, CHR 0xD0, CHR 0xB5, CHR 0xD0, CHR 0xB7, CHR 0xD1, CHR 0x83,
      CHR 0xD0, CHR 0xBB, CHR 0xD1, CHR 0x8C, CHR 0xD1, CHR 0x82, CHR 0xD0, CHR 0xB0,
      CHR 0xD1, CHR 0x82, CHR 0xD1, CHR 0x8B],
     [CHR 0xD0, CHR 0xBD, CHR 0xD0, CHR 0xB0, CHR 0xD0, CHR 0xB9, CHR 0xD0, CHR 0xB4,
      CHR 0xD0, CHR 0xB5, CHR 0xD0, CHR 0xBD, CHR 0xD0, CHR 0xBE],
     [CHR 0xD1, CHR 0x83, CHR 0xD0, CHR 0xB4, CHR 0xD0, CHR 0xB0, CHR 0xD0, CHR 0xBB,
      CHR 0xD0, CHR 0xB5, CHR 0xD0, CHR 0xBD, CHR 0xD0, CHR 0xBD, CHR 0xD0, CHR 0xBE],
     [CHR 0xD1, CHR 0x83, CHR 0xD0, CHR 0xB4, CHR 0xD0, CHR 0xB0, CHR 0xD0, CHR 0xBB,
      CHR 0xD1, CHR 0x91, CHR 0xD0, CHR 0xBD, CHR 0xD0, CHR 0xBD, CHR 0xD0, CHR 0xBE],
     ''remote'',
     [CHR 0xD0, CHR 0xBE, CHR 0xD0, CHR 0xBF, CHR 0xD1, CHR 0x8B, CHR 0xD1, CHR 0x82],
     [CHR 0xD0, CHR 0xB3, CHR 0xD1, CHR 0x80, CHR 0xD0, CHR 0xB0, CHR 0xD1, CHR 0x84,
      CHR 0xD0, CHR 0xB8, CHR 0xD0, CHR 0xBA],
     [CHR 0xD0, CHR 0xB7, CHR 0xD0, CHR 0xB0, CHR 0xD0, CHR 0xBD, CHR 0xD1, CHR 0x8F,
      CHR 0xD1, CHR 0x82, CHR 0xD0, CHR 0xBE, CHR 0xD1, CHR 0x81, CHR 0xD1, CHR 0x82,
      CHR 0xD1, CHR 0x8C],
     [CHR 0xD1, CHR 0x84, CHR 0xD0, CHR 0xBE, CHR 0xD1, CHR 0x80, CHR 0xD0, CHR 0xBC,
      CHR 0xD0, CHR 0xB0, CHR 0xD1, CHR 0x82, CHR 0x20, CHR 0xD1, CHR 0x80, CHR 0xD0,
      CHR 0xB0, CHR 0xD0, CHR 0xB1, CHR 0xD0, CHR 0xBE, CHR 0xD1, CHR 0x82, CHR 0xD1,
      CHR 0x8B],
     [CHR 0xD1, CHR 0x83, CHR 0xD0, CHR 0xB4, CHR 0xD0, CHR 0xB0, CHR 0xD0, CHR 0xBB,
      CHR 0xD0, CHR 0xB5, CHR 0xD0, CHR 0xBD, CHR 0xD0, CHR 0xBD, CHR 0xD0, CHR 0xB0,
      CHR 0xD1, CHR 0x8F, CHR 0x20, CHR 0xD1, CHR 0x80, CHR 0xD0, CHR 0xB0, CHR 0xD0,
      CHR 0xB1, CHR 0xD0, CHR 0xBE, CHR 0xD1, CHR 0x82, CHR 0xD0, CHR 0xB0],
     [CHR 0xD1, CHR 0x83, CHR 0xD0, CHR 0xB4, CHR 0xD0, CHR 0xB0, CHR 0xD0, CHR 0xBB,
      CHR 0xD1, CHR 0x91, CHR 0xD0, CHR 0xBD, CHR 0xD0, CHR 0xBD, CHR 0xD0, CHR 0xB0,
      CHR 0xD1, CHR 0x8F, CHR 0x20, CHR 0xD1, CHR 0x80, CHR 0xD0, CHR 0xB0, CHR 0xD0,
      CHR 0xB1, CHR 0xD0, CHR 0xBE, CHR 0xD1, CHR 0x82, CHR 0xD0, CHR 0xB0],
     [CHR 0xD0, CHR 0xBF, CHR 0xD0, CHR 0xBE, CHR 0xD0, CHR 0xBB, CHR 0xD0, CHR 0xBD,
      CHR 0xD0, CHR 0xB0, CHR 0xD1, CHR 0x8F, CHR 0x20, CHR 0xD0, CHR 0xB7, CHR 0xD0,
      CHR 0xB0, CHR 0xD0, CHR 0xBD, CHR 0xD1, CHR 0x8F, CHR 0xD1, CHR 0x82, CHR 0xD0,
      CHR 0xBE, CHR 0xD1, CHR 0x81, CHR 0xD1, CHR 0x82, CHR 0xD1, CHR 0x8C],
     [CHR 0xD1, CHR 0x87, CHR 0xD0, CHR 0xB0, CHR 0xD1, CHR 0x81, CHR 0xD1, CHR 0x82,
      CHR 0xD0, CHR 0xB8, CHR 0xD1, CHR 0x87, CHR 0xD0, CHR 0xBD, CHR 0xD0, CHR 0xB0,
      CHR 0xD1, CHR 0x8F, CHR 0x20, CHR 0xD0, CHR 0xB7, CHR 0xD0, CHR 0xB0, CHR 0xD0,
      CHR 0xBD, CHR 0xD1, CHR 0x8F, CHR 0xD1, CHR 0x82, CHR 0xD0, CHR 0xBE, CHR 0xD1,
      CHR 0x81, CHR 0xD1, CHR 0x82, CHR 0xD1, CHR 0x8C],
     [CHR 0xD0, CHR 0xB2, CHR 0xD1, CHR 0x8B, CHR 0xD0, CHR 0xBF, CHR 0xD0, CHR 0xBB,
      CHR 0xD0, CHR 0xB0, CHR 0xD1, CHR 0x82, CHR 0xD1, CHR 0x8B],
     [CHR 0xD0, CHR 0xB7, CHR 0xD0, CHR 0xB0, CHR 0xD1, CHR 0x80, CHR 0xD0, CHR 0xBF,
      CHR 0xD0, CHR 0xBB, CHR 0xD0, CHR 0xB0, CHR 0xD1, CHR 0x82, CHR 0xD0, CHR 0xB0],
     [CHR 0xD0, CHR 0xB7, CHR 0x2F, CHR 0xD0, CHR 0xBF],
     [CHR 0xD0, CHR 0xBE, CHR 0xD0, CHR 0xBA, CHR 0xD0, CHR 0xBB, CHR 0xD0, CHR 0xB0,
      CHR 0xD0, CHR 0xB4],
     [CHR 0xD0, CHR 0xB4, CHR 0xD0, CHR 0xBE, CHR 0xD1, CHR 0x85, CHR 0xD0, CHR 0xBE,
      CHR 0xD0, CHR 0xB4],
     [CHR 0xD0, CHR 0xBD, CHR 0xD0, CHR 0xB0, CHR 0x20, CHR 0xD1, CHR 0x80, CHR 0xD1,
      CHR 0x83, CHR 0xD0, CHR 0xBA, CHR 0xD0, CHR 0xB8],
     ''gross'',
     ''net'',
     [CHR 0xD0, CHR 0xB2, CHR 0x20, CHR 0xD0, CHR 0xBC, CHR 0xD0, CHR 0xB5, CHR 0xD1,
      CHR 0x81, CHR 0xD1, CHR 0x8F, CHR 0xD1, CHR 0x86],
     [CHR 0xD0, CHR 0xB2, CHR 0x20, CHR 0xD0, CHR 0xBD, CHR 0xD0, CHR 0xB5, CHR 0xD0,
      CHR 0xB4, CHR 0xD0, CHR 0xB5, CHR 0xD0, CHR 0xBB, CHR 0xD1, CHR 0x8E],
     [CHR 0xD0, CHR 0xB2, CHR 0x20, CHR 0xD0, CHR 0xB4, CHR 0xD0, CHR 0xB5, CHR 0xD0,
      CHR 0xBD, CHR 0xD1, CHR 0x8C],
     [CHR 0xD0, CHR 0xB7, CHR 0xD0, CHR 0xB0, CHR 0x20, CHR 0xD1, CHR 0x81, CHR 0xD0,
      CHR 0xBC, CHR 0xD0, CHR 0xB5, CHR 0xD0, CHR 0xBD, CHR 0xD1, CHR 0x83],
     [CHR 0xD0, CHR 0xB7, CHR 0xD0, CHR 0xB0, CHR 0x20, CHR 0xD0, CHR 0xBF, CHR 0xD1,
      CHR 0x80, CHR 0xD0, CHR 0xBE, CHR 0xD0, CHR 0xB5, CHR 0xD0, CHR 0xBA, CHR 0xD1,
      CHR 0x82],
     [CHR 0xD0, CHR 0xB4, CHR 0xD0, CHR 0xB2, CHR 0xD0, CHR 0xB0, CHR 0x20, CHR 0xD1,
      CHR 0x80, CHR 0xD0, CHR 0xB0, CHR 0xD0, CHR 0xB7, CHR 0xD0, CHR 0xB0, CHR 0x20,
      CHR 0xD0, CHR 0xB2, CHR 0x20, CHR 0xD0, CHR 0xBC, CHR 0xD0, CHR 0xB5, CHR 0xD1,
      CHR 0x81, CHR 0xD1, CHR 0x8F, CHR 0xD1, CHR 0x86],
     [CHR 0xD0, CHR 0xB5, CHR 0xD0, CHR 0xB6, CHR 0xD0, CHR 0xB5, CHR 0xD0, CHR 0xBD,
      CHR 0xD0, CHR 0xB5, CHR 0xD0, CHR 0xB4, CHR 0xD0, CHR 0xB5, CHR 0xD0, CHR 0xBB,
      CHR 0xD1, CHR 0x8C, CHR 0xD0, CHR 0xBD, CHR 0xD0, CHR 0xBE],
     [CHR 0xD0, CHR 0xB5, CHR 0xD0, CHR 0xB6, CHR 0xD0, CHR 0xB5, CHR 0xD0, CHR 0xB4,
      CHR 0xD0, CHR 0xBD, CHR 0xD0, CHR 0xB5, CHR 0xD0, CHR 0xB2, CHR 0xD0, CHR 0xBD,
      CHR 0xD0, CHR 0xBE],
     [CHR 0xD0, CHR 0xB3, CHR 0xD1, CHR 0x80, CHR 0xD0, CHR 0xB0, CHR 0xD1, CHR 0x84,
      CHR 0xD0, CHR 0xB8, CHR 0xD0, CHR 0xBA],
     [CHR 0xD0, CHR 0xB7, CHR 0xD0, CHR 0xB0, CHR 0xD0, CHR 0xBD, CHR 0xD1, CHR 0x8F,
      CHR 0xD1, CHR 0x82, CHR 0xD0, CHR 0xBE, CHR 0xD1, CHR 0x81, CHR 0xD1, CHR 0x82,
      CHR 0xD1, CHR 0x8C],
     [CHR 0xD1, CHR 0x84, CHR 0xD0, CHR 0xBE, CHR 0xD1, CHR 0x80, CHR 0xD0, CHR 0xBC,
      CHR 0xD0, CHR 0xB0, CHR 0xD1, CHR 0x82],
     [CHR 0xD1, CHR 0x83, CHR 0xD0, CHR 0xB4, CHR 0xD0, CHR 0xBE, CHR 0xD0, CHR 0xB1,
      CHR 0xD0, CHR 0xBD, CHR 0xD1, CHR 0x8B, CHR 0xD0, CHR 0xB9, CHR 0x20, CHR 0xD0,
      CHR 0xB3, CHR 0xD1, CHR 0x80, CHR 0xD0, CHR 0xB0, CHR 0xD1, CHR 0x84, CHR 0xD0,
      CHR 0xB8, CHR 0xD0, CHR 0xBA],
     [CHR 0xD0, CHR 0xBF, CHR 0xD0, CHR 0xBE, CHR 0xD0, CHR 0xBB, CHR 0xD0, CHR 0xBD,
      CHR 0xD0, CHR 0xB0, CHR 0xD1, CHR 0x8F, CHR 0x20, CHR 0xD0, CHR 0xB7, CHR 0xD0,
      CHR 0xB0, CHR 0xD0, CHR 0xBD, CHR 0xD1, CHR 0x8F, CHR 0xD1, CHR 0x82, CHR 0xD0,
      CHR 0xBE, CHR 0xD1, CHR 0x81, CHR 0xD1, CHR 0x82, CHR 0xD1, CHR 0x8C],
     [CHR 0xD1, CHR 0x87, CHR 0xD0, CHR 0xB0, CHR 0xD1, CHR 0x81, CHR 0xD1, CHR 0x82,
      CHR 0xD0, CHR 0xB8, CHR 0xD1, CHR 0x87, CHR 0xD0, CHR 0xBD, CHR 0xD0, CHR 0xB0,
      CHR 0xD1, CHR 0x8F, CHR 0x20, CHR 0xD0, CHR 0xB7, CHR 0xD0, CHR 0xB0, CHR 0xD0,
      CHR 0xBD, CHR 0xD1, CHR 0x8F, CHR 0xD1, CHR 0x82, CHR 0xD0, CHR 0xBE, CHR 0xD1,
      CHR 0x81, CHR 0xD1, CHR 0x82, CHR 0xD1, CHR 0x8C],
     [CHR 0xD0, CHR 0xBF, CHR 0xD1, CHR 0x80, CHR 0xD0, CHR 0xBE, CHR 0xD0, CHR 0xB5,
      CHR 0xD0, CHR 0xBA, CHR 0xD1, CHR 0x82, CHR 0xD0, CHR 0xBD, CHR 0xD0, CHR 0xB0,
      CHR 0xD1, CHR 0x8F, CHR 0x20, CHR 0xD1, CHR 0x80, CHR 0xD0, CHR 0xB0, CHR 0xD0,
      CHR 0xB1, CHR 0xD0, CHR 0xBE, CHR 0xD1, CHR 0x82, CHR 0xD0, CHR 0xB0],
     [CHR 0xD1, CHR 0x81, CHR 0xD1, CHR 0x82, CHR 0xD0, CHR 0xB0, CHR 0xD0, CHR 0xB6,
      CHR 0xD0, CHR 0xB8, CHR 0xD1, CHR 0x80, CHR 0xD0, CHR 0xBE, CHR 0xD0, CHR 0xB2,
      CHR 0xD0, CHR 0xBA, CHR 0xD0, CHR 0xB0],
     [CHR 0xD0, CHR 0xB0, CHR 0xD0, CHR 0xB4, CHR 0xD1, CHR 0x80, CHR 0xD0, CHR 0xB5,
      CHR 0xD1, CHR 0x81],
     [CHR 0xD0, CHR 0xBC, CHR 0xD0, CHR 0xB5, CHR 0xD1, CHR 0x82, CHR 0xD1, CHR 0x80,
      CHR 0xD0, CHR 0xBE],
     [CHR 0xD0, CHR 0xB3, CHR 0xD0, CHR 0xBE, CHR 0xD1, CHR 0x80, CHR 0xD0, CHR 0xBE,
      CHR 0xD0, CHR 0xB4],
     [CHR 0xD0, CHR 0xBD, CHR 0xD0, CHR 0xB0, CHR 0x20, CHR 0xD0, CHR 0xBA, CHR 0xD0,
      CHR 0xB0, CHR 0xD1, CHR 0x80, CHR 0xD1, CHR 0x82, CHR 0xD0, CHR 0xB5],
     [CHR 0xD1, CHR 0x81, CHR 0xD0, CHR 0xBC, CHR 0xD0, CHR 0xB5, CHR 0xD0, CHR 0xBD,
      CHR 0xD0, CHR 0xBD, CHR 0xD1, CHR 0x8B, CHR 0xD0, CHR 0xB9],
     [CHR 0xD0, CHR 0xB2, CHR 0xD0, CHR 0xB0, CHR 0xD1, CHR 0x85, CHR 0xD1, CHR 0x82,
      CHR 0xD0, CHR 0xB0],
     [CHR 0xD0, CHR 0xBF, CHR 0xD0, CHR 0xBE, CHR 0xD0, CHR 0xB4, CHR 0xD1, CHR 0x80,
      CHR 0xD0, CHR 0xB0, CHR 0xD0, CHR 0xB1, CHR 0xD0, CHR 0xBE, CHR 0xD1, CHR 0x82,
      CHR 0xD0, CHR 0xBA, CHR 0xD0, CHR 0xB0]]"

definition contains_any :: "string \<Rightarrow> string list \<Rightarrow> bool" where
  "contains_any low ws = list_ex (\<lambda>b. Contains low b) ws"

definition isLikelyCompany :: "string \<Rightarrow> bool" where
  "isLikelyCompany s0 =
    (let s = normalizeSpaces s0 in
     if s = [] then False
     else let low = ToLower s in
       if contains_any low company_badTitle then False
       else if contains_any low company_bad then False
       else if RuneCount s > 60 then False
       else True)"

text \<open>In \<^verbatim>\<open>isLikelyTitle\<close>: \<^verbatim>\<open>badTitle\<close> (8 entries, the same list is written out again in
  \<^verbatim>\<open>ExtractListingsFromVisibleText\<close>), \<^verbatim>\<open>mustHaveRole\<close> (7 entries) and \<^verbatim>\<open>bad\<close>
  (8 entries).\<close>

definition title_badTitle :: "string list" where
  "title_badTitle =
    [[CHR 0xD0, CHR 0xBD, CHR 0xD0, CHR 0xB0, CHR 0xD0, CHR 0xB9, CHR 0xD0, CHR 0xB4,
      CHR 0xD0, CHR 0xB5, CHR 0xD0, CHR 0xBD, CHR 0xD0, CHR 0xBE],
     [CHR 0xD0, CHR 0xB2, CHR 0xD0, CHR 0xB0, CHR 0xD0, CHR 0xBA, CHR 0xD0, CHR 0xB0,
      CHR 0xD0, CHR 0xBD, CHR 0xD1, CHR 0x81, CHR 0xD0, CHR 0xB8, CHR 0xD0, CHR 0xB9],
     [CHR 0xD0, CHR 0xBF, CHR 0xD0, CHR 0xBE, CHR 0x20, CHR 0xD1, CHR 0x81, CHR 0xD0,
      CHR 0xBE, CHR 0xD0, CHR 0xBE, CHR 0xD1, CHR 0x82, CHR 0xD0, CHR 0xB2, CHR 0xD0,
      CHR 0xB5, CHR 0xD1, CHR 0x82, CHR 0xD1, CHR 0x81, CHR 0xD1, CHR 0x82, CHR 0xD0,
      CHR 0xB2, CHR 0xD0, CHR 0xB8, CHR 0xD1, CHR 0x8E],
     [CHR 0xD1, CHR 0x81, CHR 0xD0, CHR 0xBE, CHR 0xD1, CHR 0x85, CHR 0xD1, CHR 0x80,
      CHR 0xD0, CHR 0xB0, CHR 0xD0, CHR 0xBD, CHR 0xD0, CHR 0xB8, CHR 0xD1, CHR 0x82,
      CHR 0xD1, CHR 0x8C, CHR 0x20, CHR 0xD0, CHR 0xBF, CHR 0xD0, CHR 0xBE, CHR 0xD0,
      CHR 0xB8, CHR 0xD1, CHR 0x81, CHR 0xD0, CHR 0xBA],
     [CHR 0xD0, CHR 0xB2, CHR 0xD0, CHR 0xB0, CHR 0xD0, CHR 0xBA, CHR 0xD0, CHR 0xB0,
      CHR 0xD0, CHR 0xBD, CHR 0xD1, CHR 0x81, CHR 0xD0, CHR 0xB8, CHR 0xD0, CHR 0xB8,
      CHR 0x20, CHR 0xD0, CHR 0xBD, CHR 0xD0, CHR 0xB0, CHR 0x20, CHR 0xD0, CHR 0xBA,
      CHR 0xD0, CHR 0xB0, CHR 0xD1, CHR 0x80, CHR 0xD1, CHR 0x82, CHR 0xD0, CHR 0xB5],
     [CHR 0xD0, CHR 0xB8, CHR 0xD1, CHR 0x81, CHR 0xD0, CHR 0xBA, CHR 0xD0, CHR 0xBB,
      CHR 0xD1, CHR 0x8E, CHR 0xD1, CHR 0x87, CHR 0xD0, CHR 0xB8, CHR 0xD1, CHR 0x82,
      CHR 0xD1, CHR 0x8C, CHR 0x20, CHR 0xD1, CHR 0x81, CHR 0xD0, CHR 0xBB, CHR 0xD0,
      CHR 0xBE, CHR 0xD0, CHR 0xB2, CHR 0xD0, CHR 0xB0],
     [CHR 0xD1, CHR 0x83, CHR 0xD1, CHR 0x80, CHR 0xD0, CHR 0xBE, CHR 0xD0, CHR 0xB2,
      CHR 0xD0, CHR 0xB5, CHR 0xD0, CHR 0xBD, CHR 0xD1, CHR 0x8C, CHR 0x20, CHR 0xD0,
      CHR 0xB4, CHR 0xD0, CHR 0xBE, CHR 0xD1, CHR 0x85, CHR 0xD0, CHR 0xBE, CHR 0xD0,
      CHR 0xB4, CHR 0xD0, CHR 0xB0],
     [CHR 0xD0, CHR 0xBE, CHR 0xD0, CHR 0xBF, CHR 0xD1, CHR 0x8B, CHR 0xD1, CHR 0x82]]"

definition mustHaveRole :: "string list" where
  "mustHaveRole =
    [''engineer'',
     [CHR 0xD0, CHR 0xB8, CHR 0xD0, CHR 0xBD, CHR 0xD0, CHR 0xB6, CHR 0xD0, CHR 0xB5,
      CHR 0xD0, CHR 0xBD, CHR 0xD0, CHR 0xB5, CHR 0xD1, CHR 0x80],
     ''developer'',
     [CHR 0xD1, CHR 0x80, CHR 0xD0, CHR 0xB0, CHR 0xD0, CHR 0xB7, CHR 0xD1, CHR 0x80,
      CHR 0xD0, CHR 0xB0, CHR 0xD0, CHR 0xB1, CHR 0xD0, CHR 0xBE, CHR 0xD1, CHR 0x82,
      CHR 0xD1, CHR 0x87, CHR 0xD0, CHR 0xB8, CHR 0xD0, CHR 0xBA],
     ''scientist'',
     [CHR 0xD0, CHR 0xB0, CHR 0xD0, CHR 0xBD, CHR 0xD0, CHR 0xB0, CHR 0xD0, CHR 0xBB,
      CHR 0xD0, CHR 0xB8, CHR 0xD1, CHR 0x82, CHR 0xD0, CHR 0xB8, CHR 0xD0, CHR 0xBA],
     ''data engineer'']"

definition title_bad :: "string list" where
  "title_bad =
    [[CHR 0xD0, CHR 0xB2, CHR 0xD0, CHR 0xBE, CHR 0xD0, CHR 0xB9, CHR 0xD1, CHR 0x82,
      CHR 0xD0, CHR 0xB8],
     [CHR 0xD1, CHR 0x80, CHR 0xD0, CHR 0xB5, CHR 0xD0, CHR 0xB3, CHR 0xD0, CHR 0xB8,
      CHR 0xD1, CHR 0x81, CHR 0xD1, CHR 0x82, CHR 0xD1, CHR 0x80, CHR 0xD0, CHR 0xB0,
      CHR 0xD1, CHR 0x86, CHR 0xD0, CHR 0xB8, CHR 0xD1, CHR 0x8F],
     [CHR 0xD1, CHR 0x80, CHR 0xD0, CHR 0xB5, CHR 0xD0, CHR 0xB7, CHR 0xD1, CHR 0x8E,
      CHR 0xD0, CHR 0xBC, CHR 0xD0, CHR 0xB5],
     [CHR 0xD0, CHR 0xBE, CHR 0xD1, CHR 0x82, CHR 0xD0, CHR 0xBA, CHR 0xD0, CHR 0xBB,
      CHR 0xD0, CHR 0xB8, CHR 0xD0, CHR 0xBA],
     [CHR 0xD0, CHR 0xBF, CHR 0xD0, CHR 0xBE, CHR 0xD0, CHR 0xB4, CHR 0xD0, CHR 0xBF,
      CHR 0xD0, CHR 0xB8, CHR 0xD1, CHR 0x81, CHR 0xD0, CHR 0xB0, CHR 0xD1, CHR 0x82,
      CHR 0xD1, CHR 0x8C, CHR 0xD1, CHR 0x81, CHR 0xD1, CHR 0x8F],
     [CHR 0xD0, CHR 0xBF, CHR 0xD0, CHR 0xBE, CHR 0xD0, CHR 0xBA, CHR 0xD0, CHR 0xB0,
      CHR 0xD0, CHR 0xB7, CHR 0xD0, CHR 0xB0, CHR 0xD1, CHR 0x82, CHR 0xD1, CHR 0x8C],
     [CHR 0xD1, CHR 0x84, CHR 0xD0, CHR 0xB8, CHR 0xD0, CHR 0xBB, CHR 0xD1, CHR 0x8C,
      CHR 0xD1, CHR 0x82, CHR 0xD1, CHR 0x80],
     [CHR 0xD1, CHR 0x81, CHR 0xD0, CHR 0xBE, CHR 0xD1, CHR 0x80, CHR 0xD1, CHR 0x82,
      CHR 0xD0, CHR 0xB8, CHR 0xD1, CHR 0x80, CHR 0xD0, CHR 0xBE, CHR 0xD0, CHR 0xB2,
      CHR 0xD0, CHR 0xBA, CHR 0xD0, CHR 0xB0]]"

definition isLikelyTitle :: "string \<Rightarrow> bool" where
  "isLikelyTitle s0 =
    (let s = normalizeSpaces s0 in
     if s = [] then False
     else let low = ToLower s in
       if contains_any low title_badTitle then False
       else if \<not> (Contains low ''engineer'' \<or> Contains low
                 [CHR 0xD0, CHR 0xB8, CHR 0xD0, CHR 0xBD, CHR 0xD0, CHR 0xB6, CHR 0xD0, CHR 0xB5,
      CHR 0xD0, CHR 0xBD, CHR 0xD0, CHR 0xB5, CHR 0xD1, CHR 0x80]) then False
       else if \<not> contains_any low mustHaveRole then False
       else if contains_any low title_bad then False
       else (let n = RuneCount s in n \<ge> 4 \<and> n \<le> 90))"

text \<open>The panics of the Go runtime that the extractor can raise.\<close>

datatype panic = SliceBoundsOutOfRange | MakeSliceCapOutOfRange

text \<open>The cleaning loop: lines are normalised; empty lines and lines of more than 120
  runes are dropped.\<close>

fun clean_lines :: "string list \<Rightarrow> string list" where
  "clean_lines [] = []"
| "clean_lines (l0 # ls) =
    (let l = normalizeSpaces l0 in
     if l = [] then clean_lines ls
     else if RuneCount l > 120 then clean_lines ls
     else l # clean_lines ls)"

text \<open>The inner loop over \<open>j = i + 1, ..., i + 6\<close>: the first of the next six lines that
  looks like a company, the empty string if there is none.\<close>

fun find_company :: "string list \<Rightarrow> string" where
  "find_company [] = []"
| "find_company (l # ls) = (if isLikelyCompany l then l else find_company ls)"

text \<open>
  The main loop over \<open>i\<close>, on the lines from index \<open>i\<close> on: \<open>found\<close> and \<open>seen\<close> are the
  slice and the map of the source. The test \<open>len(found) >= want\<close> comes after the
  append, as in the source.
\<close>

fun collect :: "string list \<Rightarrow> int \<Rightarrow> Listing list \<Rightarrow> string set \<Rightarrow> Listing list" where
  "collect [] want found seen = found"
| "collect (title # rest) want found seen =
    (if contains_any (ToLower title) title_badTitle then collect rest want found seen
     else if \<not> isLikelyTitle title then collect rest want found seen
     else
       (let company = find_company (take 6 rest) in
        if company = [] then collect rest want found seen
        else
          (let key = ToLower title @ ''|'' @ ToLower company in
           if key \<in> seen then collect rest want found seen
           else
             (let found' = found @ [\<lparr>Title = title, Company = company\<rparr>] in
              if int (length found') \<ge> want then found'
              else collect rest want found' (insert key seen)))))"

text \<open>
  \<^verbatim>\<open>ExtractListingsFromVisibleText\<close>. The index of the marker is found in the lower-cased
  text and used to slice the original text: the slice expression panics when the index
  exceeds the length of the original. \<^verbatim>\<open>make([]Listing, 0, want)\<close> panics for a negative
  capacity.
\<close>

definition marker :: string where
  "marker = [CHR 0xD0, CHR 0xBD, CHR 0xD0, CHR 0xB0, CHR 0xD0, CHR 0xB9, CHR 0xD0, CHR 0xB4,
      CHR 0xD0, CHR 0xB5, CHR 0xD0, CHR 0xBD, CHR 0xD0, CHR 0xBE]"

definition ExtractListingsFromVisibleText :: "string \<Rightarrow> int \<Rightarrow> panic + Listing list" where
  "ExtractListingsFromVisibleText visible0 want =
    (let visible = ReplaceAll visible0 [CHR 0x0D, CHR 0x0A] [CHR 0x0A];
         lower = ToLower visible;
         idx = Index lower marker in
     if idx \<ge> 0 \<and> nat idx > length visible then Inl SliceBoundsOutOfRange
     else
       (let visible' = (if idx \<ge> 0 then drop (nat idx) visible else visible);
            lines = clean_lines (Split visible' (CHR 0x0A)) in
        if want < 0 then Inl MakeSliceCapOutOfRange
        else Inr (collect lines want [] {})))"

section \<open>JSON values and the records of the agent\<close>

text \<open>
  A JSON text that \<^verbatim>\<open>encoding/json\<close> accepts, as a tree. The members of an object are in
  the order of the text and a name may occur twice; a number is kept as its literal, no
  function here reads it. The decoder itself is the Go standard library's: the model
  starts from the tree.
\<close>

datatype json =
    JNull
  | JBool bool
  | JNum string
  | JStr string
  | JArr "json list"
  | JObj "(string \<times> json) list"

text \<open>A Go \<^verbatim>\<open>map[string]interface{}\<close>; where the source tells a nil map from an empty
  one the model has an option around it. Decoding an object into a map keeps the last
  member of each name.\<close>

type_synonym gomap = "string \<rightharpoonup> json"

definition to_map :: "(string \<times> json) list \<Rightarrow> gomap" where
  "to_map kvs = map_of (rev kvs)"

text \<open>The type assertions \<^verbatim>\<open>v, _ := m[k].(string)\<close> and \<^verbatim>\<open>v, ok := m[k].(string)\<close>; a
  nil map reads as an empty one.\<close>

definition str_field_ok :: "gomap option \<Rightarrow> string \<Rightarrow> string option" where
  "str_field_ok obs k =
    (case obs of
       None \<Rightarrow> None
     | Some m \<Rightarrow> (case m k of Some (JStr s) \<Rightarrow> Some s | _ \<Rightarrow> None))"

definition str_field :: "gomap option \<Rightarrow> string \<Rightarrow> string" where
  "str_field obs k = (case str_field_ok obs k of Some s \<Rightarrow> s | None \<Rightarrow> [])"

record JobItem =
  JobTitle :: string
  CompanyName :: string

text \<open>
  \<^verbatim>\<open>AgentAction\<close>. \<open>Arguments\<close> is \<open>None\<close> for a nil map. \<open>SummaryRaw\<close> is a
  \<^verbatim>\<open>json.RawMessage\<close>: \<open>None\<close> when it is empty (the member \<open>summary\<close> was absent), and the
  tree of the member's value otherwise (the bytes were validated when the action was
  decoded). \<open>Results\<close> is only read through \<^verbatim>\<open>len\<close> and \<^verbatim>\<open>range\<close>, so a nil slice is the
  empty list.
\<close>

record AgentAction =
  Action :: string
  Tool :: string
  Arguments :: "gomap option"
  Question :: string
  SummaryRaw :: "json option"
  Results :: "JobItem list"
  Summary :: string

record WorkerResp =
  Status :: string
  Message :: string
  Observation :: "gomap option"

subsection \<open>Printing integers\<close>

text \<open>\<^verbatim>\<open>fmt.Sprint\<close> and the verb \<^verbatim>\<open>%d\<close> on an integer: decimal digits, a minus sign in
  front of a negative number.\<close>

definition digit :: "nat \<Rightarrow> char" where
  "digit n = char_of (48 + n)"

fun digits :: "nat \<Rightarrow> string" where
  "digits n = (if n < 10 then [digit n] else digits (n div 10) @ [digit (n mod 10)])"

declare digits.simps [simp del]

definition Sprint :: "int \<Rightarrow> string" where
  "Sprint i = (if i < 0 then CHR ''-'' # digits (nat (- i)) else digits (nat i))"

subsection \<open>Decoding the completion payload\<close>

text \<open>
  \<^verbatim>\<open>json.Unmarshal\<close> of a value into a Go \<^verbatim>\<open>string\<close> that starts empty: a JSON string
  is stored, \<^verbatim>\<open>null\<close> has no effect and is no error, every other value is a type error.
\<close>

fun unmarshal_string :: "json \<Rightarrow> string option" where
  "unmarshal_string (JStr s) = Some s"
| "unmarshal_string JNull = Some []"
| "unmarshal_string _ = None"

text \<open>
  \<^verbatim>\<open>json.Unmarshal\<close> into \<^verbatim>\<open>[]JobItem\<close>. A member is matched to a field by its tag,
  ignoring the case of letters (the two tags have only ASCII letters, none with a
  non-ASCII case variant); members are stored in the order of the text, other members
  are skipped, \<^verbatim>\<open>null\<close> leaves a field or an element at its zero value. A value of
  another type makes \<^verbatim>\<open>Unmarshal\<close> return an error.
\<close>

definition ascii_lower :: "char \<Rightarrow> char" where
  "ascii_lower c = (if 0x41 \<le> byte c \<and> byte c \<le> 0x5A then char_of (byte c + 32) else c)"

definition tag_matches :: "string \<Rightarrow> string \<Rightarrow> bool" where
  "tag_matches k tag = (map ascii_lower k = tag)"

fun decode_members :: "(string \<times> json) list \<Rightarrow> JobItem \<Rightarrow> JobItem option" where
  "decode_members [] it = Some it"
| "decode_members ((k, v) # kvs) it =
    (if tag_matches k ''job_title'' then
       (case v of
          JStr s \<Rightarrow> decode_members kvs (it\<lparr>JobTitle := s\<rparr>)
        | JNull \<Rightarrow> decode_members kvs it
        | _ \<Rightarrow> None)
     else if tag_matches k ''company_name'' then
       (case v of
          JStr s \<Rightarrow> decode_members kvs (it\<lparr>CompanyName := s\<rparr>)
        | JNull \<Rightarrow> decode_members kvs it
        | _ \<Rightarrow> None)
     else decode_members kvs it)"

fun decode_JobItem :: "json \<Rightarrow> JobItem option" where
  "decode_JobItem (JObj kvs) = decode_members kvs \<lparr>JobTitle = [], CompanyName = []\<rparr>"
| "decode_JobItem JNull = Some \<lparr>JobTitle = [], CompanyName = []\<rparr>"
| "decode_JobItem _ = None"

fun unmarshal_JobItems :: "json \<Rightarrow> JobItem list option" where
  "unmarshal_JobItems (JArr xs) = those (map decode_JobItem xs)"
| "unmarshal_JobItems JNull = Some []"
| "unmarshal_JobItems _ = None"

section \<open>The decision normalizer\<close>

definition toolNames :: "string list" where
  "toolNames = [''navigate'', ''click'', ''type'', ''scroll'', ''wait'', ''observe'', ''press_enter'']"

definition root_fields :: "string list" where
  "root_fields = [''action'', ''tool'', ''arguments'', ''args'', ''question'', ''summary'']"

text \<open>
  \<^verbatim>\<open>normalizeAction(a, raw)\<close>, in its three blocks: case 1 (lines 486 to 491), the
  recovery of the tool name (lines 497 to 506) and the merge of the arguments (lines 508
  to 524). The second argument is what \<^verbatim>\<open>json.Unmarshal([]byte(raw), &m)\<close> gives for the
  map \<open>m\<close>: \<open>None\<close> when it returns an error. The two loops over Go maps assign distinct
  keys, so their order is immaterial: the first overwrites with the members of \<open>args\<close>,
  the second adds a root member only under a key that is not yet present.
\<close>

definition implicit_tool :: "AgentAction \<Rightarrow> AgentAction" where
  "implicit_tool a =
    (if Action a \<in> set toolNames
     then (if Tool a = [] then a\<lparr>Tool := Action a\<rparr> else a)\<lparr>Action := ''tool''\<rparr>
     else a)"

definition recover_tool :: "AgentAction \<Rightarrow> gomap \<Rightarrow> AgentAction" where
  "recover_tool a m =
    (let a1 = (case m ''tool'' of Some (JStr t) \<Rightarrow> a\<lparr>Tool := t\<rparr> | _ \<Rightarrow> a) in
     if Tool a1 = [] then
       (case m ''action'' of
          Some (JStr t) \<Rightarrow> if t \<in> set toolNames then a1\<lparr>Tool := t\<rparr> else a1
        | _ \<Rightarrow> a1)
     else a1)"

definition merge_arguments :: "AgentAction \<Rightarrow> gomap \<Rightarrow> gomap" where
  "merge_arguments a m =
    (let args0 = (case Arguments a of None \<Rightarrow> Map.empty | Some x \<Rightarrow> x);
         args1 = (case m ''args'' of
                    Some (JObj kvs) \<Rightarrow> args0 ++ to_map kvs
                  | _ \<Rightarrow> args0)
     in (\<lambda>k. case args1 k of
                Some v \<Rightarrow> Some v
              | None \<Rightarrow> if k \<in> set root_fields then None else m k))"

definition normalizeAction :: "AgentAction \<Rightarrow> gomap option \<Rightarrow> AgentAction" where
  "normalizeAction a0 parsed =
    (let a1 = implicit_tool a0 in
     if Action a1 = ''tool'' \<and> Tool a1 = [] then
       (case parsed of
          None \<Rightarrow> a1
        | Some m \<Rightarrow>
            (let a2 = recover_tool a1 m in a2\<lparr>Arguments := Some (merge_arguments a2 m)\<rparr>))
     else a1)"

text \<open>\<^verbatim>\<open>finalizeActionFields\<close>.\<close>

definition finalizeActionFields :: "AgentAction \<Rightarrow> AgentAction" where
  "finalizeActionFields a =
    (case SummaryRaw a of
       None \<Rightarrow> a
     | Some raw \<Rightarrow>
         (case unmarshal_string raw of
            Some s \<Rightarrow> a\<lparr>Summary := s\<rparr>
          | None \<Rightarrow>
              (case unmarshal_JobItems raw of
                 Some arr \<Rightarrow>
                   (if length (Results a) = 0 then a\<lparr>Results := arr\<rparr> else a)
                     \<lparr>Summary := ''Found '' @ Sprint (int (length arr)) @ '' jobs.''\<rparr>
               | None \<Rightarrow> a\<lparr>Summary := ''Done.''\<rparr>)))"

text \<open>\<^verbatim>\<open>strings.LastIndex\<close>, and the trimming of the raw text to its outermost braces,
  lines 600 to 608 of \<^verbatim>\<open>decideNextAction\<close>.\<close>

definition LastIndex :: "string \<Rightarrow> string \<Rightarrow> int" where
  "LastIndex s sub =
    (let r = Index (rev s) (rev sub) in
     if r < 0 then - 1 else int (length s) - r - int (length sub))"

definition trim_to_braces :: "string \<Rightarrow> string" where
  "trim_to_braces raw0 =
    (let raw = TrimSpace raw0 in
     if \<not> HasPrefix raw ''{'' then
       (let i = Index raw ''{'' in
        if i \<ge> 0 then
          (let j = LastIndex raw ''}'' in
           if j > i then take (nat (j + 1) - nat i) (drop (nat i) raw) else raw)
        else raw)
     else raw)"

text \<open>
  \<^verbatim>\<open>decideNextAction\<close>, from the reply of the decision service on: the call failed with
  an error message, or it returned a text that, trimmed as above, \<^verbatim>\<open>json.Unmarshal\<close>
  rejects (the trimmed text and the decoder's message), or a text that decodes to an
  action. \<open>Summary\<close> has the tag \<^verbatim>\<open>json:"-"\<close>: the decoder leaves it empty.
\<close>

datatype llm_reply =
    CallFailed string
  | Unparsable string string
  | Parsed AgentAction "gomap option"

fun decideNextAction :: "llm_reply \<Rightarrow> string + AgentAction" where
  "decideNextAction (CallFailed e) = Inl e"
| "decideNextAction (Unparsable raw e) =
     Inl (''failed to parse LLM JSON: '' @ e @ [CHR 0x0A] @ ''raw='' @ raw)"
| "decideNextAction (Parsed a m) =
     Inr (finalizeActionFields (normalizeAction (a\<lparr>Summary := []\<rparr>) m))"

section \<open>The worker bridge\<close>

text \<open>
  What the outside world does is an input of the model, and what the agent does to it
  is a trace of events. A line read from the worker's standard output either fails to
  arrive, or is a text that \<^verbatim>\<open>json.Unmarshal\<close> rejects for a \<^verbatim>\<open>WorkerResp\<close> (the line
  and the decoder's message), or decodes to a response.
\<close>

datatype line_read =
    ReadFailed string
  | Malformed string string
  | Reply WorkerResp

text \<open>The errors, if any, of \<^verbatim>\<open>cmd.StdinPipe\<close>, \<^verbatim>\<open>cmd.StdoutPipe\<close> and \<^verbatim>\<open>cmd.Start\<close>, and
  the first line of the worker.\<close>

record startup =
  stdin_pipe :: "string option"
  stdout_pipe :: "string option"
  start :: "string option"
  hello :: line_read

text \<open>One call of \<^verbatim>\<open>Send\<close> as the worker's side sees it: the write fails, or a line
  is read back.\<close>

datatype send_io =
    WriteFailed string
  | Answered line_read

text \<open>
  The events. \<open>Spawned\<close>: \<^verbatim>\<open>cmd.Start\<close> has returned without error, the worker process
  runs. \<open>Command a args\<close>: a call \<^verbatim>\<open>worker.Send(a, args)\<close>. \<open>Killed\<close>: a call
  \<^verbatim>\<open>cmd.Process.Kill()\<close>. \<open>Sleep d\<close>: a call \<^verbatim>\<open>time.Sleep(d)\<close>, the duration in
  nanoseconds, Go's \<^verbatim>\<open>int64\<close>. \<open>ReadAnswer\<close>: the read of the operator's line. Every other
  constructor is one of the messages that \<^verbatim>\<open>main.go\<close> prints, with the values it
  formats.
\<close>

datatype event =
    Spawned
  | PrintWorkerStarted
  | Command string gomap
  | Killed
  | PrintPrompt
  | PrintStep int
  | PrintRateLimit "64 word"
  | Sleep "64 word"
  | PrintLLMError string
  | PrintAction AgentAction
  | PrintRepeated
  | PrintDone string
  | PrintResult int string string
  | PrintQuestion string
  | ReadAnswer
  | PrintNoTool
  | PrintSendError string
  | PrintWorkerError string
  | PrintFoundListings
  | PrintListing int string string
  | PrintCollected
  | PrintSwitchToMoscow
  | PrintUnknown string
  | PrintStopped

text \<open>
  \<^verbatim>\<open>StartPyWorker\<close>: the error or the started worker, and the events. The function has
  three returns after \<^verbatim>\<open>cmd.Start\<close> has succeeded; none of them touches the process.
\<close>

definition StartPyWorker :: "startup \<Rightarrow> (string + unit) \<times> event list" where
  "StartPyWorker io =
    (case stdin_pipe io of
       Some e \<Rightarrow> (Inl e, [])
     | None \<Rightarrow>
    (case stdout_pipe io of
       Some e \<Rightarrow> (Inl e, [])
     | None \<Rightarrow>
    (case start io of
       Some e \<Rightarrow> (Inl e, [])
     | None \<Rightarrow>
    (case hello io of
       ReadFailed e \<Rightarrow> (Inl e, [Spawned])
     | Malformed line e \<Rightarrow>
         (Inl (''failed to parse worker hello: '' @ e @ '', line='' @ TrimSpace line),
          [Spawned])
     | Reply r \<Rightarrow>
         if Status r \<noteq> ''ok''
         then (Inl (''worker did not start: '' @ Message r), [Spawned])
         else (Inr (), [Spawned, PrintWorkerStarted])))))"

text \<open>\<^verbatim>\<open>PyWorker.Send\<close>: the result of the call. The caller records the event
  \<^const>\<open>Command\<close>.\<close>

fun Send :: "string \<Rightarrow> gomap \<Rightarrow> send_io \<Rightarrow> string + WorkerResp" where
  "Send action args (WriteFailed e) = Inl e"
| "Send action args (Answered (ReadFailed e)) = Inl e"
| "Send action args (Answered (Malformed line e)) =
     Inl (''failed to parse worker response: '' @ e @ '', line='' @ TrimSpace line)"
| "Send action args (Answered (Reply r)) = Inr r"

text \<open>\<^verbatim>\<open>PyWorker.Stop\<close>: the command \<open>exit\<close>, whose result is dropped, then the kill.\<close>

definition Stop :: "event list" where
  "Stop = [Command ''exit'' Map.empty, Killed]"

section \<open>The control loop\<close>

definition isSearchResultsReady :: "gomap option \<Rightarrow> bool" where
  "isSearchResultsReady observation =
    (let uLow = ToLower (str_field observation ''url'') in
     if \<not> Contains uLow ''/search/vacancy'' then False
     else if \<not> Contains uLow ''text='' then False
     else if Contains uLow ''text=ai'' \<or> Contains uLow ''text=ai%20engineer''
             \<or> Contains uLow ''ai%20engineer'' then True
     else False)"

text \<open>\<^verbatim>\<open>obsSignature\<close>: \<^verbatim>\<open>len\<close> and the slice \<^verbatim>\<open>head[:300]\<close> count bytes.\<close>

definition obsSignature :: "gomap option \<Rightarrow> string" where
  "obsSignature obs =
    (let u = str_field obs ''url'';
         t = str_field obs ''title'';
         vt = str_field obs ''visible_text'';
         head = (if length vt > 300 then take 300 vt else vt)
     in u @ ''|'' @ t @ ''|'' @ head)"

definition MaxSteps :: int where
  "MaxSteps = 15"

definition Second :: "64 word" where
  "Second = 1000000000"

definition Millisecond :: "64 word" where
  "Millisecond = 1000000"

text \<open>The variables of \<^verbatim>\<open>main\<close> that live across iterations; \<open>step\<close> is passed
  separately.\<close>

record loop_state =
  task :: string
  observation :: "gomap option"
  lastAction :: string
  sameActionCount :: int
  lastObsSig :: string
  stagnantCount :: int
  searchSubmitted :: bool
  printedListings :: bool
  switchedToMoscow :: bool

definition init :: "string \<Rightarrow> loop_state" where
  "init t =
    \<lparr>task = t, observation = None, lastAction = [], sameActionCount = 0, lastObsSig = [],
     stagnantCount = 0, searchSubmitted = False, printedListings = False,
     switchedToMoscow = False\<rparr>"

text \<open>
  What one iteration reads from outside: the reply of the decision service, the clock
  (\<^verbatim>\<open>time.Now().UnixNano()\<close>, read only for a scroll), the operator's line (read only on
  \<open>ask_user\<close>) and the worker's side of the tool call. The results of the corrective
  scroll and of the fallback navigation are dropped by the source and are no input.
\<close>

record step_input =
  reply :: llm_reply
  now :: int
  answer :: string
  tool_io :: send_io

text \<open>How an iteration ends: \<open>Next\<close> for the end of the body or \<^verbatim>\<open>continue\<close>, \<open>Retry\<close>
  for \<^verbatim>\<open>step--; continue\<close>, \<open>Break\<close>, \<open>Return\<close> for the return from \<^verbatim>\<open>main\<close>, \<open>Panic\<close>
  for a runtime panic.\<close>

datatype ctl = Next | Retry | Break | Return | Panic panic

text \<open>The test for a rate limit and the wait, lines 653 to 668. The parameter \<open>pf\<close> is
  \<^verbatim>\<open>strconv.ParseFloat(numStr, 64)\<close> followed by the conversion \<^verbatim>\<open>int(f)\<close>: \<open>None\<close> when
  \<^verbatim>\<open>ParseFloat\<close> returns an error. The arithmetic on the duration is Go's, on 64 bits.\<close>

definition rate_limited :: "string \<Rightarrow> bool" where
  "rate_limited msg =
    (Contains msg ''RESOURCE_EXHAUSTED'' \<or> Contains msg ''Quota exceeded''
     \<or> Contains msg ''Please retry in'')"

definition retry_wait :: "(string \<Rightarrow> 64 word option) \<Rightarrow> string \<Rightarrow> 64 word" where
  "retry_wait pf msg =
    (let idx = Index msg ''Please retry in '' in
     if idx \<ge> 0 then
       (let tail = drop (nat idx + length ''Please retry in '') msg;
            sIdx = Index tail ''s'' in
        if sIdx > 0 then
          (case pf (TrimSpace (take (nat sIdx) tail)) of
             Some f \<Rightarrow> (f + 2) * Second
           | None \<Rightarrow> 60 * Second)
        else 60 * Second)
     else 60 * Second)"

text \<open>The repeat guard, lines 684 to 698.\<close>

definition action_key :: "AgentAction \<Rightarrow> int \<Rightarrow> string" where
  "action_key action t =
    (if Action action = ''tool'' then
       (let cur = Action action @ '':'' @ Tool action in
        if Tool action = ''scroll'' then cur @ '':'' @ Sprint t else cur)
     else Action action)"

definition repeat_guard :: "AgentAction \<Rightarrow> int \<Rightarrow> loop_state \<Rightarrow> loop_state" where
  "repeat_guard action t s =
    (let cur = action_key action t in
     s\<lparr>sameActionCount := (if cur = lastAction s then sameActionCount s + 1 else 0),
       lastAction := cur\<rparr>)"

text \<open>The stagnation guard, lines 741 to 750: the observation is replaced and its
  signature compared with the last one.\<close>

definition stagnation :: "gomap option \<Rightarrow> loop_state \<Rightarrow> loop_state" where
  "stagnation obs s =
    (let sig = obsSignature obs in
     s\<lparr>observation := obs,
       stagnantCount := (if sig = lastObsSig s then stagnantCount s + 1 else 0),
       lastObsSig := sig\<rparr>)"

definition scroll_down :: gomap where
  "scroll_down = [''direction'' \<mapsto> JStr ''down'']"

text \<open>Lines 760 to 770.\<close>

definition mark_search :: "loop_state \<Rightarrow> loop_state" where
  "mark_search s =
    (let s1 = (if isSearchResultsReady (observation s) then s\<lparr>searchSubmitted := True\<rparr> else s)
     in case str_field_ok (observation s1) ''url'' of
          Some u \<Rightarrow>
            if Contains u ''text='' \<and> Contains (ToLower u) ''ai''
            then s1\<lparr>searchSubmitted := True\<rparr> else s1
        | None \<Rightarrow> s1)"

fun listing_lines :: "int \<Rightarrow> Listing list \<Rightarrow> event list" where
  "listing_lines idx [] = []"
| "listing_lines idx (it # its) =
     PrintListing (idx + 1) (Title it) (Company it) # listing_lines (idx + 1) its"

text \<open>Lines 772 to 789: the extractor runs once the search is submitted and nothing
  was printed yet. The flag tells whether \<^verbatim>\<open>main\<close> returns here.\<close>

definition autocollect :: "loop_state \<Rightarrow> panic + (bool \<times> loop_state \<times> event list)" where
  "autocollect s =
    (if searchSubmitted s \<and> \<not> printedListings s then
       (case str_field_ok (observation s) ''visible_text'' of
          Some vt \<Rightarrow>
            if vt \<noteq> [] then
              (case ExtractListingsFromVisibleText vt 3 of
                 Inl p \<Rightarrow> Inl p
               | Inr listings \<Rightarrow>
                   if length listings > 0 then
                     (let s1 = s\<lparr>printedListings := True\<rparr>;
                          ev = PrintFoundListings # listing_lines 0 listings in
                      if length listings \<ge> 3 then Inr (True, s1, ev @ [PrintCollected])
                      else Inr (False, s1, ev))
                   else Inr (False, s, []))
            else Inr (False, s, [])
        | None \<Rightarrow> Inr (False, s, []))
     else Inr (False, s, []))"

text \<open>Lines 792 to 804.\<close>

definition moscow :: gomap where
  "moscow = [''url'' \<mapsto> JStr ''https://hh.ru/search/vacancy?text=AI%20Engineer&area=1'']"

definition fallback :: "loop_state \<Rightarrow> loop_state \<times> event list" where
  "fallback s =
    (case str_field_ok (observation s) ''visible_text'' of
       Some vt \<Rightarrow>
         (let low = ToLower vt in
          if \<not> switchedToMoscow s \<and>
             (Contains low [CHR 0xD0, CHR 0xBD, CHR 0xD0, CHR 0xB8, CHR 0xD1, CHR 0x87, CHR 0xD0, CHR 0xB5,
      CHR 0xD0, CHR 0xB3, CHR 0xD0, CHR 0xBE, CHR 0x20, CHR 0xD0, CHR 0xBD, CHR 0xD0,
      CHR 0xB5, CHR 0x20, CHR 0xD0, CHR 0xBD, CHR 0xD0, CHR 0xB0, CHR 0xD0, CHR 0xB9,
      CHR 0xD0, CHR 0xB4, CHR 0xD0, CHR 0xB5, CHR 0xD0, CHR 0xBD, CHR 0xD0, CHR 0xBE]
              \<or> Contains low [CHR 0xD0, CHR 0xBD, CHR 0xD0, CHR 0xB5, CHR 0x20, CHR 0xD0, CHR 0xBD, CHR 0xD0,
      CHR 0xB0, CHR 0xD0, CHR 0xB9, CHR 0xD0, CHR 0xB4, CHR 0xD0, CHR 0xB5, CHR 0xD0,
      CHR 0xBD, CHR 0xD0, CHR 0xBE])
          then (s\<lparr>switchedToMoscow := True\<rparr>, [PrintSwitchToMoscow, Command ''navigate'' moscow])
          else (s, []))
     | None \<Rightarrow> (s, []))"

definition post_process :: "loop_state \<Rightarrow> ctl \<times> loop_state \<times> event list" where
  "post_process s =
    (case autocollect (mark_search s) of
       Inl p \<Rightarrow> (Panic p, mark_search s, [])
     | Inr (returned, s1, ev1) \<Rightarrow>
         if returned then (Return, s1, ev1)
         else (case fallback s1 of (s2, ev2) \<Rightarrow> (Next, s2, ev1 @ ev2 @ [Sleep (3 * Second)])))"

text \<open>The case \<open>tool\<close> of the switch, lines 723 to 805.\<close>

definition tool_step :: "step_input \<Rightarrow> AgentAction \<Rightarrow> loop_state \<Rightarrow> ctl \<times> loop_state \<times> event list" where
  "tool_step i action s =
    (if Tool action = [] then (Next, s, [PrintNoTool])
     else
       (let args = (case Arguments action of None \<Rightarrow> Map.empty | Some m \<Rightarrow> m);
            sent = Command (Tool action) args in
        case Send (Tool action) args (tool_io i) of
          Inl e \<Rightarrow> (Next, s, [sent, PrintSendError e])
        | Inr resp \<Rightarrow>
            if Status resp = ''error'' then (Next, s, [sent, PrintWorkerError (Message resp)])
            else
              (let s1 = stagnation (Observation resp) s in
               if stagnantCount s1 \<ge> 2
               then (Next, s1, [sent, Command ''scroll'' scroll_down, Sleep (800 * Millisecond)])
               else (case post_process s1 of (c, s2, ev) \<Rightarrow> (c, s2, sent # ev)))))"

fun result_lines :: "int \<Rightarrow> JobItem list \<Rightarrow> event list" where
  "result_lines idx [] = []"
| "result_lines idx (it # its) =
     PrintResult (idx + 1) (JobTitle it) (CompanyName it) # result_lines (idx + 1) its"

text \<open>The switch on the action, lines 705 to 809.\<close>

definition dispatch :: "step_input \<Rightarrow> AgentAction \<Rightarrow> loop_state \<Rightarrow> ctl \<times> loop_state \<times> event list" where
  "dispatch i action s =
    (if Action action = ''finish'' then
       (Return, s, PrintDone (Summary action) # result_lines 0 (Results action))
     else if Action action = ''ask_user'' then
       (Next, s\<lparr>task := task s @ [CHR 0x0A] @ ''User answer: '' @ answer i\<rparr>,
        [PrintQuestion (Question action), ReadAnswer])
     else if Action action = ''tool'' then tool_step i action s
     else (Next, s, [PrintUnknown (Action action)]))"

text \<open>The body of the loop, lines 646 to 810.\<close>

definition loop_body ::
  "(string \<Rightarrow> 64 word option) \<Rightarrow> step_input \<Rightarrow> int \<Rightarrow> loop_state \<Rightarrow> ctl \<times> loop_state \<times> event list" where
  "loop_body pf i step s =
    (case decideNextAction (reply i) of
       Inl msg \<Rightarrow>
         if rate_limited msg then
           (let wait = retry_wait pf msg in
            (Retry, s, [PrintStep step, PrintRateLimit wait, Sleep wait]))
         else (Break, s, [PrintStep step, PrintLLMError msg])
     | Inr action \<Rightarrow>
         (let s1 = repeat_guard action (now i) s in
          if sameActionCount s1 \<ge> 2
          then (Break, s1, [PrintStep step, PrintAction action, PrintRepeated])
          else (case dispatch i action s1 of
                  (c, s2, ev) \<Rightarrow> (c, s2, PrintStep step # PrintAction action # ev))))"

text \<open>
  The loop \<^verbatim>\<open>for step := 1; step <= MaxSteps; step++\<close>, fed with the inputs of its
  iterations; each iteration uses one. A run that has used all the inputs it was given
  without reaching an end is \<open>Unfinished\<close>: the loop has no bound of its own on the
  number of retries.
\<close>

datatype outcome = Done | Halted | Crashed panic | Unfinished

fun run ::
  "(string \<Rightarrow> 64 word option) \<Rightarrow> step_input list \<Rightarrow> int \<Rightarrow> loop_state
     \<Rightarrow> outcome \<times> loop_state \<times> event list" where
  "run pf [] step s =
    (if step \<le> MaxSteps then (Unfinished, s, []) else (Halted, s, [PrintStopped]))"
| "run pf (i # rest) step s =
    (if step \<le> MaxSteps then
       (case loop_body pf i step s of
          (Next, s1, ev) \<Rightarrow>
            (case run pf rest (step + 1) s1 of (out, s2, evs) \<Rightarrow> (out, s2, ev @ evs))
        | (Retry, s1, ev) \<Rightarrow>
            (case run pf rest (step - 1 + 1) s1 of (out, s2, evs) \<Rightarrow> (out, s2, ev @ evs))
        | (Break, s1, ev) \<Rightarrow> (Halted, s1, ev @ [PrintStopped])
        | (Return, s1, ev) \<Rightarrow> (Done, s1, ev)
        | (Panic p, s1, ev) \<Rightarrow> (Crashed p, s1, ev))
     else (Halted, s, [PrintStopped]))"

text \<open>
  \<^verbatim>\<open>main\<close>: a failed start panics before \<^verbatim>\<open>defer worker.Stop()\<close> is reached; after a
  successful start the deferred \<^verbatim>\<open>Stop\<close> runs however the loop ends.
\<close>

datatype exit = Exited outcome | StartupPanic string

definition main ::
  "(string \<Rightarrow> 64 word option) \<Rightarrow> startup \<Rightarrow> string \<Rightarrow> step_input list \<Rightarrow> exit \<times> event list" where
  "main pf io line ins =
    (case StartPyWorker io of
       (Inl e, ev) \<Rightarrow> (StartupPanic e, ev)
     | (Inr w, ev) \<Rightarrow>
         (case run pf ins 1 (init line) of
            (out, s, evs) \<Rightarrow>
              (Exited out, ev @ [PrintPrompt] @ evs @ (if out = Unfinished then [] else Stop))))"

section \<open>Notions of the statements\<close>

text \<open>An element of a summary array is record-shaped when it decodes into a
  \<^verbatim>\<open>JobItem\<close>.\<close>

definition record_shaped :: "json \<Rightarrow> bool" where
  "record_shaped x = (decode_JobItem x \<noteq> None)"

text \<open>The composite key under which the extractor remembers a record.\<close>

definition listing_key :: "Listing \<Rightarrow> string" where
  "listing_key l = ToLower (Title l) @ ''|'' @ ToLower (Company l)"

text \<open>The iteration at state \<open>s\<close> dispatches a tool call (the action is a tool call with
  a tool name and the repeat guard lets it through), and the call succeeds with the
  response \<open>r\<close>.\<close>

definition tool_call_succeeds :: "step_input \<Rightarrow> loop_state \<Rightarrow> AgentAction \<Rightarrow> WorkerResp \<Rightarrow> bool" where
  "tool_call_succeeds i s a r \<longleftrightarrow>
     decideNextAction (reply i) = Inr a \<and> Action a = ''tool'' \<and> Tool a \<noteq> []
     \<and> sameActionCount (repeat_guard a (now i) s) < 2
     \<and> Send (Tool a) (case Arguments a of None \<Rightarrow> Map.empty | Some m \<Rightarrow> m) (tool_io i) = Inr r
     \<and> Status r \<noteq> ''error''"

text \<open>The names of the commands of a trace, and its pauses, in order.\<close>

fun command_names :: "event list \<Rightarrow> string list" where
  "command_names [] = []"
| "command_names (Command c args # es) = c # command_names es"
| "command_names (e # es) = command_names es"

fun pauses :: "event list \<Rightarrow> 64 word list" where
  "pauses [] = []"
| "pauses (Sleep d # es) = d # pauses es"
| "pauses (e # es) = pauses es"

section \<open>Inputs of the examples\<close>

subsection \<open>Texts\<close>

text \<open>
  The text of the example of the specification: a first line with the results marker
  (capitalised, U+041D first) and the number 5, then \<open>AI Engineer\<close>, \<open>Acme Inc\<close>, a line of
  two Russian words that is no title, \<open>Data Engineer\<close>, \<open>Beta LLC\<close>, separated by line
  feeds.
\<close>

definition spec_text :: string where
  "spec_text =
    [CHR 0xD0, CHR 0x9D, CHR 0xD0, CHR 0xB0, CHR 0xD0, CHR 0xB9, CHR 0xD0, CHR 0xB4,
      CHR 0xD0, CHR 0xB5, CHR 0xD0, CHR 0xBD, CHR 0xD0, CHR 0xBE, CHR 0x20, CHR 0x35,
      CHR 0x0A, CHR 0x41, CHR 0x49, CHR 0x20, CHR 0x45, CHR 0x6E, CHR 0x67, CHR 0x69,
      CHR 0x6E, CHR 0x65, CHR 0x65, CHR 0x72, CHR 0x0A, CHR 0x41, CHR 0x63, CHR 0x6D,
      CHR 0x65, CHR 0x20, CHR 0x49, CHR 0x6E, CHR 0x63, CHR 0x0A, CHR 0xD0, CHR 0xBD,
      CHR 0xD0, CHR 0xB5, CHR 0xD1, CHR 0x80, CHR 0xD0, CHR 0xB5, CHR 0xD0, CHR 0xBB,
      CHR 0xD0, CHR 0xB5, CHR 0xD0, CHR 0xB2, CHR 0xD0, CHR 0xB0, CHR 0xD0, CHR 0xBD,
      CHR 0xD1, CHR 0x82, CHR 0xD0, CHR 0xBD, CHR 0xD0, CHR 0xB0, CHR 0xD1, CHR 0x8F,
      CHR 0x20, CHR 0xD1, CHR 0x81, CHR 0xD1, CHR 0x82, CHR 0xD1, CHR 0x80, CHR 0xD0,
      CHR 0xBE, CHR 0xD0, CHR 0xBA, CHR 0xD0, CHR 0xB0, CHR 0x0A, CHR 0x44, CHR 0x61,
      CHR 0x74, CHR 0x61, CHR 0x20, CHR 0x45, CHR 0x6E, CHR 0x67, CHR 0x69, CHR 0x6E,
      CHR 0x65, CHR 0x65, CHR 0x72, CHR 0x0A, CHR 0x42, CHR 0x65, CHR 0x74, CHR 0x61,
      CHR 0x20, CHR 0x4C, CHR 0x4C, CHR 0x43]"

text \<open>Fifteen times the capital U+023A, two bytes each, whose lower-case form U+2C65
  takes three; then the marker.\<close>

definition stroke_text :: string where
  "stroke_text = concat (replicate 15 [CHR 0xC8, CHR 0xBA]) @ marker"

text \<open>A text of 151 characters and 301 bytes: 150 times U+044F, then the given
  character.\<close>

definition long_text :: "char \<Rightarrow> string" where
  "long_text c = concat (replicate 150 [CHR 0xD1, CHR 0x8F]) @ [c]"

subsection \<open>Decisions\<close>

text \<open>A finish action with the given summary member and no results; the array of the
  specification's example, two objects with both fields.\<close>

definition finish_action :: "json option \<Rightarrow> AgentAction" where
  "finish_action raw = \<lparr>Action = ''finish'', Tool = [], Arguments = None, Question = [],
      SummaryRaw = raw, Results = [], Summary = []\<rparr>"

definition two_jobs :: json where
  "two_jobs = JArr [JObj [(''job_title'', JStr ''AI Engineer''), (''company_name'', JStr ''Acme Inc'')],
                    JObj [(''job_title'', JStr ''Data Engineer''), (''company_name'', JStr ''Beta LLC'')]]"

text \<open>The decision \<^verbatim>\<open>{"action":"finish"}\<close>, as an action and as the input of an
  iteration.\<close>

definition bare_finish :: AgentAction where
  "bare_finish = \<lparr>Action = ''finish'', Tool = [], Arguments = None, Question = [],
     SummaryRaw = None, Results = [], Summary = []\<rparr>"

definition bare_finish_input :: step_input where
  "bare_finish_input = \<lparr>reply = Parsed bare_finish (Some [''action'' \<mapsto> JStr ''finish'']),
     now = 0, answer = [], tool_io = WriteFailed []\<rparr>"

text \<open>A tool action without tool name, with an argument of its own; and the root of a
  raw text for it with an \<open>args\<close> member and two flattened members, one of them under
  the key of the argument already present.\<close>

definition bare_tool :: AgentAction where
  "bare_tool = \<lparr>Action = ''tool'', Tool = [], Arguments = Some [''x'' \<mapsto> JStr ''kept''],
     Question = [], SummaryRaw = None, Results = [], Summary = []\<rparr>"

definition bare_root :: gomap where
  "bare_root = [''action'' \<mapsto> JStr ''tool'',
     ''args'' \<mapsto> JObj [(''element_id'', JStr ''5'')],
     ''direction'' \<mapsto> JStr ''down'',
     ''x'' \<mapsto> JStr ''flattened'']"

text \<open>The decisions \<^verbatim>\<open>{"action":"click","element_id":"5"}\<close> and
  \<^verbatim>\<open>{"action":"tool","tool":"click","args":{"element_id":"5"}}\<close>, each as the decoded
  action and the decoded root.\<close>

definition flat_click :: AgentAction where
  "flat_click = \<lparr>Action = ''click'', Tool = [], Arguments = None,
     Question = [], SummaryRaw = None, Results = [], Summary = []\<rparr>"

definition flat_click_root :: gomap where
  "flat_click_root = [''action'' \<mapsto> JStr ''click'', ''element_id'' \<mapsto> JStr ''5'']"

definition args_click :: AgentAction where
  "args_click = \<lparr>Action = ''tool'', Tool = ''click'', Arguments = None,
     Question = [], SummaryRaw = None, Results = [], Summary = []\<rparr>"

definition args_click_root :: gomap where
  "args_click_root = [''action'' \<mapsto> JStr ''tool'', ''tool'' \<mapsto> JStr ''click'',
     ''args'' \<mapsto> JObj [(''element_id'', JStr ''5'')]]"

subsection \<open>Iterations\<close>

text \<open>A \<^verbatim>\<open>ParseFloat\<close> that rejects every text, and one that reads \<open>56.25\<close>, which \<^verbatim>\<open>int\<close>
  truncates to 56.\<close>

definition no_hint :: "string \<Rightarrow> 64 word option" where
  "no_hint numStr = None"




text \<open>The decision \<^verbatim>\<open>{"action":"tool","tool":t,"arguments":{"id":"x"}}\<close> at the clock
  reading \<open>clock\<close>, while the worker's pipe is closed: the command fails and the loop goes
  on.\<close>

definition tool_call :: "string \<Rightarrow> AgentAction" where
  "tool_call t = \<lparr>Action = ''tool'', Tool = t, Arguments = Some [''id'' \<mapsto> JStr ''x''],
     Question = [], SummaryRaw = None, Results = [], Summary = []\<rparr>"

definition tool_input :: "string \<Rightarrow> int \<Rightarrow> step_input" where
  "tool_input t clock = \<lparr>reply = Parsed (tool_call t) None, now = clock, answer = [],
     tool_io = WriteFailed ''closed''\<rparr>"

text \<open>Observations: a page with the given title and the visible text \<open>x\<close>, and a page
  with the given visible text.\<close>

definition page :: "string \<Rightarrow> gomap" where
  "page t = [''url'' \<mapsto> JStr ''https://hh.ru'', ''title'' \<mapsto> JStr t,
             ''visible_text'' \<mapsto> JStr ''x'']"

definition text_page :: "string \<Rightarrow> gomap" where
  "text_page vt = [''url'' \<mapsto> JStr ''https://hh.ru'', ''title'' \<mapsto> JStr ''hh'',
                   ''visible_text'' \<mapsto> JStr vt]"

text \<open>The state at the start of a run, with the page \<open>hh\<close> as the observation; and a
  click there that the worker answers with an error response carrying another
  observation.\<close>

definition on_page :: loop_state where
  "on_page = (init [])\<lparr>observation := Some (page ''hh'')\<rparr>"

definition refused_input :: step_input where
  "refused_input = (tool_input ''click'' 0)
     \<lparr>tool_io := Answered (Reply \<lparr>Status = ''error'', Message = ''no such element'',
                                  Observation = Some (page ''other'')\<rparr>)\<rparr>"

text \<open>Tool calls that the worker answers with the page \<open>hh\<close>, each time the same; and
  the states of a run after such a click, and after a keystroke that follows it.\<close>

definition ok_resp :: WorkerResp where
  "ok_resp = \<lparr>Status = ''ok'', Message = [], Observation = Some (page ''hh'')\<rparr>"

definition ok_input :: "string \<Rightarrow> step_input" where
  "ok_input t = (tool_input t 0)\<lparr>tool_io := Answered (Reply ok_resp)\<rparr>"

text \<open>Iterations that decide \<^verbatim>\<open>{"action":"click","element_id":"5"}\<close>, and the action
  without tool name over the root above; the worker would answer with the page \<open>hh\<close>.\<close>

definition flat_click_input :: step_input where
  "flat_click_input = \<lparr>reply = Parsed flat_click (Some flat_click_root), now = 0, answer = [],
     tool_io = Answered (Reply ok_resp)\<rparr>"

definition bare_tool_input :: step_input where
  "bare_tool_input = \<lparr>reply = Parsed bare_tool (Some bare_root), now = 0, answer = [],
     tool_io = Answered (Reply ok_resp)\<rparr>"

definition after_click :: loop_state where
  "after_click = fst (snd (loop_body no_hint (ok_input ''click'') 1 (init [])))"

definition after_type :: loop_state where
  "after_type = fst (snd (loop_body no_hint (ok_input ''type'') 2 after_click))"

section \<open>The case table\<close>

text \<open>The runs of the table are well formed and in ascending order, as the search
  assumes.\<close>

lemma lowerRanges_ascending:
  "sorted (map fst lowerRanges)
   \<and> list_all (\<lambda>(lo, hi, stride, delta). lo \<le> hi \<and> 0 < stride \<and> (hi - lo) mod stride = 0)
        lowerRanges"
  by code_simp

text \<open>A search through the whole table is a search through the part between the bounds
  \<open>a\<close> and \<open>b\<close>, for a rune between them.\<close>

lemma to_lower_skip:
  assumes "list_all (\<lambda>(lo, hi, stride, delta). lo \<le> hi \<and> hi < a) xs" and "a \<le> r"
  shows "to_lower (xs @ ys) r = to_lower ys r"
  using assms by (induction xs) auto

lemma to_lower_stop:
  assumes "list_all (\<lambda>(lo, hi, stride, delta). b \<le> lo) zs" and "r < b"
  shows "to_lower (ys @ zs) r = to_lower ys r"
proof (induction ys)
  case Nil
  show ?case using assms by (cases zs) auto
next
  case (Cons y ys)
  then show ?case by (cases y) simp
qed

lemma to_lower_part:
  assumes "list_all (\<lambda>(lo, hi, stride, delta). lo \<le> hi \<and> hi < a) xs"
    and "list_all (\<lambda>(lo, hi, stride, delta). b \<le> lo) zs"
    and "a \<le> r" and "r < b"
  shows "to_lower (xs @ ys @ zs) r = to_lower ys r"
  using to_lower_skip [OF assms(1,3)] to_lower_stop [OF assms(2,4)] by simp

text \<open>The search of \<^const>\<open>ToLowerRune\<close> in the part of the table for the blocks of the
  rune is a search in the whole table.\<close>

lemma lowerRanges_below_1:
  "list_all (\<lambda>(lo, hi, stride, delta). lo \<le> hi \<and> hi < 0x100) (lowerLatin1)"
  by code_simp

lemma lowerRanges_below_2:
  "list_all (\<lambda>(lo, hi, stride, delta). lo \<le> hi \<and> hi < 0x370) (lowerLatin1 @ lowerLatinExtended)"
  by code_simp

lemma lowerRanges_below_3:
  "list_all (\<lambda>(lo, hi, stride, delta). lo \<le> hi \<and> hi < 0x400) (lowerLatin1 @ lowerLatinExtended @ lowerGreek)"
  by code_simp

lemma lowerRanges_below_4:
  "list_all (\<lambda>(lo, hi, stride, delta). lo \<le> hi \<and> hi < 0x530) (lowerLatin1 @ lowerLatinExtended @ lowerGreek @ lowerCyrillic)"
  by code_simp

lemma lowerRanges_below_5:
  "list_all (\<lambda>(lo, hi, stride, delta). lo \<le> hi \<and> hi < 0x1E00) (lowerLatin1 @ lowerLatinExtended @ lowerGreek @ lowerCyrillic @ lowerArmenianGeorgian)"
  by code_simp

lemma lowerRanges_below_6:
  "list_all (\<lambda>(lo, hi, stride, delta). lo \<le> hi \<and> hi < 0x2100) (lowerLatin1 @ lowerLatinExtended @ lowerGreek @ lowerCyrillic @ lowerArmenianGeorgian @ lowerLatinGreekAdditional)"
  by code_simp

lemma lowerRanges_below_7:
  "list_all (\<lambda>(lo, hi, stride, delta). lo \<le> hi \<and> hi < 0x2C00) (lowerLatin1 @ lowerLatinExtended @ lowerGreek @ lowerCyrillic @ lowerArmenianGeorgian @ lowerLatinGreekAdditional @ lowerLetterlike)"
  by code_simp

lemma lowerRanges_below_8:
  "list_all (\<lambda>(lo, hi, stride, delta). lo \<le> hi \<and> hi < 0xA640) (lowerLatin1 @ lowerLatinExtended @ lowerGreek @ lowerCyrillic @ lowerArmenianGeorgian @ lowerLatinGreekAdditional @ lowerLetterlike @ lowerGlagolitic)"
  by code_simp

lemma lowerRanges_below_9:
  "list_all (\<lambda>(lo, hi, stride, delta). lo \<le> hi \<and> hi < 0xFF00) (lowerLatin1 @ lowerLatinExtended @ lowerGreek @ lowerCyrillic @ lowerArmenianGeorgian @ lowerLatinGreekAdditional @ lowerLetterlike @ lowerGlagolitic @ lowerLatinExtendedD)"
  by code_simp

lemma lowerRanges_above_1:
  "list_all (\<lambda>(lo, hi, stride, delta). 0x100 \<le> lo) (lowerLatinExtended @ lowerGreek @ lowerCyrillic @ lowerArmenianGeorgian @ lowerLatinGreekAdditional @ lowerLetterlike @ lowerGlagolitic @ lowerLatinExtendedD @ lowerSupplementary)"
  by code_simp

lemma lowerRanges_above_2:
  "list_all (\<lambda>(lo, hi, stride, delta). 0x370 \<le> lo) (lowerGreek @ lowerCyrillic @ lowerArmenianGeorgian @ lowerLatinGreekAdditional @ lowerLetterlike @ lowerGlagolitic @ lowerLatinExtendedD @ lowerSupplementary)"
  by code_simp

lemma lowerRanges_above_3:
  "list_all (\<lambda>(lo, hi, stride, delta). 0x400 \<le> lo) (lowerCyrillic @ lowerArmenianGeorgian @ lowerLatinGreekAdditional @ lowerLetterlike @ lowerGlagolitic @ lowerLatinExtendedD @ lowerSupplementary)"
  by code_simp

lemma lowerRanges_above_4:
  "list_all (\<lambda>(lo, hi, stride, delta). 0x530 \<le> lo) (lowerArmenianGeorgian @ lowerLatinGreekAdditional @ lowerLetterlike @ lowerGlagolitic @ lowerLatinExtendedD @ lowerSupplementary)"
  by code_simp

lemma lowerRanges_above_5:
  "list_all (\<lambda>(lo, hi, stride, delta). 0x1E00 \<le> lo) (lowerLatinGreekAdditional @ lowerLetterlike @ lowerGlagolitic @ lowerLatinExtendedD @ lowerSupplementary)"
  by code_simp

lemma lowerRanges_above_6:
  "list_all (\<lambda>(lo, hi, stride, delta). 0x2100 \<le> lo) (lowerLetterlike @ lowerGlagolitic @ lowerLatinExtendedD @ lowerSupplementary)"
  by code_simp

lemma lowerRanges_above_7:
  "list_all (\<lambda>(lo, hi, stride, delta). 0x2C00 \<le> lo) (lowerGlagolitic @ lowerLatinExtendedD @ lowerSupplementary)"
  by code_simp

lemma lowerRanges_above_8:
  "list_all (\<lambda>(lo, hi, stride, delta). 0xA640 \<le> lo) (lowerLatinExtendedD @ lowerSupplementary)"
  by code_simp

lemma lowerRanges_above_9:
  "list_all (\<lambda>(lo, hi, stride, delta). 0xFF00 \<le> lo) (lowerSupplementary)"
  by code_simp

lemma ToLowerRune_lowerRanges: "ToLowerRune r = to_lower lowerRanges r"
proof -
  consider (ascii) "r \<le> 0x7F"
    | (p1) "0x7F < r" "r < 0x100"
    | (p2) "0x100 \<le> r" "r < 0x370"
    | (p3) "0x370 \<le> r" "r < 0x400"
    | (p4) "0x400 \<le> r" "r < 0x530"
    | (p5) "0x530 \<le> r" "r < 0x1E00"
    | (p6) "0x1E00 \<le> r" "r < 0x2100"
    | (p7) "0x2100 \<le> r" "r < 0x2C00"
    | (p8) "0x2C00 \<le> r" "r < 0xA640"
    | (p9) "0xA640 \<le> r" "r < 0xFF00"
    | (p10) "0xFF00 \<le> r"
    by linarith
  then show ?thesis
  proof cases
    case ascii
    have "to_lower lowerRanges r = to_lower lowerLatin1 r"
      using to_lower_stop [OF lowerRanges_above_1, of r lowerLatin1] ascii
      by (simp add: lowerRanges_def)
    then show ?thesis using ascii by (simp add: ToLowerRune_def lowerLatin1_def)
  next
    case p1
    have "to_lower lowerRanges r = to_lower lowerLatin1 r"
      using to_lower_stop [OF lowerRanges_above_1, of r lowerLatin1] p1
      by (simp add: lowerRanges_def)
    then show ?thesis using p1 by (simp add: ToLowerRune_def)
  next
    case p2
    have "to_lower ((lowerLatin1) @ lowerLatinExtended @ (lowerGreek @ lowerCyrillic @ lowerArmenianGeorgian @ lowerLatinGreekAdditional @ lowerLetterlike @ lowerGlagolitic @ lowerLatinExtendedD @ lowerSupplementary)) r = to_lower lowerLatinExtended r"
      using lowerRanges_below_1 lowerRanges_above_2 p2 by (rule to_lower_part)
    then show ?thesis using p2 by (simp add: ToLowerRune_def lowerRanges_def)
  next
    case p3
    have "to_lower ((lowerLatin1 @ lowerLatinExtended) @ lowerGreek @ (lowerCyrillic @ lowerArmenianGeorgian @ lowerLatinGreekAdditional @ lowerLetterlike @ lowerGlagolitic @ lowerLatinExtendedD @ lowerSupplementary)) r = to_lower lowerGreek r"
      using lowerRanges_below_2 lowerRanges_above_3 p3 by (rule to_lower_part)
    then show ?thesis using p3 by (simp add: ToLowerRune_def lowerRanges_def)
  next
    case p4
    have "to_lower ((lowerLatin1 @ lowerLatinExtended @ lowerGreek) @ lowerCyrillic @ (lowerArmenianGeorgian @ lowerLatinGreekAdditional @ lowerLetterlike @ lowerGlagolitic @ lowerLatinExtendedD @ lowerSupplementary)) r = to_lower lowerCyrillic r"
      using lowerRanges_below_3 lowerRanges_above_4 p4 by (rule to_lower_part)
    then show ?thesis using p4 by (simp add: ToLowerRune_def lowerRanges_def)
  next
    case p5
    have "to_lower ((lowerLatin1 @ lowerLatinExtended @ lowerGreek @ lowerCyrillic) @ lowerArmenianGeorgian @ (lowerLatinGreekAdditional @ lowerLetterlike @ lowerGlagolitic @ lowerLatinExtendedD @ lowerSupplementary)) r = to_lower lowerArmenianGeorgian r"
      using lowerRanges_below_4 lowerRanges_above_5 p5 by (rule to_lower_part)
    then show ?thesis using p5 by (simp add: ToLowerRune_def lowerRanges_def)
  next
    case p6
    have "to_lower ((lowerLatin1 @ lowerLatinExtended @ lowerGreek @ lowerCyrillic @ lowerArmenianGeorgian) @ lowerLatinGreekAdditional @ (lowerLetterlike @ lowerGlagolitic @ lowerLatinExtendedD @ lowerSupplementary)) r = to_lower lowerLatinGreekAdditional r"
      using lowerRanges_below_5 lowerRanges_above_6 p6 by (rule to_lower_part)
    then show ?thesis using p6 by (simp add: ToLowerRune_def lowerRanges_def)
  next
    case p7
    have "to_lower ((lowerLatin1 @ lowerLatinExtended @ lowerGreek @ lowerCyrillic @ lowerArmenianGeorgian @ lowerLatinGreekAdditional) @ lowerLetterlike @ (lowerGlagolitic @ lowerLatinExtendedD @ lowerSupplementary)) r = to_lower lowerLetterlike r"
      using lowerRanges_below_6 lowerRanges_above_7 p7 by (rule to_lower_part)
    then show ?thesis using p7 by (simp add: ToLowerRune_def lowerRanges_def)
  next
    case p8
    have "to_lower ((lowerLatin1 @ lowerLatinExtended @ lowerGreek @ lowerCyrillic @ lowerArmenianGeorgian @ lowerLatinGreekAdditional @ lowerLetterlike) @ lowerGlagolitic @ (lowerLatinExtendedD @ lowerSupplementary)) r = to_lower lowerGlagolitic r"
      using lowerRanges_below_7 lowerRanges_above_8 p8 by (rule to_lower_part)
    then show ?thesis using p8 by (simp add: ToLowerRune_def lowerRanges_def)
  next
    case p9
    have "to_lower ((lowerLatin1 @ lowerLatinExtended @ lowerGreek @ lowerCyrillic @ lowerArmenianGeorgian @ lowerLatinGreekAdditional @ lowerLetterlike @ lowerGlagolitic) @ lowerLatinExtendedD @ (lowerSupplementary)) r = to_lower lowerLatinExtendedD r"
      using lowerRanges_below_8 lowerRanges_above_9 p9 by (rule to_lower_part)
    then show ?thesis using p9 by (simp add: ToLowerRune_def lowerRanges_def)
  next
    case p10
    have "to_lower ((lowerLatin1 @ lowerLatinExtended @ lowerGreek @ lowerCyrillic @ lowerArmenianGeorgian @ lowerLatinGreekAdditional @ lowerLetterlike @ lowerGlagolitic @ lowerLatinExtendedD) @ lowerSupplementary) r = to_lower lowerSupplementary r"
      using lowerRanges_below_9 p10 by (rule to_lower_skip)
    then show ?thesis using p10 by (simp add: ToLowerRune_def lowerRanges_def)
  qed
qed

text \<open>Capitals of several scripts, small letters, and code points without case.\<close>

lemma ToLowerRune_examples:
  "ToLowerRune 0x41 = 0x61 \<and> ToLowerRune 0x61 = 0x61 \<and> ToLowerRune 0x5B = 0x5B
   \<and> ToLowerRune 0xD7 = 0xD7 \<and> ToLowerRune 0xDE = 0xFE \<and> ToLowerRune 0x130 = 0x69
   \<and> ToLowerRune 0x100 = 0x101 \<and> ToLowerRune 0x101 = 0x101 \<and> ToLowerRune 0x23A = 0x2C65
   \<and> ToLowerRune 0x3A2 = 0x3A2 \<and> ToLowerRune 0x3A3 = 0x3C3
   \<and> ToLowerRune 0x401 = 0x451 \<and> ToLowerRune 0x41D = 0x43D \<and> ToLowerRune 0x43D = 0x43D
   \<and> ToLowerRune 0x49A = 0x49B \<and> ToLowerRune 0x4B0 = 0x4B1 \<and> ToLowerRune 0x4C0 = 0x4CF
   \<and> ToLowerRune 0x10A0 = 0x2D00 \<and> ToLowerRune 0x1E9E = 0xDF
   \<and> ToLowerRune 0x2126 = 0x3C9 \<and> ToLowerRune 0x212A = 0x6B \<and> ToLowerRune 0x212B = 0xE5
   \<and> ToLowerRune 0xFF21 = 0xFF41 \<and> ToLowerRune 0x1E921 = 0x1E943
   \<and> ToLowerRune 0xFFFD = 0xFFFD \<and> ToLowerRune 0x10FFFF = 0x10FFFF"
  by code_simp

section \<open>Termination of the loop that collapses spaces\<close>

lemma HasPrefix_length: "HasPrefix s p \<Longrightarrow> length p \<le> length s"
  by (induction s p rule: HasPrefix.induct) auto

lemma ReplaceAll_length_le:
  "length new \<le> length old \<Longrightarrow> length (ReplaceAll s old new) \<le> length s"
proof (induction s old new rule: ReplaceAll.induct)
  case (1 old new)
  then show ?case by simp
next
  case (2 c cs old new)
  show ?case
  proof (cases "old \<noteq> [] \<and> HasPrefix (c # cs) old")
    case True
    then have "length old \<le> Suc (length cs)"
      using HasPrefix_length [of "c # cs" old] by simp
    moreover have "length (ReplaceAll (drop (length old - 1) cs) old new)
        \<le> length cs - (length old - 1)"
      using 2(1) [OF True 2(3)] by simp
    ultimately show ?thesis using True 2(3) by (cases old) auto
  next
    case False
    then show ?thesis using 2(2) [OF False 2(3)] by auto
  qed
qed

lemma ReplaceAll_length_less:
  "length new < length old \<Longrightarrow> Contains s old
     \<Longrightarrow> length (ReplaceAll s old new) < length s"
proof (induction s old new rule: ReplaceAll.induct)
  case (1 old new)
  then show ?case by (simp add: Contains_def split: if_splits)
next
  case (2 c cs old new)
  show ?case
  proof (cases "old \<noteq> [] \<and> HasPrefix (c # cs) old")
    case True
    then have "length old \<le> Suc (length cs)"
      using HasPrefix_length [of "c # cs" old] by simp
    moreover have "length (ReplaceAll (drop (length old - 1) cs) old new)
        \<le> length cs - (length old - 1)"
      using ReplaceAll_length_le [of new old "drop (length old - 1) cs"] 2(3) by simp
    ultimately show ?thesis using True 2(3) by (cases old) auto
  next
    case False
    moreover have "old \<noteq> []" using 2(3) by auto
    ultimately have "Contains cs old"
      using 2(4) by (auto simp: Contains_def Let_def split: if_splits)
    then show ?thesis using 2(2) [OF False 2(3)] False by auto
  qed
qed

termination collapse
  by (relation "measure length") (auto intro: ReplaceAll_length_less)

section \<open>The extractor on the text of the specification\<close>

text \<open>
  C3. On the text of the example with requested count 2 the extractor returns the two
  records (AI Engineer, Acme Inc) and (Data Engineer, Beta LLC), in this order; with
  requested count 1 it returns the first of them only.
\<close>

theorem extract_spec_text:
  "ExtractListingsFromVisibleText spec_text 2 =
     Inr [\<lparr>Title = ''AI Engineer'', Company = ''Acme Inc''\<rparr>,
          \<lparr>Title = ''Data Engineer'', Company = ''Beta LLC''\<rparr>]
   \<and> ExtractListingsFromVisibleText spec_text 1 =
     Inr [\<lparr>Title = ''AI Engineer'', Company = ''Acme Inc''\<rparr>]"
  by code_simp

section \<open>The completion payload\<close>

lemma those_map_Some:
  "those (map f xs) = Some ys \<Longrightarrow> length ys = length xs \<and> map Some ys = map f xs"
  by (induction xs arbitrary: ys) (auto split: option.splits)

lemma those_decode_total:
  "list_all record_shaped xs \<Longrightarrow> \<exists>ys. those (map decode_JobItem xs) = Some ys"
  by (induction xs) (auto simp: record_shaped_def)

lemma those_decode_None:
  "\<not> list_all record_shaped xs \<Longrightarrow> those (map decode_JobItem xs) = None"
  by (induction xs) (auto simp: record_shaped_def split: option.splits)

text \<open>
  C5, as the code has it. When the summary member is present: a JSON string is the
  summary, verbatim; \<^verbatim>\<open>null\<close> decodes as a string too and leaves the summary empty; an
  array of record-shaped elements gives the summary \<open>Found N jobs.\<close>, \<open>N\<close> the length of
  the array, and its records become the results only when the action has no results of
  its own; every other value gives \<open>Done.\<close>.
\<close>

theorem finalize_summary:
  assumes "SummaryRaw a = Some raw"
  shows "(\<forall>s. raw = JStr s \<longrightarrow> finalizeActionFields a = a\<lparr>Summary := s\<rparr>)
    \<and> (raw = JNull \<longrightarrow> finalizeActionFields a = a\<lparr>Summary := []\<rparr>)
    \<and> (\<forall>xs. raw = JArr xs \<and> list_all record_shaped xs \<longrightarrow>
          (\<exists>arr. length arr = length xs \<and> map Some arr = map decode_JobItem xs
             \<and> finalizeActionFields a =
                 a\<lparr>Results := (if Results a = [] then arr else Results a),
                   Summary := ''Found '' @ Sprint (int (length xs)) @ '' jobs.''\<rparr>))
    \<and> ((\<forall>s. raw \<noteq> JStr s) \<and> raw \<noteq> JNull \<and> \<not> (\<exists>xs. raw = JArr xs \<and> list_all record_shaped xs)
          \<longrightarrow> finalizeActionFields a = a\<lparr>Summary := ''Done.''\<rparr>)"
proof (intro conjI allI impI)
  fix s assume "raw = JStr s"
  then show "finalizeActionFields a = a\<lparr>Summary := s\<rparr>"
    using assms by (simp add: finalizeActionFields_def)
next
  assume "raw = JNull"
  then show "finalizeActionFields a = a\<lparr>Summary := []\<rparr>"
    using assms by (simp add: finalizeActionFields_def)
next
  fix xs assume h: "raw = JArr xs \<and> list_all record_shaped xs"
  then obtain arr where arr: "those (map decode_JobItem xs) = Some arr"
    using those_decode_total [of xs] by auto
  have "length arr = length xs \<and> map Some arr = map decode_JobItem xs"
    using those_map_Some [OF arr] .
  moreover have "finalizeActionFields a =
      a\<lparr>Results := (if Results a = [] then arr else Results a),
        Summary := ''Found '' @ Sprint (int (length xs)) @ '' jobs.''\<rparr>"
    using assms h arr those_map_Some [OF arr] by (simp add: finalizeActionFields_def)
  ultimately show "\<exists>arr. length arr = length xs \<and> map Some arr = map decode_JobItem xs
             \<and> finalizeActionFields a =
                 a\<lparr>Results := (if Results a = [] then arr else Results a),
                   Summary := ''Found '' @ Sprint (int (length xs)) @ '' jobs.''\<rparr>"
    by blast
next
  assume h: "(\<forall>s. raw \<noteq> JStr s) \<and> raw \<noteq> JNull \<and> \<not> (\<exists>xs. raw = JArr xs \<and> list_all record_shaped xs)"
  then have "unmarshal_string raw = None" by (cases raw) auto
  moreover have "unmarshal_JobItems raw = None"
    using h those_decode_None by (cases raw) auto
  ultimately show "finalizeActionFields a = a\<lparr>Summary := ''Done.''\<rparr>"
    using assms by (simp add: finalizeActionFields_def)
qed

lemma Sprint_2: "Sprint 2 = ''2''" by code_simp

text \<open>The theorem at the array of two objects with no results of the action's own, at
  a string and at a number.\<close>

theorem finalize_summary_witness:
  "SummaryRaw (finish_action (Some two_jobs)) = Some two_jobs
   \<and> Summary (finalizeActionFields (finish_action (Some two_jobs))) = ''Found 2 jobs.''
   \<and> length (Results (finalizeActionFields (finish_action (Some two_jobs)))) = 2
   \<and> Summary (finalizeActionFields (finish_action (Some (JStr ''ok'')))) = ''ok''
   \<and> Summary (finalizeActionFields (finish_action (Some (JNum ''7'')))) = ''Done.''"
proof -
  have rs: "list_all record_shaped [JObj [(''job_title'', JStr ''AI Engineer''), (''company_name'', JStr ''Acme Inc'')],
                    JObj [(''job_title'', JStr ''Data Engineer''), (''company_name'', JStr ''Beta LLC'')]]"
    by (simp add: record_shaped_def tag_matches_def ascii_lower_def byte_def)
  have 1: "SummaryRaw (finish_action (Some two_jobs)) = Some two_jobs"
    by (simp add: finish_action_def)
  have 2: "SummaryRaw (finish_action (Some (JStr ''ok''))) = Some (JStr ''ok'')"
    by (simp add: finish_action_def)
  have 3: "SummaryRaw (finish_action (Some (JNum ''7''))) = Some (JNum ''7'')"
    by (simp add: finish_action_def)
  show ?thesis
    using finalize_summary [OF 1] finalize_summary [OF 2] finalize_summary [OF 3] rs 1
    by (auto simp: two_jobs_def Sprint_2 finish_action_def)
qed

text \<open>The claim as stated fails for the summary \<^verbatim>\<open>null\<close>, which is neither a string nor
  an array: the summary stays empty.\<close>

theorem finalize_null_counterexample:
  "Summary (finalizeActionFields (finish_action (Some JNull))) = []
   \<and> Summary (finalizeActionFields (finish_action (Some JNull))) \<noteq> ''Done.''"
  by (simp add: finalizeActionFields_def finish_action_def)

section \<open>Trimming to the braces\<close>

text \<open>The text of the specification's example is cut to the object between its first
  opening and its last closing brace.\<close>

lemma trim_to_braces_example:
  "trim_to_braces ''Sure! {\"action\":\"finish\",\"summary\":\"ok\"} thanks''
     = ''{\"action\":\"finish\",\"summary\":\"ok\"}''"
  by code_simp

section \<open>Argument flattening\<close>

lemma tool_not_a_tool_name: "''tool'' \<notin> set toolNames"
  by (simp add: toolNames_def)

lemma Arguments_recover_tool: "Arguments (recover_tool a m) = Arguments a"
  by (simp add: recover_tool_def Let_def split: option.splits json.splits)

lemma Arguments_implicit_tool: "Arguments (implicit_tool a) = Arguments a"
  by (simp add: implicit_tool_def)

lemma implicit_tool_named:
  "Action (implicit_tool a) = ''tool'' \<and> Tool (implicit_tool a) = []
     \<longleftrightarrow> Action a = ''tool'' \<and> Tool a = []"
  using tool_not_a_tool_name by (auto simp: implicit_tool_def toolNames_def)

lemma merge_arguments_eq:
  "merge_arguments a m =
     (m |` (- set root_fields))
       ++ (case Arguments a of None \<Rightarrow> Map.empty | Some x \<Rightarrow> x)
       ++ (case m ''args'' of Some (JObj kvs) \<Rightarrow> to_map kvs | _ \<Rightarrow> Map.empty)"
proof (rule ext)
  fix k
  show "merge_arguments a m k =
     ((m |` (- set root_fields))
       ++ (case Arguments a of None \<Rightarrow> Map.empty | Some x \<Rightarrow> x)
       ++ (case m ''args'' of Some (JObj kvs) \<Rightarrow> to_map kvs | _ \<Rightarrow> Map.empty)) k"
    by (cases "m ''args''"; cases "the (m ''args'')")
       (auto simp: merge_arguments_def Let_def map_add_def restrict_map_def split: option.splits)
qed

text \<open>
  What the third block does where it runs, that is when the decoded action is \<open>tool\<close>,
  its tool field is empty and the raw text decodes into a map: the arguments become the
  root members other than the six known fields, overridden by the arguments already
  present, overridden by the members of \<open>args\<close>. In every other case (a tool name is
  present, or the action is itself a tool name, or it is no tool call) the arguments are
  the decoded ones.
\<close>

theorem normalizeAction_merge:
  "(Action a = ''tool'' \<and> Tool a = [] \<longrightarrow>
      Action (normalizeAction a (Some m)) = ''tool''
      \<and> Arguments (normalizeAction a (Some m)) =
          Some ((m |` (- set root_fields))
                  ++ (case Arguments a of None \<Rightarrow> Map.empty | Some x \<Rightarrow> x)
                  ++ (case m ''args'' of Some (JObj kvs) \<Rightarrow> to_map kvs | _ \<Rightarrow> Map.empty)))
   \<and> (\<not> (Action a = ''tool'' \<and> Tool a = []) \<longrightarrow>
      Arguments (normalizeAction a p) = Arguments a)"
proof (intro conjI impI)
  assume h: "Action a = ''tool'' \<and> Tool a = []"
  then have i: "implicit_tool a = a"
    using tool_not_a_tool_name by (simp add: implicit_tool_def)
  show "Action (normalizeAction a (Some m)) = ''tool''"
    using h i by (simp add: normalizeAction_def Let_def recover_tool_def
        split: option.splits json.splits)
  show "Arguments (normalizeAction a (Some m)) =
          Some ((m |` (- set root_fields))
                  ++ (case Arguments a of None \<Rightarrow> Map.empty | Some x \<Rightarrow> x)
                  ++ (case m ''args'' of Some (JObj kvs) \<Rightarrow> to_map kvs | _ \<Rightarrow> Map.empty))"
    using h i by (simp add: normalizeAction_def Let_def merge_arguments_eq Arguments_recover_tool)
next
  assume "\<not> (Action a = ''tool'' \<and> Tool a = [])"
  then have n: "(Action (implicit_tool a) = ''tool'' \<and> Tool (implicit_tool a) = []) = False"
    using implicit_tool_named by blast
  show "Arguments (normalizeAction a p) = Arguments a"
    unfolding normalizeAction_def Let_def n by (simp add: Arguments_implicit_tool)
qed

text \<open>The theorem at the action without tool name: the member of \<open>args\<close> and the
  flattened member \<open>direction\<close> are merged, the argument \<open>x\<close> keeps its value, the field
  \<open>action\<close> stays out; with the tool name \<open>click\<close> nothing is merged.\<close>

theorem normalizeAction_merge_example:
  "Action bare_tool = ''tool'' \<and> Tool bare_tool = []
   \<and> (\<exists>args. Arguments (normalizeAction bare_tool (Some bare_root)) = Some args
        \<and> args ''element_id'' = Some (JStr ''5'')
        \<and> args ''direction'' = Some (JStr ''down'')
        \<and> args ''x'' = Some (JStr ''kept'')
        \<and> args ''action'' = None)
   \<and> \<not> (Action (bare_tool\<lparr>Tool := ''click''\<rparr>) = ''tool'' \<and> Tool (bare_tool\<lparr>Tool := ''click''\<rparr>) = [])
   \<and> Arguments (normalizeAction (bare_tool\<lparr>Tool := ''click''\<rparr>) (Some bare_root))
        = Arguments (bare_tool\<lparr>Tool := ''click''\<rparr>)"
proof -
  have 1: "Action bare_tool = ''tool'' \<and> Tool bare_tool = []"
    by (simp add: bare_tool_def)
  have 2: "\<not> (Action (bare_tool\<lparr>Tool := ''click''\<rparr>) = ''tool'' \<and> Tool (bare_tool\<lparr>Tool := ''click''\<rparr>) = [])"
    by simp
  define merged where "merged = (bare_root |` (- set root_fields))
      ++ (case Arguments bare_tool of None \<Rightarrow> Map.empty | Some x \<Rightarrow> x)
      ++ (case bare_root ''args'' of Some (JObj kvs) \<Rightarrow> to_map kvs | _ \<Rightarrow> Map.empty)"
  have 3: "Arguments (normalizeAction bare_tool (Some bare_root)) = Some merged"
    using normalizeAction_merge [of bare_tool bare_root] 1 unfolding merged_def by blast
  have 4: "Arguments (normalizeAction (bare_tool\<lparr>Tool := ''click''\<rparr>) (Some bare_root))
        = Arguments (bare_tool\<lparr>Tool := ''click''\<rparr>)"
    using normalizeAction_merge [of "bare_tool\<lparr>Tool := ''click''\<rparr>" _ "Some bare_root"] 2 by blast
  have 5: "merged ''element_id'' = Some (JStr ''5'')"
    by (simp add: merged_def bare_root_def bare_tool_def to_map_def root_fields_def map_add_def restrict_map_def)
  have 6: "merged ''direction'' = Some (JStr ''down'')"
    by (simp add: merged_def bare_root_def bare_tool_def to_map_def root_fields_def map_add_def restrict_map_def)
  have 7: "merged ''x'' = Some (JStr ''kept'')"
    by (simp add: merged_def bare_root_def bare_tool_def to_map_def root_fields_def map_add_def restrict_map_def)
  have 8: "merged ''action'' = None"
    by (simp add: merged_def bare_root_def bare_tool_def to_map_def root_fields_def map_add_def restrict_map_def)
  show ?thesis using 1 2 3 4 5 6 7 8 by blast
qed

text \<open>
  The merged arguments are not sent. When the root is that of the decoded action (its
  member \<open>action\<close> is \<open>tool\<close>, its member \<open>tool\<close> is missing, \<open>null\<close> or empty), the lookup
  of the tool name in the member \<open>action\<close> (lines 502 to 506) finds \<open>tool\<close>, which is no
  tool name: the tool field stays empty and the loop skips the call at line 724.
\<close>

lemma merged_arguments_not_sent:
  assumes "Action a = ''tool''" and "Tool a = []"
    and "m ''action'' = Some (JStr ''tool'')"
    and "m ''tool'' = None \<or> m ''tool'' = Some JNull \<or> m ''tool'' = Some (JStr [])"
  shows "Action (normalizeAction a (Some m)) = ''tool''"
    and "Tool (normalizeAction a (Some m)) = []"
    and "tool_step i (normalizeAction a (Some m)) s = (Next, s, [PrintNoTool])"
proof -
  have i: "implicit_tool a = a"
    using assms(1) tool_not_a_tool_name by (simp add: implicit_tool_def)
  have r: "recover_tool a m = a"
    using assms tool_not_a_tool_name by (auto simp: recover_tool_def Let_def)
  show 1: "Action (normalizeAction a (Some m)) = ''tool''"
    using assms(1,2) i r by (simp add: normalizeAction_def Let_def)
  show 2: "Tool (normalizeAction a (Some m)) = []"
    using assms(1,2) i r by (simp add: normalizeAction_def Let_def)
  show "tool_step i (normalizeAction a (Some m)) s = (Next, s, [PrintNoTool])"
    using 2 by (simp add: tool_step_def)
qed

lemma bare_tool_not_sent:
  "snd (snd (loop_body no_hint bare_tool_input 1 (init []))) =
     [PrintStep 1, PrintAction (normalizeAction bare_tool (Some bare_root)), PrintNoTool]"
proof -
  let ?a = "normalizeAction bare_tool (Some bare_root)"
  have h: "Action bare_tool = ''tool''" "Tool bare_tool = []"
    "bare_root ''action'' = Some (JStr ''tool'')" "bare_root ''tool'' = None"
    by (simp_all add: bare_tool_def bare_root_def)
  have a: "Action ?a = ''tool''"
    using merged_arguments_not_sent(1) [of bare_tool bare_root] h by simp
  have t: "tool_step bare_tool_input ?a s = (Next, s, [PrintNoTool])" for s
    using merged_arguments_not_sent(3) [of bare_tool bare_root] h by simp
  have s: "SummaryRaw ?a = None"
    using h by (simp add: normalizeAction_def implicit_tool_def recover_tool_def Let_def
        toolNames_def bare_tool_def)
  have z: "bare_tool\<lparr>Summary := []\<rparr> = bare_tool"
    by (simp add: bare_tool_def)
  have d: "decideNextAction (reply bare_tool_input) = Inr ?a"
    by (simp add: bare_tool_input_def z finalizeActionFields_def s)
  have g: "sameActionCount (repeat_guard ?a 0 (init [])) = 0"
    using a by (simp add: repeat_guard_def action_key_def init_def Let_def)
  have n: "now bare_tool_input = 0"
    by (simp add: bare_tool_input_def)
  show ?thesis
    using a t g by (simp add: loop_body_def d n Let_def dispatch_def)
qed

lemma tool_step_sends:
  assumes "Tool a \<noteq> []"
  shows "\<exists>ev. snd (snd (tool_step i a s)) =
           Command (Tool a) (case Arguments a of None \<Rightarrow> Map.empty | Some m \<Rightarrow> m) # ev"
  using assms
  by (simp add: tool_step_def Let_def split: sum.splits prod.splits)

text \<open>
  C6 fails in the code, at the decision \<^verbatim>\<open>{"action":"click","element_id":"5"}\<close>: the
  parameter is flattened into the root next to a tool name in the field \<open>action\<close>.
  Case 1 (lines 486 to 491) makes it the tool action \<open>click\<close>, so the test of line 494
  fails and the merge that the comment of line 516 announces for parameters put
  "directly in the root" is skipped: the arguments stay \<^verbatim>\<open>nil\<close> and the loop sends \<open>click\<close>
  with the empty map. The member \<open>args\<close> is lost in the same way when the tool name is
  given.
\<close>

theorem normalizeAction_drops_flattened:
  "flat_click_root ''element_id'' = Some (JStr ''5'')
   \<and> Action (normalizeAction flat_click (Some flat_click_root)) = ''tool''
   \<and> Tool (normalizeAction flat_click (Some flat_click_root)) = ''click''
   \<and> Arguments (normalizeAction flat_click (Some flat_click_root)) = None
   \<and> (\<exists>ev. snd (snd (loop_body no_hint flat_click_input 1 (init []))) =
         PrintStep 1 # PrintAction (flat_click\<lparr>Action := ''tool'', Tool := ''click''\<rparr>)
           # Command ''click'' Map.empty # ev)
   \<and> args_click_root ''args'' = Some (JObj [(''element_id'', JStr ''5'')])
   \<and> Action (normalizeAction args_click (Some args_click_root)) = ''tool''
   \<and> Tool (normalizeAction args_click (Some args_click_root)) = ''click''
   \<and> Arguments (normalizeAction args_click (Some args_click_root)) = None"
proof -
  let ?a = "flat_click\<lparr>Action := ''tool'', Tool := ''click''\<rparr>"
  have n: "normalizeAction flat_click (Some flat_click_root) = ?a"
    by (simp add: normalizeAction_def implicit_tool_def toolNames_def flat_click_def)
  have z: "flat_click\<lparr>Summary := []\<rparr> = flat_click"
    by (simp add: flat_click_def)
  have f: "Action ?a = ''tool''" "Tool ?a = ''click''" "Arguments ?a = None"
    "SummaryRaw ?a = None"
    by (simp_all add: flat_click_def)
  have d: "decideNextAction (reply flat_click_input) = Inr ?a"
    by (simp add: flat_click_input_def z n finalizeActionFields_def f)
  have c: "now flat_click_input = 0"
    by (simp add: flat_click_input_def)
  have g: "sameActionCount (repeat_guard ?a 0 (init [])) = 0"
    using f by (simp add: repeat_guard_def action_key_def init_def Let_def)
  obtain ev where e: "snd (snd (tool_step flat_click_input ?a (repeat_guard ?a 0 (init [])))) =
      Command ''click'' Map.empty # ev"
    using tool_step_sends [of ?a flat_click_input "repeat_guard ?a 0 (init [])"] f by auto
  have l: "snd (snd (loop_body no_hint flat_click_input 1 (init []))) =
      PrintStep 1 # PrintAction ?a # Command ''click'' Map.empty # ev"
    using e g f by (auto simp: loop_body_def d c Let_def dispatch_def split: prod.splits)
  have r: "flat_click_root ''element_id'' = Some (JStr ''5'')"
    by (simp add: flat_click_root_def)
  have q: "args_click_root ''args'' = Some (JObj [(''element_id'', JStr ''5'')])"
    by (simp add: args_click_root_def)
  have k: "normalizeAction args_click (Some args_click_root) = args_click"
    by (simp add: normalizeAction_def implicit_tool_def toolNames_def args_click_def)
  have u: "Action args_click = ''tool''" "Tool args_click = ''click''"
    "Arguments args_click = None"
    by (simp_all add: args_click_def)
  show ?thesis
    unfolding n k using l f r q u by simp
qed

section \<open>A finish action without summary\<close>

lemma finish_not_a_tool_name: "''finish'' \<notin> set toolNames"
  by (simp add: toolNames_def)

lemma normalizeAction_finish:
  "Action a = ''finish'' \<Longrightarrow> normalizeAction a m = a"
  using finish_not_a_tool_name by (simp add: normalizeAction_def implicit_tool_def)

text \<open>
  C10. When the decoded finish action has no summary member, finalization returns the
  action as it is and the summary of the normalized action is empty; in the loop (the
  last action key is never \<open>finish\<close> there, a finish action ends the run) the iteration
  prints the success line with the empty summary and returns. The default \<open>Done.\<close> is
  not applied when the member is absent, nor when it is a string (the summary is that
  string) or an array of record-shaped elements (the summary starts with \<open>Found\<close>).
\<close>

theorem finish_without_summary:
  assumes "Action a = ''finish''" and "SummaryRaw a = None"
  shows "finalizeActionFields (normalizeAction (a\<lparr>Summary := []\<rparr>) m)
           = normalizeAction (a\<lparr>Summary := []\<rparr>) m
    \<and> (\<exists>act. decideNextAction (Parsed a m) = Inr act \<and> Summary act = []
          \<and> (reply i = Parsed a m \<and> lastAction s \<noteq> ''finish'' \<longrightarrow>
               loop_body pf i step s =
                 (Return, repeat_guard act (now i) s,
                  PrintStep step # PrintAction act # PrintDone [] # result_lines 0 (Results act))))
    \<and> (\<forall>b raw. Summary b = [] \<and> SummaryRaw b = Some raw
          \<and> ((\<exists>t. raw = JStr t \<and> t \<noteq> ''Done.'') \<or> (\<exists>xs. raw = JArr xs \<and> list_all record_shaped xs))
          \<longrightarrow> Summary (finalizeActionFields b) \<noteq> ''Done.'')"
proof (intro conjI)
  let ?n = "normalizeAction (a\<lparr>Summary := []\<rparr>) m"
  have n: "?n = a\<lparr>Summary := []\<rparr>"
    using assms(1) by (simp add: normalizeAction_finish)
  show fin: "finalizeActionFields ?n = ?n"
    using assms(2) by (simp add: n finalizeActionFields_def)
  have d: "decideNextAction (Parsed a m) = Inr ?n"
    using fin by simp
  have key: "action_key ?n (now i) = ''finish''"
    using assms(1) by (simp add: n action_key_def)
  have body: "reply i = Parsed a m \<and> lastAction s \<noteq> ''finish'' \<longrightarrow>
      loop_body pf i step s =
        (Return, repeat_guard ?n (now i) s,
         PrintStep step # PrintAction ?n # PrintDone [] # result_lines 0 (Results ?n))"
  proof
    assume h: "reply i = Parsed a m \<and> lastAction s \<noteq> ''finish''"
    have c: "sameActionCount (repeat_guard ?n (now i) s) = 0"
      using h key by (auto simp: repeat_guard_def Let_def)
    have "dispatch i ?n (repeat_guard ?n (now i) s) =
        (Return, repeat_guard ?n (now i) s, PrintDone [] # result_lines 0 (Results ?n))"
      using assms(1) by (simp add: dispatch_def n)
    then show "loop_body pf i step s =
        (Return, repeat_guard ?n (now i) s,
         PrintStep step # PrintAction ?n # PrintDone [] # result_lines 0 (Results ?n))"
      using h d c by (simp add: loop_body_def Let_def del: decideNextAction.simps)
  qed
  show "\<exists>act. decideNextAction (Parsed a m) = Inr act \<and> Summary act = []
          \<and> (reply i = Parsed a m \<and> lastAction s \<noteq> ''finish'' \<longrightarrow>
               loop_body pf i step s =
                 (Return, repeat_guard act (now i) s,
                  PrintStep step # PrintAction act # PrintDone [] # result_lines 0 (Results act)))"
    using d body n by (intro exI [of _ ?n]) simp
  show "\<forall>b raw. Summary b = [] \<and> SummaryRaw b = Some raw
          \<and> ((\<exists>t. raw = JStr t \<and> t \<noteq> ''Done.'') \<or> (\<exists>xs. raw = JArr xs \<and> list_all record_shaped xs))
          \<longrightarrow> Summary (finalizeActionFields b) \<noteq> ''Done.''"
  proof (intro allI impI)
    fix b :: AgentAction and raw
    assume h: "Summary b = [] \<and> SummaryRaw b = Some raw
          \<and> ((\<exists>t. raw = JStr t \<and> t \<noteq> ''Done.'') \<or> (\<exists>xs. raw = JArr xs \<and> list_all record_shaped xs))"
    then consider (str) t where "raw = JStr t" "t \<noteq> ''Done.''"
      | (arr) xs where "raw = JArr xs" "list_all record_shaped xs" by blast
    then show "Summary (finalizeActionFields b) \<noteq> ''Done.''"
    proof cases
      case str
      then show ?thesis using h by (simp add: finalizeActionFields_def)
    next
      case arr
      then obtain ys where "those (map decode_JobItem xs) = Some ys"
        using those_decode_total by blast
      then show ?thesis using h arr by (simp add: finalizeActionFields_def)
    qed
  qed
qed

text \<open>The theorem at the decision \<^verbatim>\<open>{"action":"finish"}\<close> in the first iteration of a
  run, and at a finish action with the summary \<open>ok\<close>.\<close>

theorem finish_without_summary_witness:
  "Action bare_finish = ''finish'' \<and> SummaryRaw bare_finish = None
   \<and> lastAction (init []) \<noteq> ''finish''
   \<and> fst (loop_body no_hint bare_finish_input 1 (init [])) = Return
   \<and> snd (snd (loop_body no_hint bare_finish_input 1 (init [])))
       = [PrintStep 1, PrintAction bare_finish, PrintDone []]
   \<and> Summary (finalizeActionFields (bare_finish\<lparr>SummaryRaw := Some (JStr ''ok'')\<rparr>)) \<noteq> ''Done.''"
proof -
  have 1: "Action bare_finish = ''finish''" and 2: "SummaryRaw bare_finish = None"
    by (simp_all add: bare_finish_def)
  have 3: "lastAction (init []) \<noteq> ''finish''" by (simp add: init_def)
  have 4: "reply bare_finish_input = Parsed bare_finish (Some [''action'' \<mapsto> JStr ''finish''])"
    by (simp add: bare_finish_input_def)
  have 5: "normalizeAction (bare_finish\<lparr>Summary := []\<rparr>) (Some [''action'' \<mapsto> JStr ''finish'']) = bare_finish"
    using 1 by (simp add: normalizeAction_finish bare_finish_def)
  have 6: "Summary (bare_finish\<lparr>SummaryRaw := Some (JStr ''ok'')\<rparr>) = []
     \<and> SummaryRaw (bare_finish\<lparr>SummaryRaw := Some (JStr ''ok'')\<rparr>) = Some (JStr ''ok'')"
    by (simp add: bare_finish_def)
  note t = finish_without_summary [OF 1 2, of "Some [''action'' \<mapsto> JStr ''finish'']"
      bare_finish_input "init []" no_hint 1]
  have a: "loop_body no_hint bare_finish_input 1 (init []) =
      (Return, repeat_guard bare_finish (now bare_finish_input) (init []),
       [PrintStep 1, PrintAction bare_finish, PrintDone []])"
    using t 3 4 5 by (auto simp: bare_finish_def)
  have b: "Summary (finalizeActionFields (bare_finish\<lparr>SummaryRaw := Some (JStr ''ok'')\<rparr>)) \<noteq> ''Done.''"
    using t 6 by blast
  show ?thesis using 1 2 3 a b by simp
qed

section \<open>A failed handshake\<close>

text \<open>Whatever makes the handshake fail, the start ends in a panic of \<^verbatim>\<open>main\<close> with the
  worker spawned, before any command and without a kill.\<close>

lemma failed_handshake_events:
  assumes "stdin_pipe io = None" and "stdout_pipe io = None" and "start io = None"
    and "hello io = ReadFailed e \<or> hello io = Malformed l e
         \<or> (\<exists>r. hello io = Reply r \<and> Status r \<noteq> ''ok'')"
  shows "\<exists>msg. main pf io line ins = (StartupPanic msg, [Spawned])"
  using assms by (auto simp: main_def StartPyWorker_def)

text \<open>
  C7, at the handshake line \<^verbatim>\<open>{"status":"error","message":"boom"}\<close>: the error is
  surfaced as a panic and no command is sent, but the trace ends with the worker
  spawned; \<^verbatim>\<open>StartPyWorker\<close> returns without killing it and \<^verbatim>\<open>main\<close> has not yet
  deferred \<^verbatim>\<open>Stop\<close>.
\<close>

theorem failed_handshake_leaves_worker:
  "main pf \<lparr>stdin_pipe = None, stdout_pipe = None, start = None,
            hello = Reply \<lparr>Status = ''error'', Message = ''boom'', Observation = None\<rparr>\<rparr>
        line ins
     = (StartupPanic ''worker did not start: boom'', [Spawned])"
  by (simp add: main_def StartPyWorker_def)

text \<open>After a successful handshake every way out of the loop runs the deferred
  \<^verbatim>\<open>Stop\<close>: the trace of a finished run ends with the kill.\<close>

lemma started_worker_is_killed:
  assumes "StartPyWorker io = (Inr w, ev)" and "main pf io line ins = (Exited out, evs)"
    and "out \<noteq> Unfinished"
  shows "last evs = Killed"
  using assms by (auto simp: main_def Stop_def split: prod.splits)

section \<open>Decimal printing is injective\<close>

lemma digit_inj: "m < 10 \<Longrightarrow> n < 10 \<Longrightarrow> digit m = digit n \<Longrightarrow> m = n"
proof -
  assume m: "m < 10" and n: "n < 10" and e: "digit m = digit n"
  have "of_char (digit m) = (of_char (digit n) :: nat)" using e by simp
  then have "(48 + m) mod 256 = (48 + n) mod 256" by (simp add: digit_def)
  then show "m = n" using m n by simp
qed

lemma digit_not_minus: "n < 10 \<Longrightarrow> digit n \<noteq> CHR ''-''"
proof
  assume n: "n < 10" and e: "digit n = CHR ''-''"
  have "of_char (digit n) = (of_char (CHR ''-'') :: nat)" using e by simp
  then have "(48 + n) mod 256 = 45" by (simp add: digit_def)
  then show False using n by simp
qed

lemma digits_nonempty: "digits n \<noteq> []"
  by (subst digits.simps) simp

lemma digits_length: "length (digits n) = 1 \<longleftrightarrow> n < 10"
  using digits_nonempty [of "n div 10"] by (subst digits.simps) (auto simp: Suc_le_eq)

lemma hd_digits_not_minus: "hd (digits n) \<noteq> CHR ''-''"
proof (induction n rule: digits.induct)
  case (1 n)
  show ?case
  proof (cases "n < 10")
    case True
    then show ?thesis by (subst digits.simps) (simp add: digit_not_minus)
  next
    case False
    then show ?thesis
      using 1 digits_nonempty [of "n div 10"] by (subst digits.simps) simp
  qed
qed

lemma digits_inj: "digits m = digits n \<Longrightarrow> m = n"
proof (induction m arbitrary: n rule: digits.induct)
  case (1 m)
  show ?case
  proof (cases "m < 10")
    case True
    then have "length (digits n) = 1" using 1(2) digits_length [of m] by simp
    then have n: "n < 10" using digits_length by simp
    then have "digit m = digit n"
      using True 1(2) by (simp add: digits.simps [of m] digits.simps [of n])
    then show ?thesis using True n digit_inj by blast
  next
    case False
    then have "length (digits n) \<noteq> 1" using 1(2) digits_length [of m] by simp
    then have n: "\<not> n < 10" using digits_length by simp
    then have "digits (m div 10) @ [digit (m mod 10)] = digits (n div 10) @ [digit (n mod 10)]"
      using False 1(2) by (simp add: digits.simps [of m] digits.simps [of n])
    then have "digits (m div 10) = digits (n div 10)" and "digit (m mod 10) = digit (n mod 10)"
      by simp_all
    then have "m div 10 = n div 10" and "m mod 10 = n mod 10"
      using 1(1) [OF False] digit_inj [of "m mod 10" "n mod 10"] by simp_all
    then show ?thesis by (metis div_mult_mod_eq)
  qed
qed

lemma Sprint_inj: "Sprint i = Sprint j \<Longrightarrow> i = j"
proof -
  assume e: "Sprint i = Sprint j"
  show "i = j"
  proof (cases "i < 0"; cases "j < 0")
    assume "i < 0" "j < 0"
    then show ?thesis using e digits_inj [of "nat (- i)" "nat (- j)"] by (simp add: Sprint_def)
  next
    assume "i < 0" "\<not> j < 0"
    then have "hd (digits (nat j)) = CHR ''-''" using e by (simp add: Sprint_def) (metis list.sel(1))
    then show ?thesis using hd_digits_not_minus by blast
  next
    assume "\<not> i < 0" "j < 0"
    then have "hd (digits (nat i)) = CHR ''-''" using e by (simp add: Sprint_def)
    then show ?thesis using hd_digits_not_minus by blast
  next
    assume "\<not> i < 0" "\<not> j < 0"
    then show ?thesis using e digits_inj [of "nat i" "nat j"] by (simp add: Sprint_def)
  qed
qed

section \<open>What the branches of the loop leave alone\<close>

lemma listing_lines_kind: "e \<in> set (listing_lines k ls) \<Longrightarrow> \<exists>n t c. e = PrintListing n t c"
  by (induction k ls rule: listing_lines.induct) auto

lemma result_lines_kind: "e \<in> set (result_lines k rs) \<Longrightarrow> \<exists>n t c. e = PrintResult n t c"
  by (induction k rs rule: result_lines.induct) auto

lemma mark_search_frame:
  "lastAction (mark_search s) = lastAction s
   \<and> sameActionCount (mark_search s) = sameActionCount s"
  by (simp add: mark_search_def Let_def split: option.splits)

lemma autocollect_frame:
  assumes "autocollect s = Inr (r, s1, ev)"
  shows "lastAction s1 = lastAction s \<and> sameActionCount s1 = sameActionCount s
    \<and> PrintRepeated \<notin> set ev"
  using assms
  by (auto simp: autocollect_def Let_def dest: listing_lines_kind
           split: if_splits option.splits sum.splits)

lemma fallback_frame:
  assumes "fallback s = (s2, ev)"
  shows "lastAction s2 = lastAction s \<and> sameActionCount s2 = sameActionCount s
    \<and> PrintRepeated \<notin> set ev"
  using assms by (auto simp: fallback_def Let_def split: if_splits option.splits)

lemma post_process_frame:
  assumes "post_process s = (c, s', ev)"
  shows "lastAction s' = lastAction s \<and> sameActionCount s' = sameActionCount s
    \<and> PrintRepeated \<notin> set ev \<and> c \<noteq> Retry \<and> c \<noteq> Break"
proof (cases "autocollect (mark_search s)")
  case (Inl p)
  then show ?thesis using assms mark_search_frame [of s] by (auto simp: post_process_def)
next
  case (Inr x)
  obtain r s1 ev1 where x: "x = (r, s1, ev1)" by (cases x) auto
  have a: "lastAction s1 = lastAction s \<and> sameActionCount s1 = sameActionCount s
      \<and> PrintRepeated \<notin> set ev1"
    using autocollect_frame [of "mark_search s" r s1 ev1] Inr x mark_search_frame [of s] by simp
  obtain s2 ev2 where f: "fallback s1 = (s2, ev2)" by (cases "fallback s1") auto
  show ?thesis
    using assms Inr x f a fallback_frame [OF f] by (auto simp: post_process_def split: if_splits)
qed

lemma tool_step_frame:
  assumes "tool_step i a s = (c, s', ev)"
  shows "lastAction s' = lastAction s \<and> sameActionCount s' = sameActionCount s
    \<and> PrintRepeated \<notin> set ev \<and> c \<noteq> Retry \<and> c \<noteq> Break"
proof (cases "Tool a = []")
  case True
  then show ?thesis using assms by (auto simp: tool_step_def)
next
  case False
  let ?args = "case Arguments a of None \<Rightarrow> Map.empty | Some m \<Rightarrow> m"
  show ?thesis
  proof (cases "Send (Tool a) ?args (tool_io i)")
    case (Inl e)
    then show ?thesis using assms False by (auto simp: tool_step_def Let_def)
  next
    case (Inr resp)
    show ?thesis
    proof (cases "Status resp = ''error''")
      case True
      then show ?thesis using assms False Inr by (auto simp: tool_step_def Let_def)
    next
      case ok: False
      let ?s1 = "stagnation (Observation resp) s"
      have st: "lastAction ?s1 = lastAction s \<and> sameActionCount ?s1 = sameActionCount s"
        by (simp add: stagnation_def Let_def)
      show ?thesis
      proof (cases "stagnantCount ?s1 \<ge> 2")
        case True
        then show ?thesis using assms False Inr ok st by (auto simp: tool_step_def Let_def)
      next
        case no: False
        obtain c2 s2 ev2 where p: "post_process ?s1 = (c2, s2, ev2)"
          by (cases "post_process ?s1") auto
        have "tool_step i a s = (c2, s2, Command (Tool a) ?args # ev2)"
          using False Inr ok no p by (simp add: tool_step_def Let_def)
        then show ?thesis using assms post_process_frame [OF p] st by auto
      qed
    qed
  qed
qed

lemma dispatch_frame:
  assumes "dispatch i a s = (c, s', ev)"
  shows "lastAction s' = lastAction s \<and> sameActionCount s' = sameActionCount s
    \<and> PrintRepeated \<notin> set ev \<and> c \<noteq> Retry \<and> c \<noteq> Break"
  using assms tool_step_frame [of i a s c s' ev]
  by (auto simp: dispatch_def split: if_splits dest: result_lines_kind)

lemma loop_body_guard:
  assumes "decideNextAction (reply i) = Inr a" and "loop_body pf i n s = (c, s', ev)"
  shows "lastAction s' = action_key a (now i)"
    and "sameActionCount s' =
           (if action_key a (now i) = lastAction s then sameActionCount s + 1 else 0)"
    and "sameActionCount s' < 2 \<Longrightarrow> PrintRepeated \<notin> set ev"
proof -
  let ?g = "repeat_guard a (now i) s"
  have g: "lastAction ?g = action_key a (now i)
      \<and> sameActionCount ?g = (if action_key a (now i) = lastAction s then sameActionCount s + 1 else 0)"
    by (simp add: repeat_guard_def Let_def)
  obtain c2 s2 ev2 where d: "dispatch i a ?g = (c2, s2, ev2)"
    by (cases "dispatch i a ?g") auto
  have all: "lastAction s' = action_key a (now i)
      \<and> sameActionCount s' = (if action_key a (now i) = lastAction s then sameActionCount s + 1 else 0)
      \<and> (sameActionCount s' < 2 \<longrightarrow> PrintRepeated \<notin> set ev)"
  proof (cases "sameActionCount ?g \<ge> 2")
    case True
    then have "loop_body pf i n s = (Break, ?g, [PrintStep n, PrintAction a, PrintRepeated])"
      using assms(1) by (simp add: loop_body_def Let_def)
    then show ?thesis using assms(2) g True by auto
  next
    case False
    then have "loop_body pf i n s = (c2, s2, PrintStep n # PrintAction a # ev2)"
      using assms(1) d by (simp add: loop_body_def Let_def)
    then show ?thesis using assms(2) g dispatch_frame [OF d] by auto
  qed
  show "lastAction s' = action_key a (now i)" using all by blast
  show "sameActionCount s' =
           (if action_key a (now i) = lastAction s then sameActionCount s + 1 else 0)"
    using all by blast
  show "sameActionCount s' < 2 \<Longrightarrow> PrintRepeated \<notin> set ev" using all by blast
qed

lemma post_process_stagnation_frame:
  assumes "post_process s = (c, s', ev)"
  shows "lastObsSig s' = lastObsSig s \<and> stagnantCount s' = stagnantCount s"
proof -
  have m: "lastObsSig (mark_search s) = lastObsSig s
      \<and> stagnantCount (mark_search s) = stagnantCount s"
    by (simp add: mark_search_def Let_def split: option.splits)
  show ?thesis
  proof (cases "autocollect (mark_search s)")
    case (Inl p)
    then show ?thesis using assms m by (auto simp: post_process_def)
  next
    case (Inr x)
    obtain r s1 ev1 where x: "x = (r, s1, ev1)" by (cases x) auto
    have a: "lastObsSig s1 = lastObsSig s \<and> stagnantCount s1 = stagnantCount s"
      using Inr x m
      by (auto simp: autocollect_def Let_def split: if_splits option.splits sum.splits)
    obtain s2 ev2 where f: "fallback s1 = (s2, ev2)" by (cases "fallback s1") auto
    have "lastObsSig s2 = lastObsSig s1 \<and> stagnantCount s2 = stagnantCount s1"
      using f by (auto simp: fallback_def Let_def split: if_splits option.splits)
    then show ?thesis
      using assms Inr x f a by (auto simp: post_process_def split: if_splits)
  qed
qed

section \<open>The states of a run\<close>

text \<open>The two streaks are never negative and the last action key is never \<open>finish\<close>:
  this holds at the start of a run and after every iteration that lets the loop go
  on.\<close>

lemma init_state:
  "0 \<le> sameActionCount (init t) \<and> 0 \<le> stagnantCount (init t) \<and> lastAction (init t) \<noteq> ''finish''"
  by (simp add: init_def)

lemma tool_step_streak:
  assumes "0 \<le> stagnantCount s" and "tool_step i a s = (c, s', ev)"
  shows "0 \<le> stagnantCount s'"
proof (cases "Tool a = []")
  case True
  then show ?thesis using assms by (auto simp: tool_step_def)
next
  case False
  let ?args = "case Arguments a of None \<Rightarrow> Map.empty | Some m \<Rightarrow> m"
  show ?thesis
  proof (cases "Send (Tool a) ?args (tool_io i)")
    case (Inl e)
    then show ?thesis using assms False by (auto simp: tool_step_def Let_def)
  next
    case (Inr resp)
    show ?thesis
    proof (cases "Status resp = ''error''")
      case True
      then show ?thesis using assms False Inr by (auto simp: tool_step_def Let_def)
    next
      case ok: False
      let ?s1 = "stagnation (Observation resp) s"
      have st: "0 \<le> stagnantCount ?s1"
        using assms(1) by (simp add: stagnation_def Let_def)
      obtain c2 s2 ev2 where p: "post_process ?s1 = (c2, s2, ev2)"
        by (cases "post_process ?s1") auto
      have "s' = (if stagnantCount ?s1 \<ge> 2 then ?s1 else s2)"
        using assms(2) False Inr ok p by (simp add: tool_step_def Let_def split: if_splits)
      then show ?thesis using st post_process_stagnation_frame [OF p] by (simp split: if_splits)
    qed
  qed
qed

lemma loop_body_state:
  assumes "0 \<le> sameActionCount s" and "0 \<le> stagnantCount s" and "lastAction s \<noteq> ''finish''"
    and "loop_body pf i n s = (c, s', ev)" and "c = Next \<or> c = Retry"
  shows "0 \<le> sameActionCount s' \<and> 0 \<le> stagnantCount s' \<and> lastAction s' \<noteq> ''finish''"
proof (cases "decideNextAction (reply i)")
  case (Inl msg)
  then have "s' = s" using assms(4) by (auto simp: loop_body_def Let_def split: if_splits)
  then show ?thesis using assms(1-3) by simp
next
  case (Inr a)
  let ?g = "repeat_guard a (now i) s"
  have g: "stagnantCount ?g = stagnantCount s" by (simp add: repeat_guard_def Let_def)
  have same: "0 \<le> sameActionCount s'"
    using loop_body_guard(2) [OF Inr assms(4)] assms(1) by simp
  have low: "\<not> sameActionCount ?g \<ge> 2"
    using Inr assms(4,5) by (auto simp: loop_body_def Let_def split: if_splits)
  obtain c2 s2 ev2 where d: "dispatch i a ?g = (c2, s2, ev2)"
    by (cases "dispatch i a ?g") auto
  have cs: "c = c2" "s' = s2"
    using Inr assms(4) low d by (simp_all add: loop_body_def Let_def)
  have nofinish: "Action a \<noteq> ''finish''"
    using d cs(1) assms(5) by (auto simp: dispatch_def)
  have "action_key a (now i) \<noteq> ''finish''"
    using nofinish by (simp add: action_key_def Let_def)
  then have last: "lastAction s' \<noteq> ''finish''"
    using loop_body_guard(1) [OF Inr assms(4)] by simp
  have "0 \<le> stagnantCount s2"
  proof (cases "Action a = ''tool''")
    case True
    then have "tool_step i a ?g = (c2, s2, ev2)" using d by (simp add: dispatch_def)
    then show ?thesis using tool_step_streak [of ?g i a c2 s2 ev2] assms(2) g by simp
  next
    case False
    then show ?thesis using d nofinish assms(2) g by (auto simp: dispatch_def split: if_splits)
  qed
  then show ?thesis using same last cs by simp
qed

section \<open>The repeat guard\<close>

lemma action_key_tool:
  "Action a = ''tool'' \<Longrightarrow> Tool a \<noteq> ''scroll'' \<Longrightarrow> action_key a t = ''tool:'' @ Tool a"
  by (simp add: action_key_def)

lemma action_key_scroll:
  "Action a = ''tool'' \<Longrightarrow> Tool a = ''scroll'' \<Longrightarrow> action_key a t = ''tool:scroll:'' @ Sprint t"
  by (simp add: action_key_def)

lemma scroll_run_never_trips:
  assumes "\<forall>i\<in>set ins. \<exists>a. decideNextAction (reply i) = Inr a \<and> Action a = ''tool''
              \<and> Tool a = ''scroll''"
    and "distinct_adj (map now ins)"
    and "ins \<noteq> [] \<longrightarrow> lastAction s \<noteq> ''tool:scroll:'' @ Sprint (now (hd ins))"
  shows "PrintRepeated \<notin> set (snd (snd (run pf ins step s)))"
  using assms
proof (induction ins arbitrary: step s)
  case Nil
  then show ?case by simp
next
  case (Cons i rest)
  obtain a where a: "decideNextAction (reply i) = Inr a" "Action a = ''tool''" "Tool a = ''scroll''"
    using Cons.prems(1) by auto
  have key: "action_key a (now i) = ''tool:scroll:'' @ Sprint (now i)"
    using a by (simp add: action_key_scroll)
  obtain c s1 ev where b: "loop_body pf i step s = (c, s1, ev)"
    by (cases "loop_body pf i step s") auto
  have fresh: "action_key a (now i) \<noteq> lastAction s"
    using Cons.prems(3) key by auto
  have l: "lastAction s1 = ''tool:scroll:'' @ Sprint (now i)"
    using loop_body_guard(1) [OF a(1) b] key by simp
  have "sameActionCount s1 = 0"
    using loop_body_guard(2) [OF a(1) b] fresh by simp
  then have ev: "PrintRepeated \<notin> set ev"
    using loop_body_guard(3) [OF a(1) b] by simp
  have next_fresh: "rest \<noteq> [] \<longrightarrow> lastAction s1 \<noteq> ''tool:scroll:'' @ Sprint (now (hd rest))"
  proof
    assume "rest \<noteq> []"
    then obtain j more where r: "rest = j # more" by (cases rest) auto
    then have "now i \<noteq> now j" using Cons.prems(2) by simp
    then have "Sprint (now i) \<noteq> Sprint (now j)" using Sprint_inj by blast
    then show "lastAction s1 \<noteq> ''tool:scroll:'' @ Sprint (now (hd rest))"
      using l r by simp
  qed
  have rest_scroll: "\<forall>i\<in>set rest. \<exists>a. decideNextAction (reply i) = Inr a \<and> Action a = ''tool''
              \<and> Tool a = ''scroll''"
    using Cons.prems(1) by simp
  have rest_adj: "distinct_adj (map now rest)"
    using Cons.prems(2) by (cases rest) simp_all
  have ih: "\<And>n. PrintRepeated \<notin> set (snd (snd (run pf rest n s1)))"
    using Cons.IH [OF rest_scroll rest_adj next_fresh] .
  show ?case
  proof (cases "step \<le> MaxSteps")
    case False
    then show ?thesis by simp
  next
    case True
    show ?thesis
    proof (cases c)
      case Next
      then show ?thesis
        using True b ev ih [of "step + 1"] by (auto split: prod.splits)
    next
      case Retry
      then show ?thesis
        using True b ev ih [of "step - 1 + 1"] by (auto split: prod.splits)
    next
      case Break
      then show ?thesis using True b ev by simp
    next
      case Return
      then show ?thesis using True b ev by simp
    next
      case (Panic p)
      then show ?thesis using True b ev by simp
    qed
  qed
qed

text \<open>
  C1. Three consecutive decisions for the same tool other than \<open>scroll\<close>, whatever
  their arguments: from a state of the loop (the streak counter is never negative
  there) the third iteration stops the run with the repeated-action message, after the
  trace line of the action and before any command; when the streak starts with the
  first of the three, the first two iterations do not stop on it. A run whose decisions
  are all scrolls never prints the repeated-action message, however long it is: the
  key of a scroll carries the reading of the clock, and the readings of two
  consecutive iterations differ.
\<close>

theorem repeat_guard_third_occurrence:
  "(decideNextAction (reply i1) = Inr a1 \<and> decideNextAction (reply i2) = Inr a2
      \<and> decideNextAction (reply i3) = Inr a3
      \<and> Action a1 = ''tool'' \<and> Action a2 = ''tool'' \<and> Action a3 = ''tool''
      \<and> Tool a1 = t \<and> Tool a2 = t \<and> Tool a3 = t \<and> t \<noteq> ''scroll''
      \<and> 0 \<le> sameActionCount s
      \<and> loop_body pf i1 n1 s = (c1, s1, e1) \<and> loop_body pf i2 n2 s1 = (c2, s2, e2)
     \<longrightarrow> loop_body pf i3 n3 s2 =
           (Break, repeat_guard a3 (now i3) s2, [PrintStep n3, PrintAction a3, PrintRepeated])
         \<and> (n3 \<le> MaxSteps \<longrightarrow>
              run pf (i3 # rest) n3 s2 =
                (Halted, repeat_guard a3 (now i3) s2,
                 [PrintStep n3, PrintAction a3, PrintRepeated, PrintStopped]))
         \<and> (lastAction s \<noteq> ''tool:'' @ t \<longrightarrow>
              PrintRepeated \<notin> set e1 \<and> PrintRepeated \<notin> set e2))
   \<and> ((\<forall>i\<in>set ins. \<exists>a. decideNextAction (reply i) = Inr a \<and> Action a = ''tool''
            \<and> Tool a = ''scroll'')
        \<and> distinct_adj (map now ins)
       \<longrightarrow> PrintRepeated \<notin> set (snd (snd (run pf ins 1 (init line)))))"
proof (intro conjI impI)
  assume h: "decideNextAction (reply i1) = Inr a1 \<and> decideNextAction (reply i2) = Inr a2
      \<and> decideNextAction (reply i3) = Inr a3
      \<and> Action a1 = ''tool'' \<and> Action a2 = ''tool'' \<and> Action a3 = ''tool''
      \<and> Tool a1 = t \<and> Tool a2 = t \<and> Tool a3 = t \<and> t \<noteq> ''scroll''
      \<and> 0 \<le> sameActionCount s
      \<and> loop_body pf i1 n1 s = (c1, s1, e1) \<and> loop_body pf i2 n2 s1 = (c2, s2, e2)"
  then have d1: "decideNextAction (reply i1) = Inr a1" and d2: "decideNextAction (reply i2) = Inr a2"
    and d3: "decideNextAction (reply i3) = Inr a3"
    and b1: "loop_body pf i1 n1 s = (c1, s1, e1)" and b2: "loop_body pf i2 n2 s1 = (c2, s2, e2)"
    and nonneg: "0 \<le> sameActionCount s"
    by simp_all
  have k1: "action_key a1 (now i1) = ''tool:'' @ t" and k2: "action_key a2 (now i2) = ''tool:'' @ t"
    and k3: "action_key a3 (now i3) = ''tool:'' @ t"
    using h by (simp_all add: action_key_tool)
  have l1: "lastAction s1 = ''tool:'' @ t" using loop_body_guard(1) [OF d1 b1] k1 by simp
  have c1: "0 \<le> sameActionCount s1" using loop_body_guard(2) [OF d1 b1] nonneg by simp
  have l2: "lastAction s2 = ''tool:'' @ t" using loop_body_guard(1) [OF d2 b2] k2 by simp
  have c2: "1 \<le> sameActionCount s2" using loop_body_guard(2) [OF d2 b2] k2 l1 c1 by simp
  have g3: "sameActionCount (repeat_guard a3 (now i3) s2) \<ge> 2"
    using k3 l2 c2 by (simp add: repeat_guard_def Let_def)
  show body3: "loop_body pf i3 n3 s2 =
      (Break, repeat_guard a3 (now i3) s2, [PrintStep n3, PrintAction a3, PrintRepeated])"
    using d3 g3 by (simp add: loop_body_def Let_def)
  show "run pf (i3 # rest) n3 s2 =
      (Halted, repeat_guard a3 (now i3) s2,
       [PrintStep n3, PrintAction a3, PrintRepeated, PrintStopped])"
    if "n3 \<le> MaxSteps"
    using that body3 by simp
  {
    assume fresh: "lastAction s \<noteq> ''tool:'' @ t"
    have "sameActionCount s1 = 0" using loop_body_guard(2) [OF d1 b1] k1 fresh by simp
    then show "PrintRepeated \<notin> set e1" using loop_body_guard(3) [OF d1 b1] by simp
    have "sameActionCount s2 = 1"
      using loop_body_guard(2) [OF d2 b2] k2 l1 \<open>sameActionCount s1 = 0\<close> by simp
    then show "PrintRepeated \<notin> set e2" using loop_body_guard(3) [OF d2 b2] by simp
  }
next
  assume h: "(\<forall>i\<in>set ins. \<exists>a. decideNextAction (reply i) = Inr a \<and> Action a = ''tool''
            \<and> Tool a = ''scroll'')
        \<and> distinct_adj (map now ins)"
  have "ins \<noteq> [] \<longrightarrow> lastAction (init line) \<noteq> ''tool:scroll:'' @ Sprint (now (hd ins))"
    by (simp add: init_def)
  then show "PrintRepeated \<notin> set (snd (snd (run pf ins 1 (init line))))"
    using h scroll_run_never_trips by blast
qed

lemma decide_tool_input:
  "decideNextAction (reply (tool_input t clock)) = Inr (tool_call t)"
  by (simp add: tool_input_def tool_call_def normalizeAction_def implicit_tool_def
      finalizeActionFields_def toolNames_def Let_def)

text \<open>The theorem at three clicks from the start of a run, each failing at the closed
  pipe, and at three scrolls at the clock readings 1, 2 and 3.\<close>

theorem repeat_guard_third_occurrence_witness:
  "decideNextAction (reply (tool_input ''click'' 0)) = Inr (tool_call ''click'')
   \<and> Action (tool_call ''click'') = ''tool'' \<and> Tool (tool_call ''click'') = ''click''
   \<and> ''click'' \<noteq> ''scroll'' \<and> 0 \<le> sameActionCount (init [])
   \<and> lastAction (init []) \<noteq> ''tool:'' @ ''click''
   \<and> snd (snd (run no_hint
        [tool_input ''click'' 0, tool_input ''click'' 0, tool_input ''click'' 0] 1 (init [])))
      = [PrintStep 1, PrintAction (tool_call ''click''),
           Command ''click'' [''id'' \<mapsto> JStr ''x''], PrintSendError ''closed'',
         PrintStep 2, PrintAction (tool_call ''click''),
           Command ''click'' [''id'' \<mapsto> JStr ''x''], PrintSendError ''closed'',
         PrintStep 3, PrintAction (tool_call ''click''), PrintRepeated, PrintStopped]
   \<and> list_all (\<lambda>i. \<exists>a. decideNextAction (reply i) = Inr a \<and> Action a = ''tool''
                       \<and> Tool a = ''scroll'')
         [tool_input ''scroll'' 1, tool_input ''scroll'' 2, tool_input ''scroll'' 3]
   \<and> distinct_adj (map now [tool_input ''scroll'' 1, tool_input ''scroll'' 2, tool_input ''scroll'' 3])
   \<and> PrintRepeated \<notin> set (snd (snd (run no_hint
        [tool_input ''scroll'' 1, tool_input ''scroll'' 2, tool_input ''scroll'' 3] 1 (init []))))"
proof -
  let ?i = "tool_input ''click'' 0"
  let ?a = "tool_call ''click''"
  let ?ins = "[tool_input ''scroll'' 1, tool_input ''scroll'' 2, tool_input ''scroll'' 3]"
  have d: "decideNextAction (reply ?i) = Inr ?a" by (simp add: decide_tool_input)
  have a: "Action ?a = ''tool''" "Tool ?a = ''click''"
    "Arguments ?a = Some [''id'' \<mapsto> JStr ''x'']" by (simp_all add: tool_call_def)
  have io: "tool_io ?i = WriteFailed ''closed''" "now ?i = 0" by (simp_all add: tool_input_def)
  have k: "action_key ?a 0 = ''tool:click''" using a by (simp add: action_key_def)
  define s1 where "s1 = (init [])\<lparr>sameActionCount := 0, lastAction := ''tool:click''\<rparr>"
  define s2 where "s2 = s1\<lparr>sameActionCount := 1, lastAction := ''tool:click''\<rparr>"
  have ts: "\<And>s. tool_step ?i ?a s =
      (Next, s, [Command ''click'' [''id'' \<mapsto> JStr ''x''], PrintSendError ''closed''])"
    using a io by (simp add: tool_step_def Let_def)
  have ds: "\<And>s. dispatch ?i ?a s =
      (Next, s, [Command ''click'' [''id'' \<mapsto> JStr ''x''], PrintSendError ''closed''])"
    using a ts by (simp add: dispatch_def)
  have b1: "loop_body no_hint ?i 1 (init []) =
      (Next, s1, [PrintStep 1, PrintAction ?a,
                  Command ''click'' [''id'' \<mapsto> JStr ''x''], PrintSendError ''closed''])"
    using d k io ds by (simp add: loop_body_def Let_def repeat_guard_def init_def s1_def)
  have b2: "loop_body no_hint ?i 2 s1 =
      (Next, s2, [PrintStep 2, PrintAction ?a,
                  Command ''click'' [''id'' \<mapsto> JStr ''x''], PrintSendError ''closed''])"
    using d k io ds by (simp add: loop_body_def Let_def repeat_guard_def s1_def s2_def)
  have nn: "0 \<le> sameActionCount (init [])" and fresh: "lastAction (init []) \<noteq> ''tool:'' @ ''click''"
    by (simp_all add: init_def)
  note t = repeat_guard_third_occurrence [of ?i ?a ?i ?a ?i ?a "''click''" "init []"
      no_hint 1 Next s1 _ 2 Next s2 _ 3 "[]" ?ins "[]"]
  have r3: "run no_hint [?i] 3 s2 =
      (Halted, repeat_guard ?a (now ?i) s2, [PrintStep 3, PrintAction ?a, PrintRepeated, PrintStopped])"
    using t d a nn b1 b2 by (simp add: MaxSteps_def)
  have run3: "snd (snd (run no_hint [?i, ?i, ?i] 1 (init []))) =
      [PrintStep 1, PrintAction ?a,
           Command ''click'' [''id'' \<mapsto> JStr ''x''], PrintSendError ''closed'',
         PrintStep 2, PrintAction ?a,
           Command ''click'' [''id'' \<mapsto> JStr ''x''], PrintSendError ''closed'',
         PrintStep 3, PrintAction ?a, PrintRepeated, PrintStopped]"
    using b1 b2 r3 by (simp add: MaxSteps_def)
  have sc: "\<forall>i\<in>set ?ins. \<exists>a. decideNextAction (reply i) = Inr a \<and> Action a = ''tool''
      \<and> Tool a = ''scroll''"
    by (simp add: decide_tool_input tool_call_def)
  have adj: "distinct_adj (map now ?ins)" by (simp add: tool_input_def)
  have "PrintRepeated \<notin> set (snd (snd (run no_hint ?ins 1 (init []))))"
    using t sc adj by blast
  moreover have "list_all (\<lambda>i. \<exists>a. decideNextAction (reply i) = Inr a \<and> Action a = ''tool''
      \<and> Tool a = ''scroll'') ?ins"
    using sc by (simp only: list_all_iff)
  ultimately show ?thesis using d a nn fresh run3 adj by simp
qed

section \<open>Rate limits\<close>










section \<open>A failed tool call\<close>

text \<open>
  C8. An iteration whose tool call is dispatched (the action is a tool call with a tool
  name and the repeat guard lets it through) and fails, because \<^verbatim>\<open>Send\<close> returns an
  error or the response has the status \<open>error\<close>: the only variables that change are the
  two of the repeat guard. The observation, the signature and the streak of the
  stagnation guard and the three flags of the post-processing are the ones before; the
  trace has the command and the error message and nothing after; the loop goes on with
  the next step index.
\<close>

theorem failed_tool_call_keeps_observation:
  assumes "decideNextAction (reply i) = Inr a"
    and "Action a = ''tool''" and "Tool a \<noteq> []"
    and "sameActionCount (repeat_guard a (now i) s) < 2"
    and "args = (case Arguments a of None \<Rightarrow> Map.empty | Some m \<Rightarrow> m)"
    and "(\<exists>e. Send (Tool a) args (tool_io i) = Inl e \<and> msg = PrintSendError e)
         \<or> (\<exists>r. Send (Tool a) args (tool_io i) = Inr r \<and> Status r = ''error''
                \<and> msg = PrintWorkerError (Message r))"
  shows "loop_body pf i step s =
           (Next, repeat_guard a (now i) s,
            [PrintStep step, PrintAction a, Command (Tool a) args, msg])
    \<and> observation (repeat_guard a (now i) s) = observation s
    \<and> lastObsSig (repeat_guard a (now i) s) = lastObsSig s
    \<and> stagnantCount (repeat_guard a (now i) s) = stagnantCount s
    \<and> searchSubmitted (repeat_guard a (now i) s) = searchSubmitted s
    \<and> printedListings (repeat_guard a (now i) s) = printedListings s
    \<and> switchedToMoscow (repeat_guard a (now i) s) = switchedToMoscow s
    \<and> task (repeat_guard a (now i) s) = task s
    \<and> (step \<le> MaxSteps \<longrightarrow>
         run pf (i # rest) step s =
           (case run pf rest (step + 1) (repeat_guard a (now i) s) of
              (out, s2, evs) \<Rightarrow>
                (out, s2, [PrintStep step, PrintAction a, Command (Tool a) args, msg] @ evs)))"
proof -
  let ?g = "repeat_guard a (now i) s"
  have ts: "tool_step i a ?g = (Next, ?g, [Command (Tool a) args, msg])"
    using assms(3,5,6) by (auto simp: tool_step_def Let_def)
  have ds: "dispatch i a ?g = (Next, ?g, [Command (Tool a) args, msg])"
    using assms(2) ts by (simp add: dispatch_def)
  have b: "loop_body pf i step s =
      (Next, ?g, [PrintStep step, PrintAction a, Command (Tool a) args, msg])"
    using assms(1,4) ds by (simp add: loop_body_def Let_def)
  have frame: "observation ?g = observation s \<and> lastObsSig ?g = lastObsSig s
      \<and> stagnantCount ?g = stagnantCount s \<and> searchSubmitted ?g = searchSubmitted s
      \<and> printedListings ?g = printedListings s \<and> switchedToMoscow ?g = switchedToMoscow s
      \<and> task ?g = task s"
    by (simp add: repeat_guard_def Let_def)
  have r: "step \<le> MaxSteps \<longrightarrow>
      run pf (i # rest) step s =
        (case run pf rest (step + 1) ?g of
           (out, s2, evs) \<Rightarrow>
             (out, s2, [PrintStep step, PrintAction a, Command (Tool a) args, msg] @ evs))"
    using b by (simp split: prod.splits)
  show ?thesis using b frame r by blast
qed

text \<open>The theorem at a click while the page \<open>hh\<close> is the observation: once with the
  pipe closed, once answered by an error response that carries another observation.\<close>

theorem failed_tool_call_keeps_observation_witness:
  "decideNextAction (reply (tool_input ''click'' 0)) = Inr (tool_call ''click'')
   \<and> decideNextAction (reply refused_input) = Inr (tool_call ''click'')
   \<and> Action (tool_call ''click'') = ''tool'' \<and> Tool (tool_call ''click'') \<noteq> []
   \<and> sameActionCount (repeat_guard (tool_call ''click'') 0 on_page) < 2
   \<and> Send ''click'' [''id'' \<mapsto> JStr ''x''] (tool_io (tool_input ''click'' 0)) = Inl ''closed''
   \<and> loop_body no_hint (tool_input ''click'' 0) 1 on_page =
        (Next, repeat_guard (tool_call ''click'') 0 on_page,
         [PrintStep 1, PrintAction (tool_call ''click''),
          Command ''click'' [''id'' \<mapsto> JStr ''x''], PrintSendError ''closed''])
   \<and> loop_body no_hint refused_input 1 on_page =
        (Next, repeat_guard (tool_call ''click'') 0 on_page,
         [PrintStep 1, PrintAction (tool_call ''click''),
          Command ''click'' [''id'' \<mapsto> JStr ''x''], PrintWorkerError ''no such element''])
   \<and> observation (repeat_guard (tool_call ''click'') 0 on_page) = Some (page ''hh'')"
proof -
  let ?a = "tool_call ''click''"
  let ?args = "[''id'' \<mapsto> JStr ''x'']"
  have d1: "decideNextAction (reply (tool_input ''click'' 0)) = Inr ?a"
    by (rule decide_tool_input)
  have d2: "decideNextAction (reply refused_input) = Inr ?a"
    using decide_tool_input [of "''click''" 0] by (simp add: refused_input_def)
  have a: "Action ?a = ''tool''" "Tool ?a \<noteq> []" "Tool ?a = ''click''"
    by (simp_all add: tool_call_def)
  have g: "sameActionCount (repeat_guard ?a 0 on_page) < 2"
    by (simp add: repeat_guard_def Let_def on_page_def init_def)
  have n: "now (tool_input ''click'' 0) = 0" "now refused_input = 0"
    by (simp_all add: tool_input_def refused_input_def)
  have args: "?args = (case Arguments ?a of None \<Rightarrow> Map.empty | Some m \<Rightarrow> m)"
    by (simp add: tool_call_def)
  have s1: "Send ''click'' ?args (tool_io (tool_input ''click'' 0)) = Inl ''closed''"
    by (simp add: tool_input_def)
  have s2: "Send ''click'' ?args (tool_io refused_input) =
      Inr \<lparr>Status = ''error'', Message = ''no such element'', Observation = Some (page ''other'')\<rparr>"
    by (simp add: refused_input_def)
  have f1: "(\<exists>e. Send (Tool ?a) ?args (tool_io (tool_input ''click'' 0)) = Inl e
              \<and> PrintSendError ''closed'' = PrintSendError e)
         \<or> (\<exists>r. Send (Tool ?a) ?args (tool_io (tool_input ''click'' 0)) = Inr r
                \<and> Status r = ''error'' \<and> PrintSendError ''closed'' = PrintWorkerError (Message r))"
    using s1 a(3) by simp
  have f2: "(\<exists>e. Send (Tool ?a) ?args (tool_io refused_input) = Inl e
              \<and> PrintWorkerError ''no such element'' = PrintSendError e)
         \<or> (\<exists>r. Send (Tool ?a) ?args (tool_io refused_input) = Inr r \<and> Status r = ''error''
                \<and> PrintWorkerError ''no such element'' = PrintWorkerError (Message r))"
    using s2 a(3) by simp
  have g1: "sameActionCount (repeat_guard ?a (now (tool_input ''click'' 0)) on_page) < 2"
    and g2: "sameActionCount (repeat_guard ?a (now refused_input) on_page) < 2"
    using g n by simp_all
  note t1 = failed_tool_call_keeps_observation [OF d1 a(1) a(2) g1 args f1, of no_hint 1 "[]"]
  note t2 = failed_tool_call_keeps_observation [OF d2 a(1) a(2) g2 args f2, of no_hint 1 "[]"]
  have o: "observation on_page = Some (page ''hh'')" by (simp add: on_page_def)
  show ?thesis
    using t1 t2 d1 d2 a(1,2) g s1 n a(3) o by simp
qed

section \<open>The stagnation guard\<close>

lemma successful_call_streak:
  assumes "tool_call_succeeds i s a r" and "loop_body pf i n s = (c, s', ev)"
  shows "lastObsSig s' = obsSignature (Observation r)
    \<and> stagnantCount s' =
        (if obsSignature (Observation r) = lastObsSig s then stagnantCount s + 1 else 0)"
proof -
  let ?g = "repeat_guard a (now i) s"
  let ?s1 = "stagnation (Observation r) ?g"
  let ?args = "case Arguments a of None \<Rightarrow> Map.empty | Some m \<Rightarrow> m"
  have h: "decideNextAction (reply i) = Inr a" "Action a = ''tool''" "Tool a \<noteq> []"
    "sameActionCount ?g < 2" "Send (Tool a) ?args (tool_io i) = Inr r" "Status r \<noteq> ''error''"
    using assms(1) by (simp_all add: tool_call_succeeds_def)
  have st: "lastObsSig ?s1 = obsSignature (Observation r)
      \<and> stagnantCount ?s1 =
          (if obsSignature (Observation r) = lastObsSig s then stagnantCount s + 1 else 0)"
    by (simp add: stagnation_def repeat_guard_def Let_def)
  obtain c2 s2 ev2 where p: "post_process ?s1 = (c2, s2, ev2)"
    by (cases "post_process ?s1") auto
  have ts: "tool_step i a ?g =
      (if stagnantCount ?s1 \<ge> 2
       then (Next, ?s1, [Command (Tool a) ?args, Command ''scroll'' scroll_down,
                         Sleep (800 * Millisecond)])
       else (c2, s2, Command (Tool a) ?args # ev2))"
    using h(3,5,6) p by (simp add: tool_step_def Let_def)
  have "dispatch i a ?g = tool_step i a ?g" using h(2) by (simp add: dispatch_def)
  then have "s' = (if stagnantCount ?s1 \<ge> 2 then ?s1 else s2)"
    using assms(2) h(1,4) ts by (simp add: loop_body_def Let_def split: if_splits)
  then show ?thesis using st post_process_stagnation_frame [OF p] by (simp split: if_splits)
qed

lemma stagnant_call:
  assumes "tool_call_succeeds i s a r"
    and "obsSignature (Observation r) = lastObsSig s" and "1 \<le> stagnantCount s"
  shows "loop_body pf i n s =
           (Next, stagnation (Observation r) (repeat_guard a (now i) s),
            [PrintStep n, PrintAction a,
             Command (Tool a) (case Arguments a of None \<Rightarrow> Map.empty | Some m \<Rightarrow> m),
             Command ''scroll'' scroll_down, Sleep (800 * Millisecond)])"
proof -
  let ?g = "repeat_guard a (now i) s"
  let ?s1 = "stagnation (Observation r) ?g"
  let ?args = "case Arguments a of None \<Rightarrow> Map.empty | Some m \<Rightarrow> m"
  have h: "decideNextAction (reply i) = Inr a" "Action a = ''tool''" "Tool a \<noteq> []"
    "sameActionCount ?g < 2" "Send (Tool a) ?args (tool_io i) = Inr r" "Status r \<noteq> ''error''"
    using assms(1) by (simp_all add: tool_call_succeeds_def)
  have "stagnantCount ?s1 \<ge> 2"
    using assms(2,3) by (simp add: stagnation_def repeat_guard_def Let_def)
  then have "tool_step i a ?g =
      (Next, ?s1, [Command (Tool a) ?args, Command ''scroll'' scroll_down,
                   Sleep (800 * Millisecond)])"
    using h(3,5,6) by (simp add: tool_step_def Let_def)
  then have "dispatch i a ?g =
      (Next, ?s1, [Command (Tool a) ?args, Command ''scroll'' scroll_down,
                   Sleep (800 * Millisecond)])"
    using h(2) by (simp add: dispatch_def)
  then show ?thesis using h(1,4) by (simp add: loop_body_def Let_def)
qed

text \<open>
  C2, as the code has it. The corrective scroll needs a streak of 2, that is three
  consecutive successful tool calls with the same signature (the address, the title and
  the first 300 bytes of the visible text, joined by bars). From a state of the loop
  (the streak is never negative there) the third such iteration sends its own command,
  then exactly one scroll down, sleeps 800 milliseconds and goes on with the next step:
  the observation is the new one, the three flags of the post-processing are untouched
  and nothing of it is in the trace.
\<close>

theorem stagnation_third_identical:
  assumes "tool_call_succeeds i1 s a1 r1" and "loop_body pf i1 n1 s = (c1, s1, e1)"
    and "tool_call_succeeds i2 s1 a2 r2" and "loop_body pf i2 n2 s1 = (c2, s2, e2)"
    and "tool_call_succeeds i3 s2 a3 r3"
    and "obsSignature (Observation r2) = obsSignature (Observation r1)"
    and "obsSignature (Observation r3) = obsSignature (Observation r1)"
    and "0 \<le> stagnantCount s"
    and "s3 = stagnation (Observation r3) (repeat_guard a3 (now i3) s2)"
  shows "loop_body pf i3 n3 s2 =
           (Next, s3,
            [PrintStep n3, PrintAction a3,
             Command (Tool a3) (case Arguments a3 of None \<Rightarrow> Map.empty | Some m \<Rightarrow> m),
             Command ''scroll'' scroll_down, Sleep (800 * Millisecond)])
    \<and> observation s3 = Observation r3
    \<and> searchSubmitted s3 = searchSubmitted s2
    \<and> printedListings s3 = printedListings s2
    \<and> switchedToMoscow s3 = switchedToMoscow s2
    \<and> (n3 \<le> MaxSteps \<longrightarrow>
         run pf (i3 # rest) n3 s2 =
           (case run pf rest (n3 + 1) s3 of
              (out, sf, evs) \<Rightarrow>
                (out, sf,
                 [PrintStep n3, PrintAction a3,
                  Command (Tool a3) (case Arguments a3 of None \<Rightarrow> Map.empty | Some m \<Rightarrow> m),
                  Command ''scroll'' scroll_down, Sleep (800 * Millisecond)] @ evs)))"
proof -
  have k1: "lastObsSig s1 = obsSignature (Observation r1)" and c1: "0 \<le> stagnantCount s1"
    using successful_call_streak [OF assms(1,2)] assms(8) by simp_all
  have k2: "lastObsSig s2 = obsSignature (Observation r1)" and c2: "1 \<le> stagnantCount s2"
    using successful_call_streak [OF assms(3,4)] assms(6) k1 c1 by simp_all
  have b: "loop_body pf i3 n3 s2 =
      (Next, s3,
       [PrintStep n3, PrintAction a3,
        Command (Tool a3) (case Arguments a3 of None \<Rightarrow> Map.empty | Some m \<Rightarrow> m),
        Command ''scroll'' scroll_down, Sleep (800 * Millisecond)])"
    using stagnant_call [OF assms(5) _ c2, of pf n3] assms(7,9) k2 by simp
  have f: "observation s3 = Observation r3 \<and> searchSubmitted s3 = searchSubmitted s2
      \<and> printedListings s3 = printedListings s2 \<and> switchedToMoscow s3 = switchedToMoscow s2"
    using assms(9) by (simp add: stagnation_def repeat_guard_def Let_def)
  have r: "n3 \<le> MaxSteps \<longrightarrow>
      run pf (i3 # rest) n3 s2 =
        (case run pf rest (n3 + 1) s3 of
           (out, sf, evs) \<Rightarrow>
             (out, sf,
              [PrintStep n3, PrintAction a3,
               Command (Tool a3) (case Arguments a3 of None \<Rightarrow> Map.empty | Some m \<Rightarrow> m),
               Command ''scroll'' scroll_down, Sleep (800 * Millisecond)] @ evs))"
    using b by (simp split: prod.splits)
  show ?thesis using b f r by blast
qed

lemma command_names_append: "command_names (es @ fs) = command_names es @ command_names fs"
  by (induction es rule: command_names.induct) simp_all

lemma ok_input_succeeds:
  assumes "t \<noteq> []" and "lastAction s \<noteq> action_key (tool_call t) 0"
  shows "tool_call_succeeds (ok_input t) s (tool_call t) ok_resp"
proof -
  have "decideNextAction (reply (ok_input t)) = Inr (tool_call t)"
    using decide_tool_input [of t 0] by (simp add: ok_input_def)
  moreover have "now (ok_input t) = 0" "tool_io (ok_input t) = Answered (Reply ok_resp)"
    by (simp_all add: ok_input_def tool_input_def)
  ultimately show ?thesis
    using assms
    by (simp add: tool_call_succeeds_def tool_call_def repeat_guard_def Let_def ok_resp_def)
qed

lemma click_then_type:
  "fst (loop_body no_hint (ok_input ''click'') 1 (init [])) = Next
   \<and> command_names (snd (snd (loop_body no_hint (ok_input ''click'') 1 (init [])))) = [''click'']
   \<and> fst (loop_body no_hint (ok_input ''type'') 2 after_click) = Next
   \<and> command_names (snd (snd (loop_body no_hint (ok_input ''type'') 2 after_click))) = [''type'']"
  by code_simp

text \<open>The theorem at a click, a keystroke and a click from the start of a run, all
  answered with the page \<open>hh\<close>: the commands of the trace are the three tool calls and
  one scroll, and the run is not over.\<close>

theorem stagnation_third_identical_witness:
  "tool_call_succeeds (ok_input ''click'') (init []) (tool_call ''click'') ok_resp
   \<and> tool_call_succeeds (ok_input ''type'') after_click (tool_call ''type'') ok_resp
   \<and> tool_call_succeeds (ok_input ''click'') after_type (tool_call ''click'') ok_resp
   \<and> 0 \<le> stagnantCount (init [])
   \<and> 3 \<le> MaxSteps
   \<and> command_names (snd (snd (run no_hint
        [ok_input ''click'', ok_input ''type'', ok_input ''click''] 1 (init []))))
      = [''click'', ''type'', ''click'', ''scroll'']
   \<and> fst (run no_hint [ok_input ''click'', ok_input ''type'', ok_input ''click''] 1 (init []))
      = Unfinished"
proof -
  let ?i1 = "ok_input ''click''" and ?i2 = "ok_input ''type''"
  let ?X1 = "loop_body no_hint ?i1 1 (init [])"
  let ?X2 = "loop_body no_hint ?i2 2 after_click"
  have d1: "decideNextAction (reply ?i1) = Inr (tool_call ''click'')"
    and d2: "decideNextAction (reply ?i2) = Inr (tool_call ''type'')"
    using decide_tool_input [of _ 0] by (simp_all add: ok_input_def)
  have n: "now ?i1 = 0" "now ?i2 = 0" by (simp_all add: ok_input_def tool_input_def)
  obtain e1 where b1: "?X1 = (Next, after_click, e1)" and n1: "command_names e1 = [''click'']"
    using click_then_type by (cases ?X1) (simp add: after_click_def)
  obtain e2 where b2: "?X2 = (Next, after_type, e2)" and n2: "command_names e2 = [''type'']"
    using click_then_type by (cases ?X2) (simp add: after_type_def)
  have l1: "lastAction after_click = ''tool:click''"
    using loop_body_guard(1) [OF d1 b1] n by (simp add: action_key_def tool_call_def)
  have l2: "lastAction after_type = ''tool:type''"
    using loop_body_guard(1) [OF d2 b2] n by (simp add: action_key_def tool_call_def)
  have t1: "tool_call_succeeds ?i1 (init []) (tool_call ''click'') ok_resp"
    by (rule ok_input_succeeds) (simp_all add: init_def action_key_def tool_call_def)
  have t2: "tool_call_succeeds ?i2 after_click (tool_call ''type'') ok_resp"
    by (rule ok_input_succeeds) (simp_all add: l1 action_key_def tool_call_def)
  have t3: "tool_call_succeeds ?i1 after_type (tool_call ''click'') ok_resp"
    by (rule ok_input_succeeds) (simp_all add: l2 action_key_def tool_call_def)
  have z: "0 \<le> stagnantCount (init [])" by (simp add: init_def)
  have m: "3 \<le> MaxSteps" by (simp add: MaxSteps_def)
  note t = stagnation_third_identical [OF t1 b1 t2 b2 t3 refl refl z refl, of 3 "[]"]
  define s3 where "s3 = stagnation (Observation ok_resp)
      (repeat_guard (tool_call ''click'') (now ?i1) after_type)"
  define e3 where "e3 = [PrintStep 3, PrintAction (tool_call ''click''),
      Command ''click'' [''id'' \<mapsto> JStr ''x''],
      Command ''scroll'' scroll_down, Sleep (800 * Millisecond)]"
  have r3: "run no_hint [?i1] 3 after_type = (Unfinished, s3, e3)"
    using t m by (simp add: MaxSteps_def tool_call_def s3_def e3_def)
  have r2: "run no_hint [?i2, ?i1] 2 after_click = (Unfinished, s3, e2 @ e3)"
    by (subst run.simps) (simp add: b2 r3 MaxSteps_def del: run.simps)
  have r1: "run no_hint [?i1, ?i2, ?i1] 1 (init []) = (Unfinished, s3, e1 @ e2 @ e3)"
    by (subst run.simps) (simp add: b1 r2 MaxSteps_def del: run.simps)
  have n3: "command_names e3 = [''click'', ''scroll'']" by (simp add: e3_def)
  show ?thesis
    using t1 t2 t3 z m by (simp add: r1 command_names_append n1 n2 n3 del: run.simps)
qed

text \<open>
  The claim as stated fails at the second of two identical observations: from the start
  of a run a click and a keystroke are both answered with the page \<open>hh\<close>; the streak is
  1 after the second, the only commands of the trace are the two tool calls, each
  iteration ends with the pause of 3 seconds that closes the post-processing, and the
  run is not over. The signature cuts the visible text after 300 bytes, not characters:
  two texts of 151 characters that differ in the last one have the same signature.
\<close>

theorem stagnation_second_identical_counterexample:
  "obsSignature (Observation ok_resp) = ''https://hh.ru|hh|x''
   \<and> RuneCount (long_text (CHR ''a'')) = 151 \<and> long_text (CHR ''a'') \<noteq> long_text (CHR ''b'')
   \<and> obsSignature (Some (text_page (long_text (CHR ''a''))))
       = obsSignature (Some (text_page (long_text (CHR ''b''))))
   \<and> command_names (snd (snd (run no_hint [ok_input ''click'', ok_input ''type''] 1 (init []))))
       = [''click'', ''type'']
   \<and> stagnantCount (fst (snd (run no_hint [ok_input ''click'', ok_input ''type''] 1 (init [])))) = 1
   \<and> pauses (snd (snd (run no_hint [ok_input ''click'', ok_input ''type''] 1 (init []))))
       = [3 * Second, 3 * Second]
   \<and> fst (run no_hint [ok_input ''click'', ok_input ''type''] 1 (init [])) = Unfinished"
  by code_simp

section \<open>The bound and the keys of the extractor\<close>

lemma collect_bounded_distinct:
  assumes "int (length found) < want"
    and "distinct (map listing_key found)"
    and "set (map listing_key found) \<subseteq> seen"
  shows "int (length (collect ls want found seen)) \<le> want
    \<and> distinct (map listing_key (collect ls want found seen))"
  using assms
proof (induction ls arbitrary: found seen)
  case Nil
  then show ?case by simp
next
  case (Cons title rest)
  let ?company = "find_company (take 6 rest)"
  let ?key = "ToLower title @ ''|'' @ ToLower ?company"
  let ?found = "found @ [\<lparr>Title = title, Company = ?company\<rparr>]"
  show ?case
  proof (cases "contains_any (ToLower title) title_badTitle \<or> \<not> isLikelyTitle title
                  \<or> ?company = [] \<or> ?key \<in> seen")
    case True
    then have "collect (title # rest) want found seen = collect rest want found seen"
      by (auto simp: Let_def)
    then show ?thesis using Cons.IH [OF Cons.prems] by simp
  next
    case False
    then have new: "?key \<notin> seen" by simp
    have k: "listing_key \<lparr>Title = title, Company = ?company\<rparr> = ?key"
      by (simp add: listing_key_def)
    have d: "distinct (map listing_key ?found)"
      using Cons.prems(2,3) new k by auto
    have sub: "set (map listing_key ?found) \<subseteq> insert ?key seen"
      using Cons.prems(3) k by auto
    show ?thesis
    proof (cases "int (length ?found) \<ge> want")
      case True
      then have "collect (title # rest) want found seen = ?found"
        using False by (simp add: Let_def)
      then show ?thesis using d Cons.prems(1) by simp
    next
      case short: False
      then have "collect (title # rest) want found seen
          = collect rest want ?found (insert ?key seen)"
        using False by (simp add: Let_def)
      moreover have "int (length ?found) < want" using short by simp
      ultimately show ?thesis using Cons.IH [OF _ d sub] by simp
    qed
  qed
qed

text \<open>For a requested count of at least 1 the list that the extractor returns has at
  most that many records, with pairwise different keys.\<close>

lemma extract_bounded_distinct:
  assumes "1 \<le> want" and "ExtractListingsFromVisibleText visible want = Inr ls"
  shows "int (length ls) \<le> want \<and> distinct (map listing_key ls)"
proof -
  obtain lines where "ls = collect lines want [] {}"
    using assms by (auto simp: ExtractListingsFromVisibleText_def Let_def split: if_splits)
  then show ?thesis
    using collect_bounded_distinct [of "[]" want "{}" lines] assms(1) by simp
qed

text \<open>
  C4, at the requested count 0: the test \<^verbatim>\<open>len(found) >= want\<close> comes after the append, so
  the first pair found is returned, one record where at most none was asked for.
\<close>

theorem extract_zero_returns_one:
  "ExtractListingsFromVisibleText ''AI Engineer\<newline>Acme Inc'' 0
     = Inr [\<lparr>Title = ''AI Engineer'', Company = ''Acme Inc''\<rparr>]"
  by code_simp

text \<open>
  The extractor does not return on every text either. After fifteen capitals whose
  lower-case form is one byte longer, the index of the marker in the lower-cased text
  lies beyond the end of the text itself, and the slice expression panics. A negative
  count panics in \<^verbatim>\<open>make\<close>.
\<close>

lemma extract_panics_on_longer_lower_case:
  "ExtractListingsFromVisibleText stroke_text 3 = Inl SliceBoundsOutOfRange"
  by code_simp

lemma extract_panics_on_negative_count:
  "ExtractListingsFromVisibleText ''AI Engineer\<newline>Acme Inc'' (- 1) = Inl MakeSliceCapOutOfRange"
  by code_simp

end
